(* ===== verification/Prelude.thy ===== *)
theory Prelude
  imports Main "HOL-Library.Word" "HOL-Library.AList"
begin

text \<open>
  What the component theories share: the names of the machine types the Rust source uses, the
  pieces of the Rust standard library the crate calls (little-endian conversions, decimal and
  hexadecimal formatting, integer parsing, the string splitters), the combinators for fallible
  code, the reachability predicate of a state machine, and the lemmas on them.

  Conventions.  A byte is an 8-bit word.  A Rust \<^verbatim>\<open>String\<close> or \<^verbatim>\<open>&str\<close> is the list of its UTF-8 bytes,
  written as an Isabelle \<open>string\<close>.  \<^verbatim>\<open>u16\<close>, \<^verbatim>\<open>u32\<close> and \<^verbatim>\<open>u64\<close> are words of that width; an \<^verbatim>\<open>i32\<close> is
  an \<open>int\<close>, since the crate compares and prints such values and computes nothing with them but
  a maximum.  A \<^verbatim>\<open>Duration\<close> or \<^verbatim>\<open>Instant\<close> is a number of milliseconds.  A \<^verbatim>\<open>Result<T>\<close> is a sum
  with the error on the left.
\<close>

unbundle bit_operations_syntax

named_theorems emsg_defs \<open>the numbers of the message types\<close>
named_theorems timeout_defs \<open>the time budgets of the calls\<close>

type_synonym byte = "8 word"
type_synonym bytes = "byte list"
type_synonym u16 = "16 word"
type_synonym u32 = "32 word"
type_synonym u64 = "64 word"
type_synonym i32 = int
type_synonym millis = nat

abbreviation u64_max :: u64 where
  "u64_max \<equiv> - 1"

abbreviation secs :: "nat \<Rightarrow> millis" where
  "secs n \<equiv> 1000 * n"

section \<open>Fallible code\<close>

text \<open>The \<^verbatim>\<open>?\<close> operator, \<^verbatim>\<open>Result::map_err\<close>, \<^verbatim>\<open>Option::ok_or\<close>, \<^verbatim>\<open>Option::filter\<close> and
  \<^verbatim>\<open>Option::unwrap_or\<close>.\<close>

definition and_then :: "'e + 'a \<Rightarrow> ('a \<Rightarrow> 'e + 'b) \<Rightarrow> 'e + 'b" where
  "and_then r f = (case r of Inl e \<Rightarrow> Inl e | Inr x \<Rightarrow> f x)"

definition map_err :: "('e \<Rightarrow> 'f) \<Rightarrow> 'e + 'a \<Rightarrow> 'f + 'a" where
  "map_err f r = (case r of Inl e \<Rightarrow> Inl (f e) | Inr x \<Rightarrow> Inr x)"

definition ok_or :: "'e \<Rightarrow> 'a option \<Rightarrow> 'e + 'a" where
  "ok_or e v = (case v of None \<Rightarrow> Inl e | Some x \<Rightarrow> Inr x)"

definition opt_filter :: "('a \<Rightarrow> bool) \<Rightarrow> 'a option \<Rightarrow> 'a option" where
  "opt_filter p v = (case v of None \<Rightarrow> None | Some x \<Rightarrow> if p x then Some x else None)"

definition unwrap_or :: "'a \<Rightarrow> 'a option \<Rightarrow> 'a" where
  "unwrap_or d v = (case v of None \<Rightarrow> d | Some x \<Rightarrow> x)"

definition is_ok :: "'e + 'a \<Rightarrow> bool" where
  "is_ok r = (case r of Inl _ \<Rightarrow> False | Inr _ \<Rightarrow> True)"

text \<open>A future that is polled: it is not ready yet, or it has produced its value.\<close>

datatype 'a poll = Pending | Ready 'a

section \<open>Little-endian words\<close>

text \<open>\<^verbatim>\<open>u32::to_le_bytes\<close> and \<^verbatim>\<open>u32::from_le_bytes\<close>; the latter is applied to a slice whose
  length the caller has checked to be 4.\<close>

definition u32_to_le :: "u32 \<Rightarrow> bytes" where
  "u32_to_le w = [ucast w, ucast (drop_bit 8 w), ucast (drop_bit 16 w), ucast (drop_bit 24 w)]"

fun u32_from_le :: "bytes \<Rightarrow> u32" where
  "u32_from_le [a, b, c, d] =
     ucast a OR push_bit 8 (ucast b) OR push_bit 16 (ucast c) OR push_bit 24 (ucast d)"
| "u32_from_le _ = 0"

section \<open>Numbers as text\<close>

definition digit_char :: "nat \<Rightarrow> char" where
  "digit_char d = char_of (48 + d)"

definition digit_val :: "char \<Rightarrow> nat option" where
  "digit_val c = (let n = of_char c in if 48 \<le> n \<and> n \<le> 57 then Some (n - 48) else None)"

fun show_nat :: "nat \<Rightarrow> string" where
  "show_nat n = (if n < 10 then [digit_char n] else show_nat (n div 10) @ [digit_char (n mod 10)])"

definition show_int :: "int \<Rightarrow> string" where
  "show_int i = (if i < 0 then ''-'' @ show_nat (nat (- i)) else show_nat (nat i))"

definition show_word :: "'w::len word \<Rightarrow> string" where
  "show_word w = show_nat (unat w)"

definition hex_char :: "nat \<Rightarrow> char" where
  "hex_char d = (if d < 10 then char_of (48 + d) else char_of (87 + d))"

fun show_hex :: "nat \<Rightarrow> nat \<Rightarrow> string" where
  "show_hex 0 n = []"
| "show_hex (Suc k) n = show_hex k (n div 16) @ [hex_char (n mod 16)]"

text \<open>\<^verbatim>\<open>str::parse::<u64>\<close>: an optional leading plus sign, then digits; a digit that is not one is
  reported before an overflow at the same character.\<close>

fun parse_digits :: "nat \<Rightarrow> nat \<Rightarrow> string \<Rightarrow> string + nat" where
  "parse_digits bound acc [] = Inr acc"
| "parse_digits bound acc (c # cs) =
     (case digit_val c of
        None \<Rightarrow> Inl ''invalid digit found in string''
      | Some d \<Rightarrow> if bound \<le> acc * 10 + d then Inl ''number too large to fit in target type''
                  else parse_digits bound (acc * 10 + d) cs)"

definition parse_nat :: "nat \<Rightarrow> string \<Rightarrow> string + nat" where
  "parse_nat bound s =
     (if s = [] then Inl ''cannot parse integer from empty string''
      else if s = ''+'' then Inl ''invalid digit found in string''
      else if hd s = CHR ''+'' then parse_digits bound 0 (tl s)
      else parse_digits bound 0 s)"

definition parse_u64 :: "string \<Rightarrow> string + u64" where
  "parse_u64 s = (case parse_nat (2 ^ 64) s of Inl e \<Rightarrow> Inl e | Inr n \<Rightarrow> Inr (of_nat n))"

text \<open>\<^verbatim>\<open>str::parse::<i32>\<close>, whose error the crate replaces: only success matters.\<close>

definition parse_i32 :: "string \<Rightarrow> i32 option" where
  "parse_i32 s =
     (if s \<noteq> [] \<and> hd s = CHR ''-'' then
        (if tl s = [] then None
         else case parse_digits (2 ^ 31 + 1) 0 (tl s) of Inl _ \<Rightarrow> None | Inr n \<Rightarrow> Some (- int n))
      else case parse_nat (2 ^ 31) s of Inl _ \<Rightarrow> None | Inr n \<Rightarrow> Some (int n))"

section \<open>State machines\<close>

inductive reachable :: "('s \<Rightarrow> bool) \<Rightarrow> ('s \<Rightarrow> 's \<Rightarrow> bool) \<Rightarrow> 's \<Rightarrow> bool"
  for init :: "'s \<Rightarrow> bool" and step :: "'s \<Rightarrow> 's \<Rightarrow> bool" where
  reach_init: "init s \<Longrightarrow> reachable init step s"
| reach_step: "reachable init step s \<Longrightarrow> step s t \<Longrightarrow> reachable init step t"

section \<open>Lemmas\<close>

lemma and_then_simps [simp]:
  "and_then (Inl e) f = Inl e"
  "and_then (Inr x) f = f x"
  by (simp_all add: and_then_def)

lemma and_then_Inr_iff: "and_then r f = Inr y \<longleftrightarrow> (\<exists>x. r = Inr x \<and> f x = Inr y)"
  by (cases r) simp_all

lemma map_err_simps [simp]:
  "map_err f (Inl e) = Inl (f e)"
  "map_err f (Inr x) = Inr x"
  by (simp_all add: map_err_def)

lemma map_err_Inr_iff [simp]: "map_err f r = Inr x \<longleftrightarrow> r = Inr x"
  by (cases r) simp_all

lemma ok_or_simps [simp]:
  "ok_or e None = Inl e"
  "ok_or e (Some x) = Inr x"
  by (simp_all add: ok_or_def)

lemma opt_filter_simps [simp]:
  "opt_filter p None = None"
  "opt_filter p (Some x) = (if p x then Some x else None)"
  by (simp_all add: opt_filter_def)

lemma opt_filter_Some_iff: "opt_filter p v = Some x \<longleftrightarrow> v = Some x \<and> p x"
  by (cases v) auto

lemma unwrap_or_simps [simp]:
  "unwrap_or d None = d"
  "unwrap_or d (Some x) = x"
  by (simp_all add: unwrap_or_def)

lemma is_ok_simps [simp]:
  "\<not> is_ok (Inl e)"
  "is_ok (Inr x)"
  by (simp_all add: is_ok_def)

lemma length_u32_to_le [simp]: "length (u32_to_le w) = 4"
  by (simp add: u32_to_le_def)

lemma u32_from_to_le [simp]: "u32_from_le (u32_to_le w) = w"
proof (rule bit_word_eqI)
  fix n assume n: "n < LENGTH(32)"
  consider "n < 8" | "8 \<le> n" "n < 16" | "16 \<le> n" "n < 24" | "24 \<le> n" by linarith
  then show "bit (u32_from_le (u32_to_le w)) n = bit w n"
    using n by cases (auto simp: u32_to_le_def bit_simps)
qed

lemma u32_to_from_le: "length bs = 4 \<Longrightarrow> u32_to_le (u32_from_le bs) = bs"
proof -
  assume "length bs = 4"
  then obtain a b c d where bs: "bs = [a, b, c, d]"
    by (auto simp: length_Suc_conv numeral_eq_Suc)
  have "ucast (u32_from_le bs) = a" "ucast (drop_bit 8 (u32_from_le bs)) = b"
    "ucast (drop_bit 16 (u32_from_le bs)) = c" "ucast (drop_bit 24 (u32_from_le bs)) = d"
    unfolding bs by (rule bit_word_eqI, auto simp: bit_simps dest: bit_imp_le_length)+
  then show ?thesis by (simp add: u32_to_le_def bs)
qed

declare show_nat.simps [simp del]

lemma digit_char_numeral [simp]:
  "digit_char 0 = CHR ''0''" "digit_char (Suc 0) = CHR ''1''" "digit_char 1 = CHR ''1''"
  "digit_char 2 = CHR ''2''" "digit_char 3 = CHR ''3''" "digit_char 4 = CHR ''4''"
  "digit_char 5 = CHR ''5''" "digit_char 6 = CHR ''6''" "digit_char 7 = CHR ''7''"
  "digit_char 8 = CHR ''8''" "digit_char 9 = CHR ''9''"
  by code_simp+

lemma digit_val_char [simp]: "d < 10 \<Longrightarrow> digit_val (digit_char d) = Some d"
  by (simp add: digit_val_def digit_char_def)

lemma show_nat_not_Nil [simp]: "show_nat n \<noteq> []"
  by (subst show_nat.simps) simp

lemma parse_digits_append:
  "parse_digits b acc (s @ t) =
     (case parse_digits b acc s of Inl e \<Rightarrow> Inl e | Inr n \<Rightarrow> parse_digits b n t)"
  by (induction s arbitrary: acc) (auto split: option.splits)

lemma parse_digits_show: "n < b \<Longrightarrow> parse_digits b 0 (show_nat n) = Inr n"
proof (induction n rule: show_nat.induct)
  case (1 n)
  show ?case
  proof (cases "n < 10")
    case True
    with "1.prems" show ?thesis by (subst show_nat.simps) simp
  next
    case False
    from False "1.prems" have "parse_digits b 0 (show_nat (n div 10)) = Inr (n div 10)"
      using "1.IH" by (simp add: order_le_less_trans [OF div_le_dividend])
    moreover have "n div 10 * 10 + n mod 10 = n" by simp
    ultimately show ?thesis using False "1.prems"
      by (subst show_nat.simps) (simp add: parse_digits_append)
  qed
qed

lemma hd_show_nat: "\<exists>d < 10. hd (show_nat n) = digit_char d"
proof (induction n rule: show_nat.induct)
  case (1 n)
  then show ?case
    by (cases "n < 10") (auto simp: show_nat.simps [of n])
qed

lemma digit_char_not_sign: "d < 10 \<Longrightarrow> digit_char d \<noteq> CHR ''+'' \<and> digit_char d \<noteq> CHR ''-''"
  by (auto simp: digit_char_def dest!: arg_cong [where f = "of_char :: char \<Rightarrow> nat"])

lemma parse_nat_show: "n < b \<Longrightarrow> parse_nat b (show_nat n) = Inr n"
proof -
  assume n: "n < b"
  have "hd (show_nat n) \<noteq> CHR ''+''"
    using hd_show_nat [of n] digit_char_not_sign by metis
  moreover from this have "show_nat n \<noteq> ''+''" by auto
  ultimately show ?thesis
    using parse_digits_show [OF n] by (simp add: parse_nat_def)
qed

lemma parse_u64_show [simp]: "parse_u64 (show_word w) = Inr w" for w :: u64
proof -
  have "unat w < 2 ^ 64" using unsigned_less [of w, where ?'a = nat] by simp
  then show ?thesis by (simp add: parse_u64_def show_word_def parse_nat_show)
qed

lemma parse_digits_bound: "parse_digits b acc s = Inr n \<Longrightarrow> acc < b \<Longrightarrow> n < b"
  by (induction s arbitrary: acc) (auto split: option.splits if_splits)

lemma ex_less_Suc_shift: "(\<exists>i < Suc n. P i) \<longleftrightarrow> P 0 \<or> (\<exists>i < n. P (Suc i))"
  by (auto simp: less_Suc_eq_0_disj)

lemma all_less_Suc_shift: "(\<forall>j < Suc i. P j) \<longleftrightarrow> P 0 \<and> (\<forall>j < i. P (Suc j))"
  by (auto simp: less_Suc_eq_0_disj)

section \<open>The invariant rule\<close>

text \<open>The contract between a state machine and the proofs about it: what holds at the start and
  is kept by every step holds in every reachable state.\<close>

locale invariant =
  fixes init :: "'s \<Rightarrow> bool"
    and step :: "'s \<Rightarrow> 's \<Rightarrow> bool"
    and inv :: "'s \<Rightarrow> bool"
  assumes inv_start: "init s \<Longrightarrow> inv s"
    and inv_next: "inv s \<Longrightarrow> step s t \<Longrightarrow> inv t"
begin

lemma inv_reachable: "reachable init step s \<Longrightarrow> inv s"
  by (induction rule: reachable.induct) (auto intro: inv_start inv_next)

lemma inv_steps: "inv s \<Longrightarrow> step\<^sup>*\<^sup>* s t \<Longrightarrow> inv t"
  by (rotate_tac 1, induction rule: rtranclp_induct) (auto intro: inv_next)

end

text \<open>A machine whose steps, seen through an abstraction, are steps of another: so are its runs.\<close>

locale simulation = invariant init step inv
  for init :: "'s \<Rightarrow> bool" and step :: "'s \<Rightarrow> 's \<Rightarrow> bool" and inv :: "'s \<Rightarrow> bool" +
  fixes abs :: "'s \<Rightarrow> 'a"
    and astep :: "'a \<Rightarrow> 'a \<Rightarrow> bool"
  assumes simulates: "inv s \<Longrightarrow> step s t \<Longrightarrow> astep (abs s) (abs t)"
begin

lemma run_inv: "inv s \<Longrightarrow> (step ^^ n) s t \<Longrightarrow> inv t"
  by (induction n arbitrary: t) (auto intro: inv_next)

lemma run_simulates: "inv s \<Longrightarrow> (step ^^ n) s t \<Longrightarrow> (astep ^^ n) (abs s) (abs t)"
proof (induction n arbitrary: t)
  case (Suc n)
  then obtain u where u: "(step ^^ n) s u" "step u t" by auto
  with Suc.IH Suc.prems(1) simulates [OF run_inv] show ?case by (meson relpowp_Suc_I)
qed simp

end

end
