(* ===== verification/Steam_Error.thy ===== *)
theory Steam_Error
  imports Prelude
begin

text \<open>
  The crate-wide error type of \<^verbatim>\<open>src/error.rs\<close> and its table of Steam \<^verbatim>\<open>EResult\<close> codes.  A payload
  that is another crate's error (\<^verbatim>\<open>Io\<close>, \<^verbatim>\<open>UrlParse\<close>, \<^verbatim>\<open>Base64\<close>) is represented by its text, which is
  all the crate reads of it.
\<close>

section \<open>The \<^verbatim>\<open>eresult\<close> table\<close>

definition OK :: i32 where [simp]: "OK = 1"
definition FAIL :: i32 where [simp]: "FAIL = 2"
definition NO_CONNECTION :: i32 where [simp]: "NO_CONNECTION = 3"
definition INVALID_PASSWORD :: i32 where [simp]: "INVALID_PASSWORD = 5"
definition BUSY :: i32 where [simp]: "BUSY = 10"
definition TIMEOUT :: i32 where [simp]: "TIMEOUT = 16"
definition SERVICE_UNAVAILABLE :: i32 where [simp]: "SERVICE_UNAVAILABLE = 20"
definition DUPLICATE_REQUEST :: i32 where [simp]: "DUPLICATE_REQUEST = 29"
definition TRY_ANOTHER_CM :: i32 where [simp]: "TRY_ANOTHER_CM = 48"
definition ACCOUNT_LOGON_DENIED :: i32 where [simp]: "ACCOUNT_LOGON_DENIED = 63"
definition RATE_LIMIT_EXCEEDED :: i32 where [simp]: "RATE_LIMIT_EXCEEDED = 84"
definition ACCOUNT_LOGIN_DENIED_NEED_TWO_FACTOR :: i32 where
  [simp]: "ACCOUNT_LOGIN_DENIED_NEED_TWO_FACTOR = 85"
definition ACCOUNT_LOGIN_DENIED_THROTTLE :: i32 where [simp]: "ACCOUNT_LOGIN_DENIED_THROTTLE = 87"
definition TWO_FACTOR_CODE_MISMATCH :: i32 where [simp]: "TWO_FACTOR_CODE_MISMATCH = 88"

section \<open>The error type\<close>

datatype error =
    Io string
  | InvalidUrl string
  | UrlParse string
  | InvalidConfig string
  | Socks5 string
  | HttpConnect string
  | Tls string
  | WebSocket string
  | Codec string
  | Base64 string
  | HmacKey
  | Network string
  | AuthRejected string
  | LogonRetryable string
  | Remote string
  | AuthRateLimited string
  | TokenStore string
  | InvalidState string string
  | Timeout string
  | NotImplemented string

type_synonym 'a result = "error + 'a"

text \<open>The \<^verbatim>\<open>#[error("...")]\<close> attributes, that is \<^verbatim>\<open>Error::to_string\<close>.\<close>

fun display_error :: "error \<Rightarrow> string" where
  "display_error (Io e) = ''io: '' @ e"
| "display_error (InvalidUrl e) = ''invalid url: '' @ e"
| "display_error (UrlParse e) = ''url parse: '' @ e"
| "display_error (InvalidConfig e) = ''invalid config: '' @ e"
| "display_error (Socks5 e) = ''socks5: '' @ e"
| "display_error (HttpConnect e) = ''http connect: '' @ e"
| "display_error (Tls e) = ''tls: '' @ e"
| "display_error (WebSocket e) = ''websocket: '' @ e"
| "display_error (Codec e) = ''codec: '' @ e"
| "display_error (Base64 e) = ''base64: '' @ e"
| "display_error HmacKey = ''hmac: invalid key length''"
| "display_error (Network e) = ''network: '' @ e"
| "display_error (AuthRejected e) = ''auth rejected: '' @ e"
| "display_error (LogonRetryable e) = ''cm logon retryable: '' @ e"
| "display_error (Remote e) = ''steam request failed: '' @ e"
| "display_error (AuthRateLimited e) = ''auth rate-limited: '' @ e"
| "display_error (TokenStore e) = ''token store: '' @ e"
| "display_error (InvalidState expected actual) =
     ''invalid session state: expected '' @ expected @ '', was '' @ actual"
| "display_error (Timeout e) = ''timeout: '' @ e"
| "display_error (NotImplemented e) = ''not implemented yet: '' @ e"

fun is_auth_rejected :: "error \<Rightarrow> bool" where
  "is_auth_rejected (AuthRejected _) = True"
| "is_auth_rejected _ = False"

text \<open>The two \<^verbatim>\<open>From\<close> conversions for the socket libraries' errors.\<close>

definition error_from_socks :: "string \<Rightarrow> error" where
  "error_from_socks e = Socks5 e"

definition error_from_tungstenite :: "string \<Rightarrow> error" where
  "error_from_tungstenite e = WebSocket e"

section \<open>Lemmas\<close>

lemma is_auth_rejected_iff: "is_auth_rejected e \<longleftrightarrow> (\<exists>r. e = AuthRejected r)"
  by (cases e) simp_all

text \<open>The codes the crate branches on are pairwise different, so no branch of a \<^verbatim>\<open>match\<close> on them
  shadows another.\<close>

lemma eresult_codes_distinct:
  "distinct [OK, FAIL, NO_CONNECTION, INVALID_PASSWORD, BUSY, TIMEOUT, SERVICE_UNAVAILABLE,
     DUPLICATE_REQUEST, TRY_ANOTHER_CM, ACCOUNT_LOGON_DENIED, RATE_LIMIT_EXCEEDED,
     ACCOUNT_LOGIN_DENIED_NEED_TWO_FACTOR, ACCOUNT_LOGIN_DENIED_THROTTLE,
     TWO_FACTOR_CODE_MISMATCH]"
  by simp

end
