(* ===== verification/Codec.thy ===== *)
theory Codec
  imports Steam_Error
begin

text \<open>
  The message framing of \<^verbatim>\<open>src/codec.rs\<close>.  A frame is a 32-bit message word, a 32-bit header length,
  the header and the body.  The protobuf encoder and decoder of a message type are prost's, so
  they are arguments (\<open>enc\<close>, \<open>dec\<close>), as the trait bound \<^verbatim>\<open>M: Message\<close> passes them in the source.
\<close>

section \<open>Messages\<close>

text \<open>The routing header: the fields of \<^verbatim>\<open>CMsgProtoBufHeader\<close> that the crate sets or reads.\<close>

record cmsg_proto_buf_header =
  hdr_steamid :: "u64 option"
  hdr_client_sessionid :: "i32 option"
  hdr_jobid_source :: "u64 option"
  hdr_jobid_target :: "u64 option"
  hdr_eresult :: "i32 option"
  hdr_error_message :: "string option"

definition default_header :: cmsg_proto_buf_header where
  "default_header =
     \<lparr>hdr_steamid = None, hdr_client_sessionid = None, hdr_jobid_source = None,
      hdr_jobid_target = None, hdr_eresult = None, hdr_error_message = None\<rparr>"

record steam_message =
  sm_emsg :: u32
  sm_header :: cmsg_proto_buf_header
  sm_body :: bytes

section \<open>Encoding\<close>

definition PROTO_MASK :: u32 where
  "PROTO_MASK = 0x80000000"

definition EMSG_MASK :: u32 where
  "EMSG_MASK = NOT PROTO_MASK"

definition PREFIX_LEN :: nat where
  "PREFIX_LEN = 8"

definition put_prefix :: "bytes \<Rightarrow> u32 \<Rightarrow> nat \<Rightarrow> bytes" where
  "put_prefix out msg_type header_len =
     out @ u32_to_le ((msg_type AND EMSG_MASK) OR PROTO_MASK) @ u32_to_le (of_nat header_len)"

definition encode_into :: "('m \<Rightarrow> bytes) \<Rightarrow> bytes \<Rightarrow> 'm \<Rightarrow> bytes" where
  "encode_into enc out msg = out @ enc msg"

text \<open>\<^verbatim>\<open>encoded_len\<close> is prost's name for the length of what \<^verbatim>\<open>encode\<close> writes.\<close>

definition encode :: "('h \<Rightarrow> bytes) \<Rightarrow> ('m \<Rightarrow> bytes) \<Rightarrow> u32 \<Rightarrow> 'h \<Rightarrow> 'm \<Rightarrow> bytes" where
  "encode enc_header enc_body emsg header body =
     (let header_len = length (enc_header header);
          out = put_prefix [] emsg header_len;
          out = encode_into enc_header out header
      in encode_into enc_body out body)"

definition encode_raw :: "('h \<Rightarrow> bytes) \<Rightarrow> u32 \<Rightarrow> 'h \<Rightarrow> bytes \<Rightarrow> bytes" where
  "encode_raw enc_header emsg header body =
     (let header_len = length (enc_header header);
          out = put_prefix [] emsg header_len;
          out = encode_into enc_header out header
      in out @ body)"

section \<open>Decoding\<close>

record frame_parts =
  fp_msg_type :: u32
  fp_header :: bytes
  fp_body :: bytes

definition unframe :: "bytes \<Rightarrow> frame_parts option result" where
  "unframe bs =
     (if length bs < PREFIX_LEN then Inl (Codec ''frame shorter than 8-byte prefix'')
      else
        let raw_msg = u32_from_le (take 4 bs) in
        if raw_msg AND PROTO_MASK = 0 then Inr None
        else
          let header_len = unat (u32_from_le (take 4 (drop 4 bs)));
              rest = drop PREFIX_LEN bs
          in if length rest < header_len then
               Inl (Codec (''header length '' @ show_nat header_len @ '' exceeds '' @
                 show_nat (length rest) @ '' remaining bytes''))
             else
               Inr (Some \<lparr>fp_msg_type = raw_msg AND EMSG_MASK,
                          fp_header = take header_len rest,
                          fp_body = drop header_len rest\<rparr>))"

definition try_decode ::
  "(bytes \<Rightarrow> string + cmsg_proto_buf_header) \<Rightarrow> bytes \<Rightarrow> steam_message option result" where
  "try_decode dec_header bs =
     and_then (unframe bs) (\<lambda>parts.
       case parts of
         None \<Rightarrow> Inr None
       | Some p \<Rightarrow>
           and_then (map_err (\<lambda>e. Codec (''decode header: '' @ e)) (dec_header (fp_header p)))
             (\<lambda>header. Inr (Some \<lparr>sm_emsg = fp_msg_type p, sm_header = header,
                                   sm_body = fp_body p\<rparr>)))"

definition decode ::
  "(bytes \<Rightarrow> string + cmsg_proto_buf_header) \<Rightarrow> bytes \<Rightarrow> steam_message result" where
  "decode dec_header bs =
     and_then (try_decode dec_header bs) (\<lambda>m.
       ok_or (Codec (''non-protobuf message (raw type 0x'' @
                show_hex 8 (unat (u32_from_le (take 4 bs))) @ '') not supported'')) m)"

section \<open>Lemmas\<close>

text \<open>A frame, spelled out: what both encoders produce.\<close>

definition frame :: "u32 \<Rightarrow> bytes \<Rightarrow> bytes \<Rightarrow> bytes" where
  "frame emsg header body =
     u32_to_le ((emsg AND EMSG_MASK) OR PROTO_MASK) @ u32_to_le (of_nat (length header)) @
     header @ body"

lemma encode_raw_frame: "encode_raw enc emsg header body = frame emsg (enc header) body"
  by (simp add: encode_raw_def put_prefix_def encode_into_def frame_def Let_def)

lemma encode_frame: "encode enc_h enc_b emsg header body = frame emsg (enc_h header) (enc_b body)"
  by (simp add: encode_def put_prefix_def encode_into_def frame_def Let_def)

lemma mask_disjoint [simp]: "EMSG_MASK AND PROTO_MASK = 0" "PROTO_MASK AND EMSG_MASK = 0"
  by (simp_all add: EMSG_MASK_def PROTO_MASK_def)

lemma proto_bit_set: "((w AND EMSG_MASK) OR PROTO_MASK) AND PROTO_MASK = PROTO_MASK"
  by (simp add: EMSG_MASK_def bit.conj_disj_distrib2 and.assoc)

lemma proto_mask_nonzero [simp]: "PROTO_MASK \<noteq> 0"
  by (simp add: PROTO_MASK_def)

lemma proto_bit_stripped: "((w AND EMSG_MASK) OR PROTO_MASK) AND EMSG_MASK = w AND EMSG_MASK"
  by (simp add: EMSG_MASK_def bit.conj_disj_distrib2 and.assoc)

lemma bit_PROTO_MASK: "bit PROTO_MASK n \<longleftrightarrow> n = 31"
proof -
  have "bit (push_bit 31 (1 :: u32)) n \<longleftrightarrow> n = 31"
    by (simp only: bit_push_bit_iff bit_1_iff) auto
  then show ?thesis by (simp add: PROTO_MASK_def)
qed

lemma mask_roundtrip: "raw AND PROTO_MASK \<noteq> 0 \<Longrightarrow> ((raw AND EMSG_MASK) OR PROTO_MASK) = raw"
proof -
  assume "raw AND PROTO_MASK \<noteq> 0"
  then have "bit raw 31"
    by (auto simp: bit_eq_iff [of "raw AND PROTO_MASK"] bit_and_iff bit_PROTO_MASK)
  then show ?thesis
    by (intro bit_word_eqI)
      (auto simp: EMSG_MASK_def bit_or_iff bit_and_iff bit_not_iff bit_PROTO_MASK)
qed

lemma emsg_mask_idem [simp]: "(w AND EMSG_MASK) AND EMSG_MASK = w AND EMSG_MASK"
  by (simp add: and.assoc)

lemma length_frame [simp]: "length (frame m h b) = 8 + length h + length b"
  by (simp add: frame_def)

lemma unframe_frame:
  assumes "length h < 2 ^ 32"
  shows "unframe (frame m h b) =
    Inr (Some \<lparr>fp_msg_type = m AND EMSG_MASK, fp_header = h, fp_body = b\<rparr>)"
proof -
  from assms have len: "unat (of_nat (length h) :: u32) = length h"
    by (simp add: unsigned_of_nat take_bit_nat_eq_self)
  show ?thesis
    by (simp add: unframe_def frame_def PREFIX_LEN_def len proto_bit_set proto_bit_stripped Let_def)
qed

lemma frame_unframe:
  assumes "unframe bs = Inr (Some p)"
  shows "frame (fp_msg_type p) (fp_header p) (fp_body p) = bs"
proof -
  let ?raw = "u32_from_le (take 4 bs)" and ?len = "u32_from_le (take 4 (drop 4 bs))"
  from assms have l: "8 \<le> length bs" and b: "?raw AND PROTO_MASK \<noteq> 0"
    and h: "unat ?len \<le> length (drop 8 bs)"
    and p: "p = \<lparr>fp_msg_type = ?raw AND EMSG_MASK, fp_header = take (unat ?len) (drop 8 bs),
                  fp_body = drop (unat ?len) (drop 8 bs)\<rparr>"
    by (auto simp: unframe_def PREFIX_LEN_def Let_def not_less split: if_splits)
  from l have "u32_to_le ?raw = take 4 bs" "u32_to_le ?len = take 4 (drop 4 bs)"
    by (simp_all add: u32_to_from_le)
  moreover have "take 4 bs @ take 4 (drop 4 bs) @ drop 8 bs = bs"
    using append_take_drop_id [of 4 bs] append_take_drop_id [of 4 "drop 4 bs"] by simp
  moreover have "fp_header p @ fp_body p = drop 8 bs"
    by (simp only: p frame_parts.simps append_take_drop_id)
  moreover from h have "length (fp_header p) = unat ?len" by (simp add: p)
  ultimately show ?thesis
    using mask_roundtrip [OF b] by (simp add: frame_def p del: drop_drop)
qed

lemma fp_header_bound:
  assumes "unframe bs = Inr (Some p)" shows "length (fp_header p) < 2 ^ 32"
proof -
  have "length (fp_header p) \<le> unat (u32_from_le (take 4 (drop 4 bs)))"
    using assms by (auto simp: unframe_def Let_def split: if_splits)
  also have "\<dots> < 2 ^ 32" by (rule order_less_le_trans [OF unsigned_less]) simp
  finally show ?thesis .
qed

section \<open>The framing contract\<close>

text \<open>
  What the users of the codec rely on: a frame is read back as what was written, and a frame that
  is read at all is the encoding of what was read.  The connection manager's messages and the game
  coordinator's nested messages are both decoded through it, with different header types.
\<close>

locale framing =
  fixes frm :: "u32 \<Rightarrow> bytes \<Rightarrow> bytes \<Rightarrow> bytes"
    and unfrm :: "bytes \<Rightarrow> frame_parts option result"
  assumes unfrm_frm: "length h < 2 ^ 32 \<Longrightarrow>
      unfrm (frm m h b) = Inr (Some \<lparr>fp_msg_type = m AND EMSG_MASK, fp_header = h, fp_body = b\<rparr>)"
    and frm_unfrm: "unfrm bs = Inr (Some p) \<Longrightarrow>
      frm (fp_msg_type p) (fp_header p) (fp_body p) = bs"
    and unfrm_Codec: "unfrm bs = Inl e \<Longrightarrow> \<exists>t. e = Codec t"
begin

text \<open>Decoding through a header decoder \<open>dec\<close> and building the message with \<open>k\<close>.\<close>

definition decode_via where
  "decode_via dec f k bs =
     and_then (unfrm bs) (\<lambda>parts. case parts of
         None \<Rightarrow> Inr None
       | Some p \<Rightarrow> and_then (map_err (\<lambda>e. Codec (f e)) (dec (fp_header p)))
                    (\<lambda>h. Inr (Some (k (fp_msg_type p) h (fp_body p)))))"

lemma decode_via_frm:
  "length hb < 2 ^ 32 \<Longrightarrow> dec hb = Inr h \<Longrightarrow>
   decode_via dec f k (frm m hb b) = Inr (Some (k (m AND EMSG_MASK) h b))"
  by (simp add: decode_via_def unfrm_frm)

lemma decode_via_SomeD:
  assumes "decode_via dec f k bs = Inr (Some x)"
  shows "\<exists>m hb h b. bs = frm m hb b \<and> dec hb = Inr h \<and> x = k m h b"
  using assms frm_unfrm
  by (auto simp: decode_via_def and_then_Inr_iff split: option.splits) metis

lemma decode_via_Codec: "decode_via dec f k bs = Inl e \<Longrightarrow> \<exists>t. e = Codec t"
  by (auto simp: decode_via_def and_then_def map_err_def dest: unfrm_Codec
      split: sum.splits option.splits)

end

lemma unframe_Codec: "unframe bs = Inl e \<Longrightarrow> \<exists>t. e = Codec t"
  by (auto simp: unframe_def Let_def split: if_splits)

interpretation cm_frame: framing frame unframe
  by unfold_locales (rule unframe_frame frame_unframe unframe_Codec; assumption)+

lemma try_decode_via:
  "try_decode dec =
     cm_frame.decode_via dec (\<lambda>e. ''decode header: '' @ e)
       (\<lambda>m h b. \<lparr>sm_emsg = m, sm_header = h, sm_body = b\<rparr>)"
  by (rule ext) (simp only: try_decode_def cm_frame.decode_via_def)

lemma try_decode_frame:
  "length hb < 2 ^ 32 \<Longrightarrow> dec hb = Inr h \<Longrightarrow>
   try_decode dec (frame m hb b) =
     Inr (Some \<lparr>sm_emsg = m AND EMSG_MASK, sm_header = h, sm_body = b\<rparr>)"
  by (simp add: try_decode_via cm_frame.decode_via_frm)

lemma try_decode_Codec: "try_decode dec bs = Inl e \<Longrightarrow> \<exists>t. e = Codec t"
  unfolding try_decode_via by (rule cm_frame.decode_via_Codec)

section \<open>Properties\<close>

text \<open>C21: Encoding a message and decoding the frame returns it: the same header, the body's bytes,
  and the message type with any stray high bit masked off, for every header that prost reads back
  and whose encoding fits the 32-bit length word.\<close>

theorem decode_encode:
  assumes "dec_h (enc_h header) = Inr header" and "length (enc_h header) < 2 ^ 32"
  shows "decode dec_h (encode enc_h enc_b emsg header body) =
    Inr \<lparr>sm_emsg = emsg AND EMSG_MASK, sm_header = header, sm_body = enc_b body\<rparr>"
  using assms by (simp add: decode_def encode_frame try_decode_frame)

definition sample_header :: cmsg_proto_buf_header where
  "sample_header = default_header\<lparr>hdr_steamid := Some 76561198000000000\<rparr>"

definition sample_enc :: "cmsg_proto_buf_header \<Rightarrow> bytes" where
  "sample_enc h = (case hdr_steamid h of None \<Rightarrow> [] | Some s \<Rightarrow>
     u32_to_le (ucast s) @ u32_to_le (ucast (drop_bit 32 s)))"

definition sample_dec :: "bytes \<Rightarrow> string + cmsg_proto_buf_header" where
  "sample_dec bs =
     (if bs = [] then Inr default_header
      else if length bs \<noteq> 8 then Inl ''invalid wire type''
      else Inr (default_header\<lparr>hdr_steamid :=
        Some (ucast (u32_from_le (take 4 bs)) OR push_bit 32 (ucast (u32_from_le (drop 4 bs))))\<rparr>))"

theorem decode_encode_witness:
  "decode sample_dec (encode sample_enc id (5514 OR PROTO_MASK) sample_header [1, 2]) =
     Inr \<lparr>sm_emsg = (5514 OR PROTO_MASK) AND EMSG_MASK, sm_header = sample_header, sm_body = [1, 2]\<rparr>"
proof -
  have "sample_dec (sample_enc sample_header) = Inr sample_header"
    by (simp add: sample_dec_def sample_enc_def sample_header_def default_header_def u32_to_le_def)
  moreover have "length (sample_enc sample_header) < 2 ^ 32"
    by (simp add: sample_enc_def sample_header_def)
  ultimately show ?thesis
    using decode_encode [where enc_b = id and body = "[1, 2]"] by simp
qed

end
