(* ===== verification/Rust_Str.thy ===== *)
theory Rust_Str
  imports Prelude
begin

text \<open>
  The operations of Rust's \<^verbatim>\<open>str\<close> and \<^verbatim>\<open>String\<close> that the crate calls, on strings as lists of UTF-8
  bytes: splitting, prefixes, searching, trimming of Unicode white space, and the replacement of
  malformed UTF-8 by \<^verbatim>\<open>String::from_utf8_lossy\<close>.
\<close>

section \<open>Bytes and strings\<close>

definition as_bytes :: "string \<Rightarrow> bytes" where
  "as_bytes s = map of_char s"

definition bytes_str :: "bytes \<Rightarrow> string" where
  "bytes_str bs = map (\<lambda>b. char_of (unat b)) bs"

section \<open>Splitting and searching\<close>

fun split_once_char :: "char \<Rightarrow> string \<Rightarrow> (string \<times> string) option" where
  "split_once_char c [] = None"
| "split_once_char c (x # xs) =
     (if x = c then Some ([], xs) else map_option (\<lambda>(a, b). (x # a, b)) (split_once_char c xs))"

definition rsplit_once_char :: "char \<Rightarrow> string \<Rightarrow> (string \<times> string) option" where
  "rsplit_once_char c s = map_option (\<lambda>(a, b). (rev b, rev a)) (split_once_char c (rev s))"

definition starts_with :: "string \<Rightarrow> string \<Rightarrow> bool" where
  "starts_with p s \<longleftrightarrow> take (length p) s = p"

definition strip_prefix :: "string \<Rightarrow> string \<Rightarrow> string option" where
  "strip_prefix p s = (if starts_with p s then Some (drop (length p) s) else None)"

definition strip_suffix :: "string \<Rightarrow> string \<Rightarrow> string option" where
  "strip_suffix p s = map_option rev (strip_prefix (rev p) (rev s))"

fun find_str :: "string \<Rightarrow> string \<Rightarrow> nat option" where
  "find_str p [] = (if p = [] then Some 0 else None)"
| "find_str p (x # xs) =
     (if starts_with p (x # xs) then Some 0 else map_option Suc (find_str p xs))"

definition split_once_str :: "string \<Rightarrow> string \<Rightarrow> (string \<times> string) option" where
  "split_once_str p s = map_option (\<lambda>i. (take i s, drop (i + length p) s)) (find_str p s)"

fun split_on :: "(char \<Rightarrow> bool) \<Rightarrow> string \<Rightarrow> string list" where
  "split_on p [] = [[]]"
| "split_on p (x # xs) =
     (if p x then [] # split_on p xs
      else case split_on p xs of [] \<Rightarrow> [[x]] | y # ys \<Rightarrow> (x # y) # ys)"

section \<open>White space\<close>

text \<open>The byte length of the white-space character a string starts with, 0 when it starts with
  none.  \<^verbatim>\<open>char::is_whitespace\<close> is Unicode \<^verbatim>\<open>White_Space\<close>: six ASCII characters, two characters of
  two bytes and the general-punctuation and ideographic spaces of three.\<close>

definition ws3 :: "byte \<Rightarrow> byte \<Rightarrow> byte \<Rightarrow> bool" where
  "ws3 a b c \<longleftrightarrow>
     (a = 0xE1 \<and> b = 0x9A \<and> c = 0x80) \<or>
     (a = 0xE2 \<and> b = 0x80 \<and> (0x80 \<le> c \<and> c \<le> 0x8A \<or> c = 0xA8 \<or> c = 0xA9 \<or> c = 0xAF)) \<or>
     (a = 0xE2 \<and> b = 0x81 \<and> c = 0x9F) \<or>
     (a = 0xE3 \<and> b = 0x80 \<and> c = 0x80)"

definition ws2 :: "byte \<Rightarrow> byte \<Rightarrow> bool" where
  "ws2 a b \<longleftrightarrow> a = 0xC2 \<and> (b = 0x85 \<or> b = 0xA0)"

definition ws1 :: "byte \<Rightarrow> bool" where
  "ws1 a \<longleftrightarrow> 9 \<le> a \<and> a \<le> 13 \<or> a = 32"

definition ws_len :: "bytes \<Rightarrow> nat" where
  "ws_len bs = (case bs of
      [] \<Rightarrow> 0
    | a # r1 \<Rightarrow> if ws1 a then 1 else (case r1 of
        [] \<Rightarrow> 0
      | b # r2 \<Rightarrow> if ws2 a b then 2 else (case r2 of
          [] \<Rightarrow> 0
        | c # r3 \<Rightarrow> if ws3 a b c then 3 else 0)))"

definition ws_rlen :: "bytes \<Rightarrow> nat" where
  "ws_rlen rs = (case rs of
      [] \<Rightarrow> 0
    | c # r1 \<Rightarrow> if ws1 c then 1 else (case r1 of
        [] \<Rightarrow> 0
      | b # r2 \<Rightarrow> if ws2 b c then 2 else (case r2 of
          [] \<Rightarrow> 0
        | a # r3 \<Rightarrow> if ws3 a b c then 3 else 0)))"

function skip_ws :: "(bytes \<Rightarrow> nat) \<Rightarrow> string \<Rightarrow> string" where
  "skip_ws wl s =
     (let n = wl (as_bytes s) in if n = 0 \<or> s = [] then s else skip_ws wl (drop n s))"
  by pat_completeness auto
termination by (relation "measure (\<lambda>(wl, s). length s)") auto

declare skip_ws.simps [simp del]

definition trim_start :: "string \<Rightarrow> string" where
  "trim_start s = skip_ws ws_len s"

definition trim_end :: "string \<Rightarrow> string" where
  "trim_end s = rev (skip_ws ws_rlen (rev s))"

definition trim :: "string \<Rightarrow> string" where
  "trim s = trim_end (trim_start s)"

function words_from :: "string \<Rightarrow> string \<Rightarrow> string list" where
  "words_from cur s =
     (if s = [] then (if cur = [] then [] else [cur])
      else let n = ws_len (as_bytes s) in
           if n = 0 then words_from (cur @ [hd s]) (tl s)
           else (if cur = [] then [] else [cur]) @ words_from [] (drop n s))"
  by pat_completeness auto
termination by (relation "measure (\<lambda>(cur, s). length s)") auto

declare words_from.simps [simp del]

definition split_whitespace :: "string \<Rightarrow> string list" where
  "split_whitespace s = words_from [] s"

section \<open>UTF-8\<close>

definition is_cont :: "byte \<Rightarrow> bool" where
  "is_cont b \<longleftrightarrow> b AND 192 = 128"

definition safe_get :: "bytes \<Rightarrow> nat \<Rightarrow> byte" where
  "safe_get bs i = (if i < length bs then bs ! i else 0)"

definition second3 :: "byte \<Rightarrow> byte \<Rightarrow> bool" where
  "second3 b c \<longleftrightarrow>
     (b = 0xE0 \<and> 0xA0 \<le> c \<and> c \<le> 0xBF) \<or> (0xE1 \<le> b \<and> b \<le> 0xEC \<and> 0x80 \<le> c \<and> c \<le> 0xBF) \<or>
     (b = 0xED \<and> 0x80 \<le> c \<and> c \<le> 0x9F) \<or> (0xEE \<le> b \<and> b \<le> 0xEF \<and> 0x80 \<le> c \<and> c \<le> 0xBF)"

definition second4 :: "byte \<Rightarrow> byte \<Rightarrow> bool" where
  "second4 b c \<longleftrightarrow>
     (b = 0xF0 \<and> 0x90 \<le> c \<and> c \<le> 0xBF) \<or> (0xF1 \<le> b \<and> b \<le> 0xF3 \<and> 0x80 \<le> c \<and> c \<le> 0xBF) \<or>
     (b = 0xF4 \<and> 0x80 \<le> c \<and> c \<le> 0x8F)"

text \<open>One step of the validator: whether the bytes start with a well-formed sequence, and the
  length of that sequence or of the ill-formed prefix that one replacement character stands for.\<close>

definition utf8_step :: "bytes \<Rightarrow> bool \<times> nat" where
  "utf8_step bs =
     (let b = safe_get bs 0 in
      if b < 0x80 then (True, 1)
      else if 0xC2 \<le> b \<and> b \<le> 0xDF then
        (if is_cont (safe_get bs 1) then (True, 2) else (False, 1))
      else if 0xE0 \<le> b \<and> b \<le> 0xEF then
        (if \<not> second3 b (safe_get bs 1) then (False, 1)
         else if \<not> is_cont (safe_get bs 2) then (False, 2) else (True, 3))
      else if 0xF0 \<le> b \<and> b \<le> 0xF4 then
        (if \<not> second4 b (safe_get bs 1) then (False, 1)
         else if \<not> is_cont (safe_get bs 2) then (False, 2)
         else if \<not> is_cont (safe_get bs 3) then (False, 3) else (True, 4))
      else (False, 1))"

lemma utf8_step_pos: "0 < snd (utf8_step bs)"
  by (simp add: utf8_step_def Let_def)

function from_utf8_lossy :: "bytes \<Rightarrow> bytes" where
  "from_utf8_lossy bs =
     (if bs = [] then []
      else let (ok, n) = utf8_step bs in
           (if ok then take n bs else [0xEF, 0xBF, 0xBD]) @ from_utf8_lossy (drop n bs))"
  by pat_completeness auto
termination
proof (relation "measure length")
  fix bs :: bytes and x ok n
  assume "bs \<noteq> []" "x = utf8_step bs" "(ok, n) = x"
  moreover from this have "0 < n" using utf8_step_pos [of bs] by (metis snd_conv)
  ultimately show "(drop n bs, bs) \<in> measure length" by auto
qed simp

declare from_utf8_lossy.simps [simp del]

function valid_utf8 :: "bytes \<Rightarrow> bool" where
  "valid_utf8 bs =
     (if bs = [] then True
      else let (ok, n) = utf8_step bs in if ok then valid_utf8 (drop n bs) else False)"
  by pat_completeness auto
termination
proof (relation "measure length")
  fix bs :: bytes and x ok n
  assume "bs \<noteq> []" "x = utf8_step bs" "(ok, n) = x"
  moreover from this have "0 < n" using utf8_step_pos [of bs] by (metis snd_conv)
  ultimately show "(drop n bs, bs) \<in> measure length" by auto
qed simp

declare valid_utf8.simps [simp del]

section \<open>Lemmas\<close>

lemma length_as_bytes [simp]: "length (as_bytes s) = length s"
  by (simp add: as_bytes_def)

lemma as_bytes_Nil [simp]: "as_bytes [] = []"
  by (simp add: as_bytes_def)

lemma as_bytes_append [simp]: "as_bytes (s @ t) = as_bytes s @ as_bytes t"
  by (simp add: as_bytes_def)

lemma as_bytes_bytes_str [simp]: "as_bytes (bytes_str bs) = bs"
proof -
  have "of_char (char_of (unat b) :: char) = b" for b :: byte
  proof -
    have "of_char (char_of (unat b) :: char) = (of_nat (of_char (char_of (unat b) :: char)) :: byte)"
      by (rule of_nat_of_char [symmetric])
    also have "\<dots> = b"
      using unsigned_less [of b, where ?'a = nat] by (simp add: of_char_of)
    finally show ?thesis .
  qed
  then show ?thesis by (simp add: as_bytes_def bytes_str_def comp_def)
qed

lemma bytes_str_as_bytes [simp]: "bytes_str (as_bytes s) = s"
proof -
  have "char_of (unat (of_char c :: byte)) = c" for c
  proof -
    have "(of_char c :: byte) = of_nat (of_char c)" by (rule of_nat_of_char [symmetric])
    then have "unat (of_char c :: byte) = of_char c"
      using of_char_mod_256 [of c, where ?'a = nat] by (simp add: unsigned_of_nat take_bit_eq_mod)
    then show ?thesis by simp
  qed
  then show ?thesis by (simp add: as_bytes_def bytes_str_def comp_def)
qed

lemma split_once_char_Some:
  "split_once_char c s = Some (a, b) \<Longrightarrow> s = a @ c # b \<and> c \<notin> set a"
  by (induction s arbitrary: a) (auto split: if_splits)

lemma split_once_char_None: "split_once_char c s = None \<longleftrightarrow> c \<notin> set s"
  by (induction s) auto

lemma split_once_char_append: "c \<notin> set a \<Longrightarrow> split_once_char c (a @ c # b) = Some (a, b)"
  by (induction a) auto

lemma rsplit_once_char_Some:
  assumes "rsplit_once_char c s = Some (a, b)" shows "s = a @ c # b \<and> c \<notin> set b"
proof -
  from assms obtain x y where xy: "split_once_char c (rev s) = Some (x, y)" "a = rev y" "b = rev x"
    by (auto simp: rsplit_once_char_def)
  from split_once_char_Some [OF xy(1)] have "rev s = x @ c # y" "c \<notin> set x" by auto
  then have "s = rev (x @ c # y)" by (metis rev_rev_ident)
  then show ?thesis using xy \<open>c \<notin> set x\<close> by simp
qed

lemma rsplit_once_char_None: "rsplit_once_char c s = None \<longleftrightarrow> c \<notin> set s"
  by (simp add: rsplit_once_char_def split_once_char_None)

lemma rsplit_once_char_append: "c \<notin> set b \<Longrightarrow> rsplit_once_char c (a @ c # b) = Some (a, b)"
  by (simp add: rsplit_once_char_def split_once_char_append)

lemma split_on_not_Nil [simp]: "split_on p s \<noteq> []"
  by (induction s) (auto split: list.splits)

lemma split_on_none: "(\<forall>x \<in> set s. \<not> p x) \<Longrightarrow> split_on p s = [s]"
  by (induction s) auto

lemma split_on_append:
  "(\<forall>x \<in> set s. \<not> p x) \<Longrightarrow> p c \<Longrightarrow> split_on p (s @ c # t) = s # split_on p t"
  by (induction s) auto

lemma hd_split_on: "hd (split_on p s) = takeWhile (\<lambda>x. \<not> p x) s"
  by (induction s) (auto split: list.splits)

lemma valid_utf8_lossy: "valid_utf8 bs \<Longrightarrow> from_utf8_lossy bs = bs"
proof (induction bs rule: valid_utf8.induct)
  case (1 bs)
  show ?case
  proof (cases "bs = []")
    case True
    then show ?thesis by (simp add: from_utf8_lossy.simps [of "[]"])
  next
    case False
    obtain ok n where s: "utf8_step bs = (ok, n)" by fastforce
    with False "1.prems" have "ok" "valid_utf8 (drop n bs)"
      by (simp_all add: valid_utf8.simps [of bs] split: if_splits)
    with False s "1.IH" have "from_utf8_lossy (drop n bs) = drop n bs" by simp
    with False s \<open>ok\<close> show ?thesis by (simp add: from_utf8_lossy.simps [of bs])
  qed
qed

lemma ascii_valid_utf8: "(\<forall>b \<in> set bs. b < 0x80) \<Longrightarrow> valid_utf8 bs"
proof (induction bs)
  case Nil
  then show ?case by (simp add: valid_utf8.simps [of "[]"])
next
  case (Cons b bs)
  then have "utf8_step (b # bs) = (True, 1)"
    by (simp add: utf8_step_def safe_get_def)
  with Cons show ?case by (simp add: valid_utf8.simps [of "b # bs"])
qed
section \<open>Searching and trimming\<close>

lemma find_str_Some_iff:
  "find_str p s = Some i \<longleftrightarrow>
     i \<le> length s \<and> starts_with p (drop i s) \<and> (\<forall>j < i. \<not> starts_with p (drop j s))"
proof (induction s arbitrary: i)
  case Nil
  show ?case by (auto simp: starts_with_def)
next
  case (Cons x xs)
  show ?case
  proof (cases i)
    case 0
    then show ?thesis by auto
  next
    case (Suc k)
    have "(\<forall>j < Suc k. \<not> starts_with p (drop j (x # xs))) \<longleftrightarrow>
        \<not> starts_with p (x # xs) \<and> (\<forall>j < k. \<not> starts_with p (drop j xs))"
      using all_less_Suc_shift [of k "\<lambda>j. \<not> starts_with p (drop j (x # xs))"] by simp
    then show ?thesis using Suc Cons.IH [of k] by auto
  qed
qed

lemma starts_with_append [simp]: "starts_with p (p @ s)"
  by (simp add: starts_with_def)

lemma find_str_fresh:
  assumes "c # p' = p" "c \<notin> set s"
  shows "find_str p (s @ p @ t) = Some (length s)"
  unfolding find_str_Some_iff
proof (intro conjI allI impI)
  fix j assume j: "j < length s"
  then have "drop j (s @ p @ t) = s ! j # drop (Suc j) s @ p @ t" by (simp add: Cons_nth_drop_Suc)
  moreover from j assms have "s ! j \<noteq> c" by (auto simp: in_set_conv_nth)
  ultimately show "\<not> starts_with p (drop j (s @ p @ t))"
    using assms(1) by (auto simp: starts_with_def)
qed simp_all

lemma skip_ws_stop: "wl (as_bytes s) = 0 \<Longrightarrow> skip_ws wl s = s"
  by (subst skip_ws.simps) simp

lemma trim_solid:
  assumes "\<forall>c \<in> set s. 32 < (of_char c :: byte) \<and> (of_char c :: byte) < 0x80"
  shows "trim s = s"
proof -
  have solid: "\<forall>b \<in> set (as_bytes s). 32 < b \<and> b < 0x80" using assms by (auto simp: as_bytes_def)
  have low: "\<not> ws1 b" "\<not> ws2 b c" "\<not> ws3 b c d" if "32 < b" "b < 0x80" for b c d
    using that by (auto simp: ws1_def ws2_def ws3_def dest: less_le_trans)
  have "ws_len bs = 0" "ws_rlen bs = 0" if "\<forall>b \<in> set bs. 32 < b \<and> b < 0x80" for bs
    using that low by (auto simp: ws_len_def ws_rlen_def split: list.split)
  then have "ws_len (as_bytes s) = 0" "ws_rlen (as_bytes (rev s)) = 0"
    using solid by (simp_all add: as_bytes_def rev_map [symmetric])
  then show ?thesis by (simp add: trim_def trim_start_def trim_end_def skip_ws_stop)
qed

lemma show_nat_digits: "c \<in> set (show_nat n) \<Longrightarrow> \<exists>d < 10. c = digit_char d"
proof (induction n rule: show_nat.induct)
  case (1 n)
  then show ?case
    by (subst (asm) (2) show_nat.simps) (auto split: if_splits intro: exI [of _ "n mod 10"])
qed

lemma digit_solid:
  assumes "d < 10"
  shows "32 < (of_char (digit_char d) :: byte) \<and> (of_char (digit_char d) :: byte) < 0x80 \<and>
    digit_char d \<noteq> CHR ''<''"
proof -
  have "d \<in> set [0, 1, 2, 3, 4, 5, 6, 7, 8, 9]" using assms by auto
  moreover have "\<forall>d \<in> set [0, 1, 2, 3, 4, 5, 6, 7, 8, 9]. 32 < (of_char (digit_char d) :: byte) \<and>
      (of_char (digit_char d) :: byte) < 0x80 \<and> digit_char d \<noteq> CHR ''<''"
    by simp
  ultimately show ?thesis by blast
qed

lemma trim_show_nat [simp]: "trim (show_nat n) = show_nat n"
  by (rule trim_solid) (metis show_nat_digits digit_solid)

lemma find_str_append:
  assumes "find_str p u = Some i" "i + length p \<le> length u"
  shows "find_str p (u @ v) = Some i"
proof -
  have "starts_with p (drop j (u @ v)) \<longleftrightarrow> starts_with p (drop j u)" if "j \<le> i" for j
    using that assms(2) by (simp add: starts_with_def)
  with assms show ?thesis unfolding find_str_Some_iff by simp
qed
lemma not_continued [simp]: "\<not> is_cont 0" "\<not> second3 b 0" "\<not> second4 b 0"
  by (simp_all add: is_cont_def second3_def second4_def)

lemma safe_get_inside:
  "is_cont (safe_get bs i) \<Longrightarrow> i < length bs" "second3 b (safe_get bs i) \<Longrightarrow> i < length bs"
  "second4 b (safe_get bs i) \<Longrightarrow> i < length bs"
  by (auto simp: safe_get_def split: if_splits)

lemma utf8_step_length: "utf8_step bs = (True, n) \<Longrightarrow> bs \<noteq> [] \<Longrightarrow> n \<le> length bs"
  by (auto simp: utf8_step_def Let_def Suc_le_eq split: if_splits dest!: safe_get_inside)

lemma utf8_step_local:
  assumes "utf8_step bs = (True, n)" "\<And>i. i < n \<Longrightarrow> safe_get cs i = safe_get bs i"
  shows "utf8_step cs = (True, n)"
proof -
  have "safe_get cs 0 = safe_get bs 0" using assms utf8_step_pos [of bs] by simp
  then show ?thesis using assms by (auto simp: utf8_step_def Let_def split: if_splits)
qed

lemma lossy_valid_utf8: "valid_utf8 (from_utf8_lossy bs)"
proof (induction bs rule: from_utf8_lossy.induct)
  case (1 bs)
  show ?case
  proof (cases "bs = []")
    case True
    then show ?thesis by (simp add: from_utf8_lossy.simps [of "[]"] valid_utf8.simps [of "[]"])
  next
    case False
    obtain ok n where s: "utf8_step bs = (ok, n)" by fastforce
    let ?rest = "from_utf8_lossy (drop n bs)"
    have rest: "valid_utf8 ?rest" using "1.IH" [OF False refl] s by simp
    have step: "utf8_step (c @ ?rest) = (True, length c) \<Longrightarrow> c \<noteq> [] \<Longrightarrow> valid_utf8 (c @ ?rest)" for c
      using rest by (simp add: valid_utf8.simps [of "c @ ?rest"])
    have "utf8_step ([0xEF, 0xBF, 0xBD] @ ?rest) = (True, 3)"
      by (simp add: utf8_step_def second3_def is_cont_def safe_get_def)
    moreover have "ok \<Longrightarrow> utf8_step (take n bs @ ?rest) = (True, length (take n bs))"
      using utf8_step_length [of bs n] utf8_step_local [of bs n "take n bs @ ?rest"] s False
      by (simp add: safe_get_def nth_append)
    moreover have "n \<noteq> 0" using utf8_step_pos [of bs] s by simp
    ultimately show ?thesis
      using False s step [of "[0xEF, 0xBF, 0xBD]"] step [of "take n bs"] by (simp add: from_utf8_lossy.simps [of bs])
  qed
qed
end
