(* ===== verification/Transport.thy ===== *)
theory Transport
  imports Rust_Str Steam_Error
begin

text \<open>
  The shared parts of \<^verbatim>\<open>src/transport/mod.rs\<close>: the byte stream every connection is carried on, the
  \<^verbatim>\<open>host:port\<close> helpers, the TLS configuration, and line reading as \<^verbatim>\<open>tokio::io::BufReader::read_line\<close>
  does it.

  A stream is what has been written to it and what will be read from it: the bytes that arrive
  before the caller's deadline and how the stream continues after them.
\<close>

datatype stream_tail =
    TailEof
  | TailError string
  | TailStall

record byte_stream =
  bs_sent :: bytes
  bs_incoming :: bytes
  bs_tail :: stream_tail

text \<open>\<^verbatim>\<open>tokio::time::timeout(..).map_err(|_| Error::Timeout(what))\<close>: a future that is still pending
  at the deadline is an error.\<close>

definition timeout :: "string \<Rightarrow> 'a poll \<Rightarrow> 'a result" where
  "timeout what p = (case p of Pending \<Rightarrow> Inl (Timeout what) | Ready x \<Rightarrow> Inr x)"

text \<open>\<^verbatim>\<open>read_line\<close> appends the bytes up to and including the next line feed, or up to the end of the
  stream, and fails when they are not UTF-8.\<close>

definition take_line :: "bytes \<Rightarrow> bytes \<times> bytes" where
  "take_line bs =
     (takeWhile (\<lambda>b. b \<noteq> 10) bs @ take 1 (dropWhile (\<lambda>b. b \<noteq> 10) bs),
      drop 1 (dropWhile (\<lambda>b. b \<noteq> 10) bs))"

definition read_line :: "byte_stream \<Rightarrow> (string + bytes) poll \<times> byte_stream" where
  "read_line s =
     (let (line, rest) = take_line (bs_incoming s);
          done = (if valid_utf8 line then Ready (Inr line)
                  else Ready (Inl ''stream did not contain valid UTF-8''))
      in if 10 \<in> set line then (done, s\<lparr>bs_incoming := rest\<rparr>)
         else case bs_tail s of
             TailEof \<Rightarrow> (done, s\<lparr>bs_incoming := []\<rparr>)
           | TailError e \<Rightarrow> (Ready (Inl e), s\<lparr>bs_incoming := []\<rparr>)
           | TailStall \<Rightarrow> (Pending, s\<lparr>bs_incoming := []\<rparr>))"

definition unbracket :: "string \<Rightarrow> string" where
  "unbracket host =
     unwrap_or host (Option.bind (strip_prefix ''['' host) (strip_suffix '']''))"

definition authority :: "string \<Rightarrow> u16 \<Rightarrow> string" where
  "authority host port =
     (if CHR '':'' \<in> set host then ''['' @ host @ '']:'' @ show_word port
      else host @ '':'' @ show_word port)"

section \<open>TLS\<close>

text \<open>What \<^verbatim>\<open>rustls\<close> is configured with: the root certificates that are trusted, and the certificate the
  client presents, if any.\<close>

record tls_config =
  tc_roots :: "bytes list"
  tc_client_auth :: "bytes option"

definition tls_connector :: "bytes list \<Rightarrow> tls_config" where
  "tls_connector webpki_roots = \<lparr>tc_roots = webpki_roots, tc_client_auth = None\<rparr>"

section \<open>Lemmas\<close>

lemma timeout_simps [simp]:
  "timeout what Pending = Inl (Timeout what)"
  "timeout what (Ready x) = Inr x"
  by (simp_all add: timeout_def)

lemma take_line_append:
  "10 \<notin> set l \<Longrightarrow> take_line (l @ 10 # rest) = (l @ [10], rest)"
  by (induction l) (auto simp: take_line_def)

lemma take_line_join: "fst (take_line bs) @ snd (take_line bs) = bs"
  by (simp add: take_line_def)

lemma read_line_complete:
  assumes "10 \<notin> set l" "valid_utf8 (l @ [10])" "bs_incoming s = l @ 10 # rest"
  shows "read_line s = (Ready (Inr (l @ [10])), s\<lparr>bs_incoming := rest\<rparr>)"
  using assms by (simp add: read_line_def take_line_append)

lemma read_line_suffix:
  assumes "read_line s = (r, t)"
  shows "\<exists>pre. bs_incoming s = pre @ bs_incoming t" "bs_sent t = bs_sent s" "bs_tail t = bs_tail s"
proof -
  have "fst (take_line (bs_incoming s)) @ snd (take_line (bs_incoming s)) = bs_incoming s"
    by (rule take_line_join)
  then show "\<exists>pre. bs_incoming s = pre @ bs_incoming t"
    using assms
    by (auto simp: read_line_def Let_def split: prod.splits if_splits stream_tail.splits) metis+
  show "bs_sent t = bs_sent s" "bs_tail t = bs_tail s"
    using assms by (auto simp: read_line_def Let_def split: prod.splits if_splits stream_tail.splits)
qed

lemma unbracket_brackets [simp]: "unbracket (''['' @ h @ '']'') = h"
  by (simp add: unbracket_def strip_prefix_def strip_suffix_def starts_with_def)

lemma unbracket_bare: "h = [] \<or> hd h \<noteq> CHR ''['' \<Longrightarrow> unbracket h = h"
  by (cases h) (auto simp: unbracket_def strip_prefix_def starts_with_def)

lemma digit_char_plain:
  "d < 10 \<Longrightarrow> digit_char d \<notin> {CHR '':'', CHR '']'', CHR ''@'', CHR ''/'', CHR ''?'', CHR ''#''}"
  by (auto simp: digit_char_def dest!: arg_cong [where f = "of_char :: char \<Rightarrow> nat"])

lemma show_word_plain:
  "c \<in> {CHR '':'', CHR '']'', CHR ''@'', CHR ''/'', CHR ''?'', CHR ''#''} \<Longrightarrow> c \<notin> set (show_word w)"
  using show_nat_digits digit_char_plain unfolding show_word_def by metis

lemma authority_split:
  assumes "host = [] \<or> hd host \<noteq> CHR ''[''"
  shows "map_option (\<lambda>(h, p). (unbracket h, p)) (rsplit_once_char CHR '':'' (authority host port)) =
           Some (host, show_word port)"
proof -
  have p: "CHR '':'' \<notin> set (show_word port)" by (rule show_word_plain) simp
  have "rsplit_once_char CHR '':'' ((''['' @ host @ '']'') @ CHR '':'' # show_word port) =
          Some (''['' @ host @ '']'', show_word port)"
    "rsplit_once_char CHR '':'' (host @ CHR '':'' # show_word port) = Some (host, show_word port)"
    using p by (rule rsplit_once_char_append)+
  then show ?thesis
    using assms unbracket_brackets [of host] unbracket_bare [of host] by (simp add: authority_def)
qed

text \<open>\<^verbatim>\<open>authority\<close> loses nothing.  Splitting what it prints at the last colon gives back the port
  and the host, once the brackets of an IPv6 literal are taken off by \<^verbatim>\<open>unbracket\<close>: for every host
  that does not itself start with a bracket, \<^verbatim>\<open>unbracket\<close> undoes the bracketing.\<close>

theorem authority_roundtrip:
  assumes "host = [] \<or> hd host \<noteq> CHR ''[''"
  shows "map_option (\<lambda>(h, p). (unbracket h, p)) (rsplit_once_char CHR '':'' (authority host port)) =
           Some (host, show_word port)"
  using assms by (rule authority_split)

theorem authority_roundtrip_witness:
  "map_option (\<lambda>(h, p). (unbracket h, p)) (rsplit_once_char CHR '':'' (authority ''::1'' 1080)) =
     Some (''::1'', show_word (1080 :: u16)) \<and> authority ''::1'' 1080 = ''[::1]:1080''"
proof -
  have "authority ''::1'' 1080 = ''[::1]:1080''" by code_simp
  then show ?thesis using authority_roundtrip [of "''::1''" 1080] by simp
qed

end
