(* ===== verification/Proxy.thy ===== *)
theory Proxy
  imports Transport
begin

text \<open>
  Proxy configuration and the two proxy handshakes of \<^verbatim>\<open>src/transport/proxy.rs\<close>.

  The \<^verbatim>\<open>url\<close> crate is the argument \<open>url_parse\<close>, whose result is the record of the accessors the
  code calls on a parsed URL.  Sockets, TLS, \<^verbatim>\<open>tokio-socks\<close> and \<^verbatim>\<open>base64\<close> are the fields of the record
  \<open>net\<close>; each answers within its time limit (\<^const>\<open>Ready\<close>) or not (\<^const>\<open>Pending\<close>).
\<close>

definition MAX_CONNECT_HEADERS :: nat where
  "MAX_CONNECT_HEADERS = 64"

datatype proxy_kind = PkSocks5 | PkHttpConnect

record proxy_credentials =
  pc_username :: string
  pc_password :: string

record proxy_config =
  px_kind :: proxy_kind
  px_host :: string
  px_port :: u16
  px_credentials :: "proxy_credentials option"
  px_tls_to_proxy :: bool

record url =
  url_scheme :: string
  url_host_str :: "string option"
  url_port :: "u16 option"
  url_port_or_known_default :: "u16 option"
  url_username :: string
  url_password :: "string option"

record net =
  net_socks5 :: "string \<Rightarrow> u16 \<Rightarrow> string \<Rightarrow> (string \<times> string) option \<Rightarrow> (string + byte_stream) poll"
  net_tcp :: "string \<Rightarrow> (string + byte_stream) poll"
  net_server_name :: "string \<Rightarrow> string + string"
  net_webpki_roots :: "bytes list"
  net_tls :: "tls_config \<Rightarrow> string \<Rightarrow> byte_stream \<Rightarrow> (string + byte_stream) poll"
  net_write :: "byte_stream \<Rightarrow> bytes \<Rightarrow> (string + unit) poll"
  net_base64 :: "string \<Rightarrow> string"

section \<open>Percent decoding\<close>

definition hex_nibble :: "byte \<Rightarrow> byte option" where
  "hex_nibble b =
     (if 48 \<le> b \<and> b \<le> 57 then Some (b - 48)
      else if 97 \<le> b \<and> b \<le> 102 then Some (b - 97 + 10)
      else if 65 \<le> b \<and> b \<le> 70 then Some (b - 65 + 10)
      else None)"

fun percent_bytes :: "bytes \<Rightarrow> bytes" where
  "percent_bytes [] = []"
| "percent_bytes (b # rest) =
     (case rest of
        h # l # after \<Rightarrow>
          if b = 37 then
            (case (hex_nibble h, hex_nibble l) of
               (Some hv, Some lv) \<Rightarrow> (push_bit 4 hv OR lv) # percent_bytes after
             | _ \<Rightarrow> b # percent_bytes rest)
          else b # percent_bytes rest
      | _ \<Rightarrow> b # percent_bytes rest)"

definition percent_decode :: "string \<Rightarrow> string" where
  "percent_decode input = bytes_str (from_utf8_lossy (percent_bytes (as_bytes input)))"

section \<open>Parsing\<close>

definition is_ascii_digit :: "char \<Rightarrow> bool" where
  "is_ascii_digit c \<longleftrightarrow> digit_val c \<noteq> None"

definition after_last :: "char \<Rightarrow> string \<Rightarrow> string" where
  "after_last c s = (case rsplit_once_char c s of None \<Rightarrow> s | Some (_, t) \<Rightarrow> t)"

definition has_explicit_port :: "string \<Rightarrow> bool" where
  "has_explicit_port raw =
     (case split_once_str ''://'' raw of
        None \<Rightarrow> False
      | Some (_, rest) \<Rightarrow>
          let auth = hd (split_on (\<lambda>c. c \<in> {CHR ''/'', CHR ''?'', CHR ''#''}) rest);
              host_port = after_last CHR ''@'' auth;
              tail = after_last CHR '']'' host_port
          in case split_once_char CHR '':'' tail of
               None \<Rightarrow> False
             | Some (_, port) \<Rightarrow> port \<noteq> [] \<and> list_all is_ascii_digit port)"

definition resolve_port :: "url \<Rightarrow> string \<Rightarrow> u16 result" where
  "resolve_port u raw =
     (case url_port u of
        Some port \<Rightarrow> Inr port
      | None \<Rightarrow>
          ok_or (InvalidUrl ''proxy URL missing port'')
            (if has_explicit_port raw then url_port_or_known_default u
             else if url_scheme u = ''socks5'' \<or> url_scheme u = ''socks5h'' then Some 1080
             else if url_scheme u = ''http'' then Some 8080
             else if url_scheme u = ''https'' then Some 443
             else None))"

definition proxy_kind_of :: "string \<Rightarrow> proxy_kind result" where
  "proxy_kind_of scheme =
     (if scheme = ''socks5'' \<or> scheme = ''socks5h'' then Inr PkSocks5
      else if scheme = ''http'' \<or> scheme = ''https'' then Inr PkHttpConnect
      else Inl (InvalidConfig (''unsupported proxy scheme: '' @ scheme)))"

definition parse :: "(string \<Rightarrow> string + url) \<Rightarrow> string \<Rightarrow> proxy_config result" where
  "parse url_parse url_str =
     and_then (map_err UrlParse (url_parse url_str)) (\<lambda>u.
     and_then (proxy_kind_of (url_scheme u)) (\<lambda>kind.
     and_then (ok_or (InvalidUrl ''proxy URL missing host'') (url_host_str u)) (\<lambda>h.
     and_then (resolve_port u url_str) (\<lambda>port.
       let username = percent_decode (url_username u);
           password = percent_decode (unwrap_or [] (url_password u))
       in Inr \<lparr>px_kind = kind, px_host = unbracket h, px_port = port,
               px_credentials =
                 (if username = [] \<and> password = [] then None
                  else Some \<lparr>pc_username = username, pc_password = password\<rparr>),
               px_tls_to_proxy = (url_scheme u = ''https'')\<rparr>))))"

definition scheme_label :: "proxy_config \<Rightarrow> string" where
  "scheme_label p =
     (case px_kind p of
        PkSocks5 \<Rightarrow> ''socks5''
      | PkHttpConnect \<Rightarrow> if px_tls_to_proxy p then ''https'' else ''http'')"

definition display :: "proxy_config \<Rightarrow> string" where
  "display p = scheme_label p @ ''://'' @ authority (px_host p) (px_port p)"

section \<open>Handshakes\<close>

definition connect_socks5 :: "net \<Rightarrow> proxy_config \<Rightarrow> string \<Rightarrow> u16 \<Rightarrow> byte_stream result" where
  "connect_socks5 N p target_host target_port =
     and_then (timeout ''socks5 handshake''
       (net_socks5 N (px_host p) (px_port p) (authority target_host target_port)
          (map_option (\<lambda>c. (pc_username c, pc_password c)) (px_credentials p))))
       (map_err error_from_socks)"

definition is_ok_status :: "string \<Rightarrow> bool" where
  "is_ok_status status_line =
     (let ws = split_whitespace status_line in 1 < length ws \<and> ws ! 1 = ''200'')"

fun drain_headers :: "nat \<Rightarrow> byte_stream \<Rightarrow> byte_stream result" where
  "drain_headers 0 s = Inl (HttpConnect ''proxy sent too many CONNECT response headers'')"
| "drain_headers (Suc n) s =
     (case read_line s of (p, s') \<Rightarrow>
        and_then (timeout ''http connect read headers'' p) (\<lambda>r.
        and_then (map_err Io r) (\<lambda>line.
          if line = [] \<or> line = [13, 10] \<or> line = [10] then Inr s'
          else drain_headers n s')))"

definition crlf :: string where
  "crlf = [CHR 0x0D, CHR 0x0A]"

definition connect_request :: "net \<Rightarrow> proxy_config \<Rightarrow> string \<Rightarrow> u16 \<Rightarrow> string" where
  "connect_request N p target_host target_port =
     (let target = authority target_host target_port;
          auth = (case px_credentials p of
              None \<Rightarrow> []
            | Some c \<Rightarrow> ''Proxy-Authorization: Basic '' @
                net_base64 N (pc_username c @ '':'' @ pc_password c) @ crlf)
      in ''CONNECT '' @ target @ '' HTTP/1.1'' @ crlf @ ''Host: '' @ target @ crlf @ auth @ crlf)"

definition read_connect_reply :: "byte_stream \<Rightarrow> byte_stream result" where
  "read_connect_reply s =
     (case read_line s of (p, s') \<Rightarrow>
        and_then (timeout ''http connect read status'' p) (\<lambda>r.
        and_then (map_err Io r) (\<lambda>line.
          let status_line = trim_end (bytes_str line) in
          if \<not> is_ok_status status_line
          then Inl (HttpConnect (''proxy refused: '' @ status_line))
          else drain_headers MAX_CONNECT_HEADERS s')))"

definition proxy_leg :: "net \<Rightarrow> proxy_config \<Rightarrow> byte_stream \<Rightarrow> byte_stream result" where
  "proxy_leg N p tcp =
     (if px_tls_to_proxy p then
        and_then (map_err (\<lambda>e. Tls (''invalid proxy sni: '' @ e)) (net_server_name N (px_host p))) (\<lambda>sni.
        and_then (timeout ''proxy tls handshake''
          (net_tls N (tls_connector (net_webpki_roots N)) sni tcp)) (map_err Tls))
      else Inr tcp)"

definition connect_http :: "net \<Rightarrow> proxy_config \<Rightarrow> string \<Rightarrow> u16 \<Rightarrow> byte_stream result" where
  "connect_http N p target_host target_port =
     and_then (timeout ''http connect tcp'' (net_tcp N (authority (px_host p) (px_port p)))) (\<lambda>r.
     and_then (map_err Io r) (\<lambda>tcp.
     and_then (proxy_leg N p tcp) (\<lambda>stream.
       let request = as_bytes (connect_request N p target_host target_port) in
       and_then (timeout ''http connect write'' (net_write N stream request)) (\<lambda>w.
       and_then (map_err Io w) (\<lambda>_.
         read_connect_reply (stream\<lparr>bs_sent := bs_sent stream @ request\<rparr>))))))"

definition connect_via_proxy :: "net \<Rightarrow> proxy_config \<Rightarrow> string \<Rightarrow> u16 \<Rightarrow> byte_stream result" where
  "connect_via_proxy N p target_host target_port =
     (case px_kind p of
        PkSocks5 \<Rightarrow> connect_socks5 N p target_host target_port
      | PkHttpConnect \<Rightarrow> connect_http N p target_host target_port)"

section \<open>Lemmas\<close>

lemma find_str_skip:
  "p \<noteq> [] \<Longrightarrow> hd p \<notin> set a \<Longrightarrow> find_str p (a @ p @ b) = Some (length a)"
proof (induction a)
  case Nil
  then show ?case by (cases p) (auto simp: starts_with_def)
next
  case (Cons x a)
  then have "\<not> starts_with p ((x # a) @ p @ b)"
    by (cases p) (auto simp: starts_with_def)
  with Cons show ?case by simp
qed

lemma split_once_str_skip:
  "p \<noteq> [] \<Longrightarrow> hd p \<notin> set a \<Longrightarrow> split_once_str p (a @ p @ b) = Some (a, b)"
  by (simp add: split_once_str_def find_str_skip)

lemma show_word_digits: "show_word w \<noteq> [] \<and> list_all is_ascii_digit (show_word w)"
proof -
  have "\<forall>c \<in> set (show_nat n). is_ascii_digit c" for n
    using show_nat_digits [of _ n] digit_val_char unfolding is_ascii_digit_def by (metis option.distinct(1))
  then show ?thesis by (simp add: show_word_def list_all_iff)
qed

text \<open>A URL authority as it is written: user information up to an at sign, a bracketed literal,
  a name without colons, and the port.\<close>

definition plain_authority :: "string \<Rightarrow> string \<Rightarrow> string \<Rightarrow> bool" where
  "plain_authority ui br name \<longleftrightarrow>
     (ui = [] \<or> last ui = CHR ''@'') \<and> (br = [] \<or> last br = CHR '']'') \<and>
     CHR ''@'' \<notin> set br \<and> {CHR ''@'', CHR '']'', CHR '':''} \<inter> set name = {} \<and>
     {CHR ''/'', CHR ''?'', CHR ''#''} \<inter> set (ui @ br @ name) = {}"

lemma after_last_append:
  assumes "a = [] \<or> last a = c" "c \<notin> set b"
  shows "after_last c (a @ b) = b"
proof (cases "a = []")
  case True
  with assms have "rsplit_once_char c (a @ b) = None" by (simp add: rsplit_once_char_None)
  with True show ?thesis by (simp add: after_last_def)
next
  case False
  with assms have ab: "a @ b = butlast a @ c # b" 
    by (metis append.assoc append_Cons append_Nil append_butlast_last_id)
  show ?thesis
    unfolding after_last_def ab by (simp add: rsplit_once_char_append [OF assms(2)])
qed

lemma split_on_hd_stop:
  assumes "\<forall>x \<in> set a. \<not> p x" "b = [] \<or> p (hd b)"
  shows "hd (split_on p (a @ b)) = a"
proof -
  have "takeWhile (\<lambda>x. \<not> p x) b = []" using assms(2) by (cases b) auto
  with assms(1) show ?thesis by (simp add: hd_split_on)
qed

lemma has_explicit_port_written:
  fixes port :: u16
  assumes "CHR '':'' \<notin> set sch" "plain_authority ui br name"
    and "tail = [] \<or> hd tail \<in> {CHR ''/'', CHR ''?'', CHR ''#''}"
  shows "has_explicit_port (sch @ ''://'' @ ui @ br @ name @ '':'' @ show_word port @ tail)"
proof -
  let ?hp = "br @ name @ '':'' @ show_word port"
  let ?p = "\<lambda>c. c = CHR ''/'' \<or> c = CHR ''?'' \<or> c = CHR ''#''"
  have d: "CHR '':'' \<notin> set (show_word port)" "CHR '']'' \<notin> set (show_word port)"
    "CHR ''@'' \<notin> set (show_word port)" "CHR ''/'' \<notin> set (show_word port)"
    "CHR ''?'' \<notin> set (show_word port)" "CHR ''#'' \<notin> set (show_word port)"
    by (rule show_word_plain, simp)+
  have s: "split_once_str ''://'' (sch @ ''://'' @ (ui @ ?hp) @ tail) = Some (sch, (ui @ ?hp) @ tail)"
    using assms(1) by (intro split_once_str_skip) auto
  have h: "hd (split_on ?p ((ui @ ?hp) @ tail)) = ui @ ?hp"
    using assms(2, 3) d by (intro split_on_hd_stop) (auto simp: plain_authority_def)
  have a: "after_last CHR ''@'' (ui @ ?hp) = ?hp"
    using assms(2) d by (intro after_last_append) (auto simp: plain_authority_def)
  have b: "after_last CHR '']'' ?hp = name @ '':'' @ show_word port"
    using assms(2) d by (intro after_last_append) (auto simp: plain_authority_def)
  have c: "split_once_char CHR '':'' (name @ '':'' @ show_word port) = Some (name, show_word port)"
    using assms(2) split_once_char_append [of "CHR '':''" name] by (auto simp: plain_authority_def)
  from s h a b c show ?thesis
    by (simp add: has_explicit_port_def Let_def show_word_digits)
qed

lemma has_explicit_port_omitted:
  assumes "CHR '':'' \<notin> set sch" "plain_authority ui br name"
    and "tail = [] \<or> hd tail \<in> {CHR ''/'', CHR ''?'', CHR ''#''}"
  shows "\<not> has_explicit_port (sch @ ''://'' @ ui @ br @ name @ tail)"
proof -
  let ?p = "\<lambda>c. c = CHR ''/'' \<or> c = CHR ''?'' \<or> c = CHR ''#''"
  have s: "split_once_str ''://'' (sch @ ''://'' @ (ui @ br @ name) @ tail) = Some (sch, (ui @ br @ name) @ tail)"
    using assms(1) by (intro split_once_str_skip) auto
  have h: "hd (split_on ?p ((ui @ br @ name) @ tail)) = ui @ br @ name"
    using assms(2, 3) by (intro split_on_hd_stop) (auto simp: plain_authority_def)
  have a: "after_last CHR ''@'' (ui @ br @ name) = br @ name" "after_last CHR '']'' (br @ name) = name"
    using assms(2) by (intro after_last_append; auto simp: plain_authority_def)+
  have "split_once_char CHR '':'' name = None"
    using assms(2) by (simp add: plain_authority_def split_once_char_None)
  with s h a show ?thesis by (simp add: has_explicit_port_def Let_def)
qed

definition hex_byte :: "byte \<Rightarrow> byte" where
  "hex_byte n = (if n < 10 then 48 + n else 87 + n)"

lemma hex_nibble_hex:
  assumes "n < 16"
  shows "hex_nibble (hex_byte n) = Some n"
proof -
  have "\<forall>k \<in> set [0..<16]. hex_nibble (hex_byte (of_nat k)) = Some (of_nat k)" by code_simp
  moreover from assms have "unat n \<in> set [0..<16]" by (simp add: word_less_nat_alt)
  ultimately have "hex_nibble (hex_byte (of_nat (unat n))) = Some (of_nat (unat n))" by (rule bspec)
  then show ?thesis by simp
qed

text \<open>Reference encoder: the RFC 3986 escape of a byte is a percent sign and two hexadecimal digits;
  which bytes are escaped (\<open>esc\<close>) is up to the writer, as long as the percent sign is.\<close>

primrec percent_encode :: "(byte \<Rightarrow> bool) \<Rightarrow> bytes \<Rightarrow> bytes" where
  "percent_encode esc [] = []"
| "percent_encode esc (b # bs) =
     (if esc b then 37 # hex_byte (drop_bit 4 b) # hex_byte (take_bit 4 b) # percent_encode esc bs
      else b # percent_encode esc bs)"

lemma nibbles_join: "push_bit 4 (drop_bit 4 b) OR take_bit 4 b = b" for b :: byte
  by (rule bit_word_eqI) (auto simp: bit_simps)

lemma nibbles_small: "drop_bit 4 b < (16 :: byte)" "take_bit 4 b < (16 :: byte)" for b :: byte
proof -
  have "unat b < 256" using unsigned_less [of b, where ?'a = nat] by simp
  then show "drop_bit 4 b < (16 :: byte)"
    by (simp add: word_less_nat_alt drop_bit_eq_div unat_div)
  show "take_bit 4 b < (16 :: byte)"
    by (simp add: word_less_nat_alt take_bit_eq_mod unat_mod)
qed

lemma percent_bytes_plain: "b \<noteq> 37 \<Longrightarrow> percent_bytes (b # bs) = b # percent_bytes bs"
  by (simp split: list.split)

lemma percent_bytes_escape:
  "hex_nibble h = Some hv \<Longrightarrow> hex_nibble l = Some lv \<Longrightarrow>
     percent_bytes (37 # h # l # bs) = (push_bit 4 hv OR lv) # percent_bytes bs"
  by simp

declare percent_bytes.simps(2) [simp del]

lemma percent_bytes_encode: "esc 37 \<Longrightarrow> percent_bytes (percent_encode esc bs) = bs"
proof (induction bs)
  case (Cons b bs)
  have "hex_nibble (hex_byte (drop_bit 4 b)) = Some (drop_bit 4 b)"
    "hex_nibble (hex_byte (take_bit 4 b)) = Some (take_bit 4 b)"
    using nibbles_small [of b] by (simp_all add: hex_nibble_hex)
  with Cons show ?case
    by (cases "b = 37") (auto simp: percent_bytes_plain percent_bytes_escape nibbles_join)
qed simp

text \<open>The reply to a \<^verbatim>\<open>CONNECT\<close>: a status line and header lines, each ended by CR LF, and a blank
  line.\<close>

definition crlf_line :: "bytes \<Rightarrow> bool" where
  "crlf_line l \<longleftrightarrow> l \<noteq> [] \<and> 10 \<notin> set l \<and> valid_utf8 (l @ [13, 10])"

definition header_block :: "bytes list \<Rightarrow> bytes" where
  "header_block hs = concat (map (\<lambda>h. h @ [13, 10]) hs)"

lemma read_crlf_line:
  assumes "10 \<notin> set l" "valid_utf8 (l @ [13, 10])" "bs_incoming s = l @ [13, 10] @ rest"
  shows "read_line s = (Ready (Inr (l @ [13, 10])), s\<lparr>bs_incoming := rest\<rparr>)"
  using assms read_line_complete [of "l @ [13]" s rest] by simp

lemma drain_header_line:
  assumes "crlf_line h" "bs_incoming s = h @ [13, 10] @ rest"
  shows "drain_headers (Suc n) s = drain_headers n (s\<lparr>bs_incoming := rest\<rparr>)"
  using assms read_crlf_line [of h s rest]
  by (cases h) (auto simp: crlf_line_def)

lemma drain_header_block:
  assumes "list_all crlf_line hs" "bs_incoming s = header_block hs @ rest"
  shows "drain_headers (length hs + n) s = drain_headers n (s\<lparr>bs_incoming := rest\<rparr>)"
  using assms
proof (induction hs arbitrary: s)
  case (Cons h hs)
  then have "bs_incoming s = h @ [13, 10] @ (header_block hs @ rest)" by (simp add: header_block_def)
  with Cons have "drain_headers (Suc (length hs + n)) s =
      drain_headers (length hs + n) (s\<lparr>bs_incoming := header_block hs @ rest\<rparr>)"
    by (intro drain_header_line) simp_all
  with Cons show ?case by simp
next
  case Nil
  then show ?case by (cases s) (simp add: header_block_def)
qed

lemma drain_blank_line:
  assumes "bs_incoming s = 13 # 10 # rest"
  shows "drain_headers (Suc n) s = Inr (s\<lparr>bs_incoming := rest\<rparr>)"
proof -
  have "valid_utf8 ([] @ [13, 10])" by (rule ascii_valid_utf8) simp
  with assms read_crlf_line [of "[]" s rest] show ?thesis by simp
qed

lemma read_connect_reply_ok:
  assumes "crlf_line status" "is_ok_status (trim_end (bytes_str (status @ [13, 10])))"
    and "list_all crlf_line hs" "length hs < MAX_CONNECT_HEADERS"
    and "bs_incoming s = status @ [13, 10] @ header_block hs @ [13, 10] @ rest"
  shows "read_connect_reply s = Inr (s\<lparr>bs_incoming := rest\<rparr>)"
proof -
  let ?t = "s\<lparr>bs_incoming := header_block hs @ [13, 10] @ rest\<rparr>"
  have r: "read_line s = (Ready (Inr (status @ [13, 10])), ?t)"
    using assms(1, 5) by (intro read_crlf_line) (simp_all add: crlf_line_def)
  obtain n where n: "MAX_CONNECT_HEADERS = length hs + Suc n"
    using less_imp_Suc_add [OF assms(4)] by auto
  have "drain_headers (length hs + Suc n) ?t = drain_headers (Suc n) (?t\<lparr>bs_incoming := [13, 10] @ rest\<rparr>)"
    using assms(3) by (intro drain_header_block) simp_all
  also have "\<dots> = Inr (s\<lparr>bs_incoming := rest\<rparr>)"
    by (subst drain_blank_line) simp_all
  finally show ?thesis
    unfolding read_connect_reply_def r n [symmetric] using assms(2)
    by (simp add: Let_def)
qed

text \<open>C23: \<^verbatim>\<open>connect_http\<close> on a proxy that accepts: after the \<^verbatim>\<open>CONNECT\<close> request is written, a status
  line with code 200, at most 63 header lines and the blank line, the tunnel is returned with
  exactly the bytes that follow the blank line still to be read (none of them lost to buffering),
  and with exactly the request written.\<close>

theorem connect_http_tunnel:
  assumes "net_tcp N (authority (px_host p) (px_port p)) = Ready (Inr tcp)"
    and "proxy_leg N p tcp = Inr stream"
    and "net_write N stream (as_bytes (connect_request N p host port)) = Ready (Inr ())"
    and "crlf_line status" "is_ok_status (trim_end (bytes_str (status @ [13, 10])))"
    and "list_all crlf_line hs" "length hs < MAX_CONNECT_HEADERS"
    and "bs_incoming stream = status @ [13, 10] @ header_block hs @ [13, 10] @ rest"
  shows "connect_http N p host port =
           Inr (stream\<lparr>bs_incoming := rest,
                       bs_sent := bs_sent stream @ as_bytes (connect_request N p host port)\<rparr>)"
proof -
  let ?s = "stream\<lparr>bs_sent := bs_sent stream @ as_bytes (connect_request N p host port)\<rparr>"
  have "read_connect_reply ?s = Inr (?s\<lparr>bs_incoming := rest\<rparr>)"
    using assms(4-8) by (intro read_connect_reply_ok) simp_all
  then show ?thesis
    unfolding connect_http_def assms(1) using assms(2, 3) by simp
qed

text \<open>A proxy cannot keep the client reading forever: when 64 header lines have come and the
  blank line has not, the handshake fails, whatever follows.\<close>

theorem connect_headers_bounded:
  assumes "crlf_line status" "is_ok_status (trim_end (bytes_str (status @ [13, 10])))"
    and "list_all crlf_line hs" "length hs = MAX_CONNECT_HEADERS"
    and "bs_incoming s = status @ [13, 10] @ header_block hs @ rest"
  shows "read_connect_reply s =
           Inl (HttpConnect ''proxy sent too many CONNECT response headers'')"
proof -
  have "read_line s = (Ready (Inr (status @ [13, 10])), s\<lparr>bs_incoming := header_block hs @ rest\<rparr>)"
    using assms(1, 5) by (intro read_crlf_line) (simp_all add: crlf_line_def)
  moreover have "drain_headers (length hs + 0) (s\<lparr>bs_incoming := header_block hs @ rest\<rparr>) =
      drain_headers 0 (s\<lparr>bs_incoming := rest\<rparr>)"
    using drain_header_block [of hs "s\<lparr>bs_incoming := header_block hs @ rest\<rparr>" rest 0] assms(3) by simp
  ultimately show ?thesis using assms(2, 4) by (simp add: read_connect_reply_def)
qed

text \<open>a port written in a proxy URL is kept as written, also when it is the scheme's default,
  which the \<^verbatim>\<open>url\<close> crate does not report through \<^verbatim>\<open>port()\<close> (the third hypothesis is its documented
  behaviour: the written port through \<^verbatim>\<open>port()\<close>, or no \<^verbatim>\<open>port()\<close> and the written port as the known
  default).\<close>

theorem written_port_kept:
  assumes "url_parse (sch @ ''://'' @ ui @ br @ name @ '':'' @ show_word port @ tail) = Inr u"
    and "proxy_kind_of (url_scheme u) = Inr kind" "url_host_str u = Some h"
    and "url_port u = Some port \<or> url_port u = None \<and> url_port_or_known_default u = Some port"
    and "CHR '':'' \<notin> set sch" "plain_authority ui br name"
    and "tail = [] \<or> hd tail \<in> {CHR ''/'', CHR ''?'', CHR ''#''}"
  shows "\<exists>c. parse url_parse (sch @ ''://'' @ ui @ br @ name @ '':'' @ show_word port @ tail) = Inr c \<and>
           px_port c = port \<and> px_kind c = kind \<and> px_host c = unbracket h"
proof -
  have "has_explicit_port (sch @ ''://'' @ ui @ br @ name @ '':'' @ show_word port @ tail)"
    using assms(5-7) by (rule has_explicit_port_written)
  with assms(4) have
    "resolve_port u (sch @ ''://'' @ ui @ br @ name @ '':'' @ show_word port @ tail) = Inr port"
    unfolding resolve_port_def by (elim disjE conjE) (simp_all only: option.case if_True ok_or_simps)
  then show ?thesis
    unfolding parse_def assms(1) using assms(2, 3) by (simp add: Let_def)
qed

text \<open>percent decoding undoes percent encoding of any UTF-8 text, whichever bytes the encoder
  chose to escape besides the percent sign itself.\<close>

theorem percent_decode_encode:
  assumes "esc 37" "valid_utf8 (as_bytes s)"
  shows "percent_decode (bytes_str (percent_encode esc (as_bytes s))) = s"
  using assms by (simp add: percent_decode_def percent_bytes_encode valid_utf8_lossy)


section \<open>Witnesses\<close>

definition sample_reply :: bytes where
  "sample_reply = as_bytes (''HTTP/1.1 200 OK'' @ crlf @ ''Via: p'' @ crlf @ crlf @ ''xy'')"

definition sample_net :: net where
  "sample_net =
     \<lparr>net_socks5 = (\<lambda>_ _ _ _. Pending),
      net_tcp = (\<lambda>_. Ready (Inr \<lparr>bs_sent = [], bs_incoming = sample_reply, bs_tail = TailStall\<rparr>)),
      net_server_name = Inr, net_webpki_roots = [], net_tls = (\<lambda>_ _ s. Ready (Inr s)),
      net_write = (\<lambda>_ _. Ready (Inr ())), net_base64 = id\<rparr>"

definition sample_proxy :: proxy_config where
  "sample_proxy =
     \<lparr>px_kind = PkHttpConnect, px_host = ''10.0.0.1'', px_port = 8080, px_credentials = None,
      px_tls_to_proxy = False\<rparr>"

lemma sample_status_ok:
  "crlf_line (as_bytes ''HTTP/1.1 200 OK'')"
  "is_ok_status (trim_end (bytes_str (as_bytes ''HTTP/1.1 200 OK'' @ [13, 10])))"
  "crlf_line (as_bytes ''Via: p'')"
  by code_simp+

theorem connect_http_tunnel_witness:
  "connect_http sample_net sample_proxy ''cm'' 443 =
     Inr \<lparr>bs_sent = as_bytes (connect_request sample_net sample_proxy ''cm'' 443),
          bs_incoming = as_bytes ''xy'', bs_tail = TailStall\<rparr>"
proof -
  have "sample_reply = as_bytes ''HTTP/1.1 200 OK'' @ [13, 10] @ header_block [as_bytes ''Via: p''] @
      [13, 10] @ as_bytes ''xy''"
    by code_simp
  then show ?thesis
    using connect_http_tunnel [of sample_net sample_proxy
        "\<lparr>bs_sent = [], bs_incoming = sample_reply, bs_tail = TailStall\<rparr>"
        "\<lparr>bs_sent = [], bs_incoming = sample_reply, bs_tail = TailStall\<rparr>" "''cm''" 443
        "as_bytes ''HTTP/1.1 200 OK''" "[as_bytes ''Via: p'']" "as_bytes ''xy''"]
      sample_status_ok
    by (simp add: sample_net_def sample_proxy_def proxy_leg_def MAX_CONNECT_HEADERS_def)
qed

definition sample_headers :: "bytes list" where
  "sample_headers = replicate MAX_CONNECT_HEADERS (as_bytes ''Via: p'')"

theorem connect_headers_bounded_witness:
  "read_connect_reply
     \<lparr>bs_sent = [],
      bs_incoming = as_bytes ''HTTP/1.1 200 OK'' @ [13, 10] @ header_block sample_headers @ [13, 10],
      bs_tail = TailStall\<rparr> =
     Inl (HttpConnect ''proxy sent too many CONNECT response headers'')"
proof (rule connect_headers_bounded [OF sample_status_ok(1,2)])
  show "list_all crlf_line sample_headers"
    using sample_status_ok(3) by (simp only: sample_headers_def list_all_iff in_set_replicate) simp
  show "length sample_headers = MAX_CONNECT_HEADERS"
    by (simp only: sample_headers_def length_replicate)
qed simp

theorem written_port_kept_witness:
  "\<exists>c. parse (\<lambda>_. Inr \<lparr>url_scheme = ''http'', url_host_str = Some ''h'', url_port = None,
            url_port_or_known_default = Some 80, url_username = [], url_password = None\<rparr>)
         (''http'' @ ''://'' @ [] @ [] @ ''h'' @ '':'' @ show_word (80 :: u16) @ ''/'') = Inr c \<and>
       px_port c = 80 \<and> px_kind c = PkHttpConnect \<and> px_host c = unbracket ''h''"
  by (rule written_port_kept, rule refl) (simp_all add: proxy_kind_of_def plain_authority_def)

theorem percent_decode_encode_witness:
  "percent_decode (bytes_str (percent_encode (\<lambda>b. b < 48) (as_bytes ''p%w @x''))) = ''p%w @x'' \<and>
   bytes_str (percent_encode (\<lambda>b. b < 48) (as_bytes ''p%w @x'')) = ''p%25w%20@x''"
proof -
  have "valid_utf8 (as_bytes ''p%w @x'')"
    "bytes_str (percent_encode (\<lambda>b. b < 48) (as_bytes ''p%w @x'')) = ''p%25w%20@x''"
    by code_simp+
  then show ?thesis using percent_decode_encode [of "\<lambda>b. b < 48" "''p%w @x''"] by simp
qed


end
