(* ===== verification/Websocket.thy ===== *)
theory Websocket
  imports Proxy
begin

text \<open>
  The WebSocket transport of \<^verbatim>\<open>src/transport/websocket.rs\<close>.  A socket is the items its read half
  will deliver, each with the time it arrives, and the log of what its write half was given.
  \<^verbatim>\<open>tokio-tungstenite\<close> is the record \<open>ws_lib\<close>: building the request and running the client handshake.
\<close>

datatype ws_message =
    WsBinary bytes
  | WsText string
  | WsPing bytes
  | WsPong bytes
  | WsClose
  | WsFrame

text \<open>What polling the read half yields: a message, a protocol error, or the end of the stream.
  When the list is exhausted nothing more has arrived.\<close>

datatype ws_item =
    WsItem ws_message
  | WsError string
  | WsEnd

type_synonym ws_stream = "(millis \<times> ws_item) list"

text \<open>The write half: what was sent, and for each coming write whether it fails.\<close>

record sink =
  sk_sent :: "ws_message list"
  sk_faults :: "string option list"

record steam_web_socket =
  ws_read :: ws_stream
  ws_write :: sink

record ws_lib =
  wl_client_request :: "string \<Rightarrow> string + string"
  wl_client_async :: "string \<Rightarrow> byte_stream \<Rightarrow> (string + steam_web_socket) poll"
  wl_proxy_in_time :: bool

definition sink_send :: "sink \<Rightarrow> ws_message \<Rightarrow> unit result \<times> sink" where
  "sink_send k m =
     (case sk_faults k of
        Some e # fs \<Rightarrow> (Inl (error_from_tungstenite e), k\<lparr>sk_faults := fs\<rparr>)
      | fs \<Rightarrow> (Inr (), k\<lparr>sk_sent := sk_sent k @ [m], sk_faults := tl fs\<rparr>))"

definition ws_scheme :: "string \<Rightarrow> bool result" where
  "ws_scheme scheme =
     (if scheme = ''wss'' then Inr True
      else if scheme = ''ws'' then Inr False
      else Inl (InvalidUrl (''unsupported ws scheme: '' @ scheme)))"

definition ws_tcp ::
    "net \<Rightarrow> ws_lib \<Rightarrow> proxy_config option \<Rightarrow> string \<Rightarrow> u16 \<Rightarrow> byte_stream result" where
  "ws_tcp N L proxy host port =
     (case proxy of
        Some p \<Rightarrow>
          and_then (timeout ''proxy connect''
            (if wl_proxy_in_time L then Ready (connect_via_proxy N p host port) else Pending)) id
      | None \<Rightarrow>
          and_then (timeout ''tcp connect'' (net_tcp N (authority host port))) (map_err Io))"

definition ws_tls :: "net \<Rightarrow> bool \<Rightarrow> string \<Rightarrow> byte_stream \<Rightarrow> byte_stream result" where
  "ws_tls N is_wss host tcp =
     (if is_wss then
        and_then (map_err (\<lambda>e. Tls (''invalid sni: '' @ e)) (net_server_name N host)) (\<lambda>server_name.
        and_then (timeout ''tls handshake''
          (net_tls N (tls_connector (net_webpki_roots N)) server_name tcp)) (map_err Tls))
      else Inr tcp)"

definition connect_ws ::
    "(string \<Rightarrow> string + url) \<Rightarrow> net \<Rightarrow> ws_lib \<Rightarrow> string \<Rightarrow> proxy_config option \<Rightarrow> steam_web_socket result"
    where
  "connect_ws url_parse N L u proxy =
     and_then (map_err UrlParse (url_parse u)) (\<lambda>parsed.
     and_then (ok_or (InvalidUrl ''ws url missing host'') (url_host_str parsed)) (\<lambda>h.
     let host = unbracket h in
     and_then (ok_or (InvalidUrl ''ws url missing port'') (url_port_or_known_default parsed)) (\<lambda>port.
     and_then (ws_scheme (url_scheme parsed)) (\<lambda>is_wss.
     and_then (ws_tcp N L proxy host port) (\<lambda>tcp.
     and_then (ws_tls N is_wss host tcp) (\<lambda>stream.
     and_then (map_err (\<lambda>e. WebSocket (''bad request: '' @ e)) (wl_client_request L u)) (\<lambda>request.
     and_then (timeout ''ws handshake'' (wl_client_async L request stream))
       (map_err error_from_tungstenite))))))))"

section \<open>Lemmas\<close>

lemma sink_send_cases:
  "sink_send k m = (r, k') \<Longrightarrow>
     (\<exists>e. r = Inl (WebSocket e) \<and> sk_sent k' = sk_sent k) \<or> (r = Inr () \<and> sk_sent k' = sk_sent k @ [m])"
  by (auto simp: sink_send_def error_from_tungstenite_def split: list.splits option.splits)

lemma net_tcp_irrelevant:
  "connect_request (N\<lparr>net_tcp := f\<rparr>) = connect_request N"
  "proxy_leg (N\<lparr>net_tcp := f\<rparr>) = proxy_leg N"
  "connect_socks5 (N\<lparr>net_tcp := f\<rparr>) = connect_socks5 N"
  "ws_tls (N\<lparr>net_tcp := f\<rparr>) = ws_tls N"
  by (simp_all add: fun_eq_iff connect_request_def proxy_leg_def connect_socks5_def ws_tls_def
      cong: option.case_cong if_cong)

lemma connect_via_proxy_dials_proxy:
  assumes "f (authority (px_host p) (px_port p)) = net_tcp N (authority (px_host p) (px_port p))"
  shows "connect_via_proxy (N\<lparr>net_tcp := f\<rparr>) p = connect_via_proxy N p"
  by (simp add: fun_eq_iff connect_via_proxy_def connect_http_def net_tcp_irrelevant assms
      split: proxy_kind.split)


definition sample_ws_lib :: ws_lib where
  "sample_ws_lib =
     \<lparr>wl_client_request = Inr,
      wl_client_async = (\<lambda>_ _. Ready (Inr \<lparr>ws_read = [], ws_write = \<lparr>sk_sent = [], sk_faults = []\<rparr>\<rparr>)),
      wl_proxy_in_time = True\<rparr>"


end
