(* ===== verification/Http.thy ===== *)
theory Http
  imports Proxy
begin

text \<open>
  The shared HTTPS client of \<^verbatim>\<open>src/http.rs\<close>.  The \<^verbatim>\<open>reqwest\<close> crate is the record \<open>reqwest\<close>: building a
  proxy and a client, and sending a request through a client.  A request that fails carries the
  text of the error; a response is the record of the accessors the crate calls on it.
\<close>

record http_response =
  hr_status :: nat
  hr_status_text :: string
  hr_headers :: "(string \<times> bytes) list"
  hr_text :: "string + string"
  hr_bytes :: "string + bytes"

record ('p, 'c) reqwest =
  rq_proxy_all :: "string \<Rightarrow> string + 'p"
  rq_basic_auth :: "'p \<Rightarrow> string \<Rightarrow> string \<Rightarrow> 'p"
  rq_build :: "millis \<Rightarrow> millis \<Rightarrow> string \<Rightarrow> 'p option \<Rightarrow> string + 'c"
  rq_get :: "'c \<Rightarrow> string \<Rightarrow> (string \<times> string) list \<Rightarrow> string + http_response"
  rq_post_form :: "'c \<Rightarrow> string \<Rightarrow> (string \<times> string) list \<Rightarrow> string + http_response"

definition TOTAL_TIMEOUT :: millis where
  "TOTAL_TIMEOUT = secs 30"

definition CONNECT_TIMEOUT :: millis where
  "CONNECT_TIMEOUT = secs 10"

text \<open>\<^verbatim>\<open>StatusCode::is_success\<close>, and the lookup of a header by its (lower-case) name.\<close>

definition is_success :: "http_response \<Rightarrow> bool" where
  "is_success r \<longleftrightarrow> 200 \<le> hr_status r \<and> hr_status r < 300"

definition header_get :: "http_response \<Rightarrow> string \<Rightarrow> bytes option" where
  "header_get r name = map_of (hr_headers r) name"

definition build_proxy :: "('p, 'c) reqwest \<Rightarrow> proxy_config \<Rightarrow> 'p result" where
  "build_proxy R cfg =
     (let scheme = (case px_kind cfg of
             PkSocks5 \<Rightarrow> ''socks5h''
           | PkHttpConnect \<Rightarrow> if px_tls_to_proxy cfg then ''https'' else ''http'');
          url = scheme @ ''://'' @ authority (px_host cfg) (px_port cfg)
      in and_then (map_err (\<lambda>e. InvalidConfig (''proxy: '' @ e)) (rq_proxy_all R url)) (\<lambda>proxy.
           Inr (case px_credentials cfg of
                  None \<Rightarrow> proxy
                | Some c \<Rightarrow> rq_basic_auth R proxy (pc_username c) (pc_password c))))"

definition user_agent :: string where
  "user_agent = ''steamroids/0.3.0''"

definition client :: "('p, 'c) reqwest \<Rightarrow> proxy_config option \<Rightarrow> 'c result" where
  "client R proxy =
     and_then (case proxy of None \<Rightarrow> Inr None | Some p \<Rightarrow> map_sum id Some (build_proxy R p)) (\<lambda>px.
       map_err (\<lambda>e. InvalidConfig (''reqwest client: '' @ e))
         (rq_build R TOTAL_TIMEOUT CONNECT_TIMEOUT user_agent px))"

lemma client_proxied:
  assumes "client R (Some p) = Inr c"
  shows "\<exists>px. build_proxy R p = Inr px \<and>
           rq_build R TOTAL_TIMEOUT CONNECT_TIMEOUT user_agent (Some px) = Inr c"
  using assms by (cases "build_proxy R p") (auto simp: client_def)

lemma client_error:
  assumes "client R p = Inl e" shows "\<exists>t. e = InvalidConfig t"
proof (cases p)
  case None
  with assms show ?thesis
    by (cases "rq_build R TOTAL_TIMEOUT CONNECT_TIMEOUT user_agent None") (auto simp: client_def)
next
  case (Some cfg)
  show ?thesis
  proof (cases "build_proxy R cfg")
    case (Inl b)
    then have "\<exists>t. b = InvalidConfig t"
      by (auto simp: build_proxy_def Let_def map_err_def split: sum.splits)
    with Inl Some assms show ?thesis by (simp add: client_def)
  next
    case (Inr px)
    with Some assms show ?thesis
      by (cases "rq_build R TOTAL_TIMEOUT CONNECT_TIMEOUT user_agent (Some px)")
        (auto simp: client_def)
  qed
qed


end
