(* ===== verification/Discovery.thy ===== *)
theory Discovery
  imports Http
begin

text \<open>
  CM server discovery, \<^verbatim>\<open>src/session/discovery.rs\<close>.  The derived \<^verbatim>\<open>serde_json\<close> reader of the
  directory's answer is the argument \<open>from_str\<close>, which yields the entries of the
  \<^verbatim>\<open>response.serverlist\<close> array.  A load hint is carried unread, so its type is left open.
\<close>

definition DIRECTORY_URL :: string where
  "DIRECTORY_URL = ''https://api.steampowered.com/ISteamDirectory/GetCMListForConnect/v1/''"

record 'f server_entry =
  se_endpoint :: string
  se_kind :: "string option"
  se_dc :: "string option"
  se_load :: "'f option"

record 'f cm_server =
  cs_endpoint :: string
  cs_datacenter :: "string option"
  cs_load :: "'f option"

definition ws_url :: "'f cm_server \<Rightarrow> string" where
  "ws_url s = ''wss://'' @ cs_endpoint s @ ''/cmsocket/''"

definition is_websocket :: "'f server_entry \<Rightarrow> bool" where
  "is_websocket e = (case se_kind e of None \<Rightarrow> True | Some k \<Rightarrow> k = ''websockets'')"

definition to_cm_server :: "'f server_entry \<Rightarrow> 'f cm_server" where
  "to_cm_server e = \<lparr>cs_endpoint = se_endpoint e, cs_datacenter = se_dc e, cs_load = se_load e\<rparr>"

definition parse_servers ::
    "(string \<Rightarrow> string + 'f server_entry list) \<Rightarrow> string \<Rightarrow> 'f cm_server list result" where
  "parse_servers from_str body =
     and_then (map_err (\<lambda>e. Network (''GetCMListForConnect: unparseable response: '' @ e))
                 (from_str body)) (\<lambda>entries.
       let servers = map to_cm_server (filter is_websocket entries)
       in if servers = [] then Inl (Network ''GetCMListForConnect returned no websocket servers'')
          else Inr servers)"

definition discover_cm_servers ::
    "('p, 'c) reqwest \<Rightarrow> (string \<Rightarrow> string + 'f server_entry list) \<Rightarrow> proxy_config option \<Rightarrow>
     'f cm_server list result" where
  "discover_cm_servers R from_str proxy =
     and_then (client R proxy) (\<lambda>c.
     and_then (map_err (\<lambda>e. Network (''GetCMListForConnect: '' @ e))
       (rq_get R c DIRECTORY_URL
          [(''cmtype'', ''websockets''), (''format'', ''json''), (''cellid'', ''0'')])) (\<lambda>response.
     and_then (map_err (\<lambda>e. Network (''GetCMListForConnect body: '' @ e)) (hr_text response)) (\<lambda>body.
       if \<not> is_success response
       then Inl (Network (''GetCMListForConnect: HTTP '' @ hr_status_text response))
       else parse_servers from_str body)))"

section \<open>Lemmas\<close>

lemma parse_servers_Inr:
  "parse_servers from_str body = Inr servers \<longleftrightarrow>
     (\<exists>entries. from_str body = Inr entries \<and> servers = map to_cm_server (filter is_websocket entries) \<and>
        servers \<noteq> [])"
  by (cases "from_str body") (auto simp: parse_servers_def Let_def)

lemma parse_servers_Inl: "parse_servers from_str body = Inl e \<Longrightarrow> \<exists>t. e = Network t"
  by (cases "from_str body") (auto simp: parse_servers_def Let_def split: if_splits)

lemma discover_Inr:
  "discover_cm_servers R from_str proxy = Inr servers \<Longrightarrow>
     \<exists>body entries. from_str body = Inr entries \<and>
        servers = map to_cm_server (filter is_websocket entries) \<and> servers \<noteq> []"
  by (auto simp: discover_cm_servers_def and_then_Inr_iff parse_servers_Inr split: if_splits)

lemma discover_error:
  assumes "discover_cm_servers R from_str proxy = Inl e"
  shows "(\<exists>t. e = Network t) \<or> (\<exists>t. e = InvalidConfig t)"
proof (cases "client R proxy")
  case (Inl c)
  then show ?thesis using assms client_error [OF Inl] by (simp add: discover_cm_servers_def)
next
  case (Inr c)
  then show ?thesis
    using assms parse_servers_Inl
    by (auto simp: discover_cm_servers_def and_then_def map_err_def split: sum.splits if_splits)
qed

text \<open>A successful discovery is a non-empty list of endpoints, every one of them a WebSocket
  endpoint of the directory's answer, in the order Steam sent them; a failed one is a network error
  (or, when the client could not be built, a configuration error), so an auth rejection is never
  reported for it.\<close>

theorem discover_cm_servers_spec:
  "case discover_cm_servers R from_str proxy of
     Inl e \<Rightarrow> (\<exists>t. e = Network t) \<or> (\<exists>t. e = InvalidConfig t)
   | Inr servers \<Rightarrow> servers \<noteq> [] \<and>
       (\<exists>body entries. from_str body = Inr entries \<and>
          map cs_endpoint servers = map se_endpoint (filter is_websocket entries))"
proof (cases "discover_cm_servers R from_str proxy")
  case (Inl e)
  then show ?thesis using discover_error [OF Inl] by simp
next
  case (Inr servers)
  obtain body entries where "from_str body = Inr entries"
    "servers = map to_cm_server (filter is_websocket entries)" "servers \<noteq> []"
    using discover_Inr [OF Inr] by auto
  then show ?thesis
    by (auto simp: Inr to_cm_server_def comp_def intro!: exI [of _ body] exI [of _ entries])
qed

end
