(* ===== verification/Connection.thy ===== *)
theory Connection
  imports Codec Websocket Discovery
begin

text \<open>
  A Connection Manager session before the driver takes it over, \<^verbatim>\<open>src/session/connection.rs\<close>: reading
  and writing frames, unpacking \<^verbatim>\<open>Multi\<close> batches, the logon exchange and the choice of a server.

  The prost codecs of the message types involved and flate2's gzip decoder are the fields of the
  record \<open>wire\<close>.  The decoder \<open>w_inflate\<close> yields the bytes it inflates and then the error it stops
  with, if any.
\<close>

section \<open>Constants and messages\<close>

definition EMSG_MULTI :: u32 where [simp]: "EMSG_MULTI = 1"
definition EMSG_CLIENT_HEARTBEAT :: u32 where [simp]: "EMSG_CLIENT_HEARTBEAT = 703"
definition EMSG_CLIENT_LOGON :: u32 where [simp]: "EMSG_CLIENT_LOGON = 5514"
definition EMSG_CLIENT_LOGON_RESPONSE :: u32 where [simp]: "EMSG_CLIENT_LOGON_RESPONSE = 751"
definition EMSG_CLIENT_LOGGED_OFF :: u32 where [simp]: "EMSG_CLIENT_LOGGED_OFF = 757"
definition PROTOCOL_VERSION :: u32 where "PROTOCOL_VERSION = 65580"
definition CLIENT_PACKAGE_VERSION :: u32 where "CLIENT_PACKAGE_VERSION = 1771"
definition CLIENT_OS_WINDOWS_10 :: u32 where "CLIENT_OS_WINDOWS_10 = 16"
definition DEFAULT_HEARTBEAT_SECS :: i32 where "DEFAULT_HEARTBEAT_SECS = 9"
definition MAX_MULTI_UNZIPPED :: nat where "MAX_MULTI_UNZIPPED = 8 * 1024 * 1024"
definition MAX_MULTI_DEPTH :: nat where "MAX_MULTI_DEPTH = 4"
definition MAX_CONNECT_ATTEMPTS :: nat where "MAX_CONNECT_ATTEMPTS = 5"
definition LOGON_HEADER_STEAMID :: u64 where "LOGON_HEADER_STEAMID = 0x0110000100000000"

record cmsg_multi =
  mu_size_unzipped :: "u32 option"
  mu_message_body :: "bytes option"

record cmsg_client_logon =
  cl_protocol_version :: "u32 option"
  cl_client_package_version :: "u32 option"
  cl_client_language :: "string option"
  cl_client_os_type :: "u32 option"
  cl_should_remember_password :: "bool option"
  cl_account_name :: "string option"
  cl_access_token :: "string option"
  cl_supports_rate_limit_response :: "bool option"

record cmsg_client_logon_response =
  lr_eresult :: "i32 option"
  lr_heartbeat_seconds :: "i32 option"

record cmsg_client_logged_off =
  lf_eresult :: "i32 option"

record wire =
  w_enc_header :: "cmsg_proto_buf_header \<Rightarrow> bytes"
  w_dec_header :: "bytes \<Rightarrow> string + cmsg_proto_buf_header"
  w_dec_multi :: "bytes \<Rightarrow> string + cmsg_multi"
  w_inflate :: "bytes \<Rightarrow> bytes \<times> string option"
  w_enc_logon :: "cmsg_client_logon \<Rightarrow> bytes"
  w_dec_logon_response :: "bytes \<Rightarrow> string + cmsg_client_logon_response"
  w_dec_logged_off :: "bytes \<Rightarrow> string + cmsg_client_logged_off"

section \<open>State\<close>

record logged_on =
  lo_steam_id :: u64
  lo_session_id :: i32
  lo_heartbeat_interval :: millis

text \<open>The liveness clock is the time of the last inbound frame.\<close>

type_synonym liveness = millis

definition touch :: "millis \<Rightarrow> liveness \<Rightarrow> liveness" where
  "touch now l = now"

definition idle_for :: "millis \<Rightarrow> liveness \<Rightarrow> millis" where
  "idle_for now l = now - l"

record cm_connection =
  cc_read :: ws_stream
  cc_write :: sink
  cc_steam_id :: u64
  cc_session_id :: i32
  cc_inbox :: "steam_message list"
  cc_liveness :: liveness

section \<open>Batches\<close>

text \<open>\<^verbatim>\<open>take(MAX + 1).read_to_end\<close> over the decoder: the decoder's error is met only if it comes
  within the first \<^verbatim>\<open>MAX + 1\<close> bytes.\<close>

definition gunzip :: "wire \<Rightarrow> bytes \<Rightarrow> bytes result" where
  "gunzip W data =
     (case w_inflate W data of (out, err) \<Rightarrow>
        if length out \<le> MAX_MULTI_UNZIPPED then
          (case err of None \<Rightarrow> Inr out | Some e \<Rightarrow> Inl (Codec (''gunzip Multi: '' @ e)))
        else Inl (Codec (''Multi inflated past '' @ show_nat MAX_MULTI_UNZIPPED @ '' cap'')))"

definition multi_payload :: "wire \<Rightarrow> cmsg_multi \<Rightarrow> bytes result" where
  "multi_payload W multi =
     (let raw = unwrap_or [] (mu_message_body multi);
          size = unat (unwrap_or 0 (mu_size_unzipped multi))
      in if size = 0 then Inr raw
         else if MAX_MULTI_UNZIPPED < size then
           Inl (Codec (''Multi size_unzipped '' @ show_nat size @ '' over '' @
             show_nat MAX_MULTI_UNZIPPED @ '' cap''))
         else gunzip W raw)"

function decode_multi :: "wire \<Rightarrow> bytes \<Rightarrow> nat \<Rightarrow> steam_message list result"
  and multi_loop :: "wire \<Rightarrow> bytes \<Rightarrow> steam_message list \<Rightarrow> nat \<Rightarrow> steam_message list result" where
  "decode_multi W body depth =
     (if MAX_MULTI_DEPTH < depth then
        Inl (Codec (''Multi nested deeper than '' @ show_nat MAX_MULTI_DEPTH))
      else
        and_then (map_err (\<lambda>e. Codec (''decode Multi: '' @ e)) (w_dec_multi W body)) (\<lambda>multi.
        and_then (multi_payload W multi) (\<lambda>payload.
          multi_loop W payload [] depth)))"
| "multi_loop W cur out depth =
     (if length cur < 4 then Inr out
      else
        let len = unat (u32_from_le (take 4 cur)); cur = drop 4 cur in
        if length cur < len then Inl (Codec ''truncated message inside Multi'')
        else
          (case try_decode (w_dec_header W) (take len cur) of
             Inl e \<Rightarrow> Inl e
           | Inr None \<Rightarrow> multi_loop W (drop len cur) out depth
           | Inr (Some sub) \<Rightarrow>
               if sm_emsg sub = EMSG_MULTI then
                 (case decode_multi W (sm_body sub) (depth + 1) of
                    Inl e \<Rightarrow> Inl e
                  | Inr ms \<Rightarrow> multi_loop W (drop len cur) (out @ ms) depth)
               else multi_loop W (drop len cur) (out @ [sub]) depth))"
  by pat_completeness auto
termination
proof (relation "measures
    [case_sum (\<lambda>(W, body, d). 2 * (MAX_MULTI_DEPTH + 1 - d)) (\<lambda>(W, cur, out, d). 2 * (MAX_MULTI_DEPTH - d) + 1),
     case_sum (\<lambda>_. 0) (\<lambda>(W, cur, out, d). length cur)]")
qed auto

declare decode_multi.simps [simp del] multi_loop.simps [simp del]

section \<open>Reading and writing\<close>

fun read_frame :: "ws_stream \<Rightarrow> liveness \<Rightarrow> bytes result poll \<times> ws_stream \<times> liveness" where
  "read_frame [] live = (Pending, [], live)"
| "read_frame ((now, item) # rest) live =
     (case item of
        WsEnd \<Rightarrow> (Ready (Inl (WebSocket ''connection closed'')), rest, live)
      | WsError e \<Rightarrow> (Ready (Inl (error_from_tungstenite e)), rest, live)
      | WsItem m \<Rightarrow>
          let live = touch now live in
          (case m of
             WsBinary data \<Rightarrow> (Ready (Inr data), rest, live)
           | WsClose \<Rightarrow> (Ready (Inl (WebSocket ''server closed the connection'')), rest, live)
           | WsText _ \<Rightarrow> (Ready (Inl (WebSocket ''unexpected text frame from CM'')), rest, live)
           | _ \<Rightarrow> read_frame rest live))"

lemma read_frame_shrinks:
  "read_frame rd live = (p, rd', live') \<Longrightarrow>
     length rd' \<le> length rd \<and> (p \<noteq> Pending \<longrightarrow> length rd' < length rd) \<and> (p = Pending \<longrightarrow> rd' = [])"
proof (induction rd live rule: read_frame.induct)
  case (2 now item rest live)
  show ?case
  proof (cases item)
    case (WsItem m)
    with 2 show ?thesis by (cases m) (fastforce simp: Let_def)+
  qed (use 2 in auto)
qed simp

function read_message ::
    "wire \<Rightarrow> ws_stream \<Rightarrow> steam_message list \<Rightarrow> liveness \<Rightarrow>
     steam_message result poll \<times> ws_stream \<times> steam_message list \<times> liveness" where
  "read_message W rd inbox live =
     (case inbox of
        msg # inbox' \<Rightarrow> (Ready (Inr msg), rd, inbox', live)
      | [] \<Rightarrow>
        (case read_frame rd live of
           (Pending, rd', live') \<Rightarrow> (Pending, rd', [], live')
         | (Ready (Inl e), rd', live') \<Rightarrow> (Ready (Inl e), rd', [], live')
         | (Ready (Inr fr), rd', live') \<Rightarrow>
             (case try_decode (w_dec_header W) fr of
                Inl e \<Rightarrow> (Ready (Inl e), rd', [], live')
              | Inr None \<Rightarrow> read_message W rd' [] live'
              | Inr (Some msg) \<Rightarrow>
                  if sm_emsg msg = EMSG_MULTI then
                    (case decode_multi W (sm_body msg) 0 of
                       Inl e \<Rightarrow> (Ready (Inl e), rd', [], live')
                     | Inr ms \<Rightarrow> read_message W rd' ms live')
                  else (Ready (Inr msg), rd', [], live'))))"
  by pat_completeness auto
termination
  by (relation "measure (\<lambda>(W, rd, inbox, live). length rd)")
    (auto dest!: sym [of _ "read_frame _ _"] read_frame_shrinks)

declare read_message.simps [simp del]

definition write_frame :: "sink \<Rightarrow> bytes \<Rightarrow> unit result \<times> sink" where
  "write_frame k fr = sink_send k (WsBinary fr)"

definition write_ping :: "sink \<Rightarrow> unit result \<times> sink" where
  "write_ping k = sink_send k (WsPing [])"

section \<open>Logon\<close>

definition conn_send ::
    "wire \<Rightarrow> cm_connection \<Rightarrow> u32 \<Rightarrow> ('m \<Rightarrow> bytes) \<Rightarrow> 'm \<Rightarrow> unit result \<times> cm_connection" where
  "conn_send W c emsg enc_body body =
     (let header = default_header\<lparr>hdr_steamid := Some (cc_steam_id c),
                                  hdr_client_sessionid := Some (cc_session_id c)\<rparr>;
          fr = encode (w_enc_header W) enc_body emsg header body
      in case write_frame (cc_write c) fr of (r, k) \<Rightarrow> (r, c\<lparr>cc_write := k\<rparr>))"

definition conn_recv :: "wire \<Rightarrow> cm_connection \<Rightarrow> steam_message result poll \<times> cm_connection" where
  "conn_recv W c =
     (case read_message W (cc_read c) (cc_inbox c) (cc_liveness c) of
        (p, rd, inbox, live) \<Rightarrow> (p, c\<lparr>cc_read := rd, cc_inbox := inbox, cc_liveness := live\<rparr>))"

definition logon_eresult_retryable :: "i32 \<Rightarrow> bool" where
  "logon_eresult_retryable code \<longleftrightarrow>
     code = NO_CONNECTION \<or> code = BUSY \<or> code = TIMEOUT \<or> code = SERVICE_UNAVAILABLE \<or>
     code = TRY_ANOTHER_CM \<or> code = RATE_LIMIT_EXCEEDED"

definition logon_rejection :: "i32 \<Rightarrow> string \<Rightarrow> error" where
  "logon_rejection eresult reason =
     (if logon_eresult_retryable eresult then LogonRetryable reason else AuthRejected reason)"

definition logon_request :: "string \<Rightarrow> string \<Rightarrow> cmsg_client_logon" where
  "logon_request account_name refresh_token =
     \<lparr>cl_protocol_version = Some PROTOCOL_VERSION,
      cl_client_package_version = Some CLIENT_PACKAGE_VERSION,
      cl_client_language = Some ''english'',
      cl_client_os_type = Some CLIENT_OS_WINDOWS_10,
      cl_should_remember_password = Some True,
      cl_account_name = Some account_name,
      cl_access_token = Some refresh_token,
      cl_supports_rate_limit_response = Some True\<rparr>"

text \<open>One turn of the logon loop: \<^const>\<open>None\<close> when the message is ignored.\<close>

definition logon_message ::
    "wire \<Rightarrow> cm_connection \<Rightarrow> steam_message \<Rightarrow> logged_on result option \<times> cm_connection" where
  "logon_message W c msg =
     (if sm_emsg msg = EMSG_CLIENT_LOGON_RESPONSE then
        (case w_dec_logon_response W (sm_body msg) of
           Inl e \<Rightarrow> (Some (Inl (Codec (''decode logon response: '' @ e))), c)
         | Inr resp \<Rightarrow>
             let eresult = unwrap_or FAIL (lr_eresult resp) in
             if eresult \<noteq> OK then
               (Some (Inl (logon_rejection eresult (''CM logon eresult '' @ show_int eresult))), c)
             else
               let c = c\<lparr>cc_steam_id := unwrap_or (cc_steam_id c) (hdr_steamid (sm_header msg)),
                         cc_session_id :=
                           unwrap_or (cc_session_id c) (hdr_client_sessionid (sm_header msg))\<rparr>;
                   hb = max (unwrap_or DEFAULT_HEARTBEAT_SECS (lr_heartbeat_seconds resp)) 1
               in (Some (Inr \<lparr>lo_steam_id = cc_steam_id c, lo_session_id = cc_session_id c,
                              lo_heartbeat_interval = secs (nat hb)\<rparr>), c))
      else if sm_emsg msg = EMSG_CLIENT_LOGGED_OFF then
        let eresult = (case w_dec_logged_off W (sm_body msg) of
                         Inl _ \<Rightarrow> FAIL | Inr m \<Rightarrow> unwrap_or FAIL (lf_eresult m))
        in (Some (Inl (logon_rejection eresult
              (''CM logged us off during logon (eresult '' @ show_int eresult @ '')''))), c)
      else (None, c))"

lemma read_message_Cons [simp]:
  "read_message W rd (msg # inbox) live = (Ready (Inr msg), rd, inbox, live)"
  by (simp add: read_message.simps [of W rd "msg # inbox"])

lemmas read_message_Nil = read_message.simps [of _ _ "[]", simplified]

text \<open>The same loop as a relation: its rule induction is the induction principle of the proofs about
  \<^const>\<open>read_message\<close>.\<close>

inductive reads ::
    "wire \<Rightarrow> ws_stream \<Rightarrow> steam_message list \<Rightarrow> liveness \<Rightarrow>
     steam_message result poll \<times> ws_stream \<times> steam_message list \<times> liveness \<Rightarrow> bool"
  for W :: wire where
  queued: "reads W rd (m # ms) live (Ready (Inr m), rd, ms, live)"
| waits: "read_frame rd live = (Pending, rd', live') \<Longrightarrow> reads W rd [] live (Pending, rd', [], live')"
| fails: "read_frame rd live = (Ready (Inl e), rd', live') \<Longrightarrow>
    reads W rd [] live (Ready (Inl e), rd', [], live')"
| garbled: "read_frame rd live = (Ready (Inr fr), rd', live') \<Longrightarrow>
    try_decode (w_dec_header W) fr = Inl e \<Longrightarrow> reads W rd [] live (Ready (Inl e), rd', [], live')"
| legacy: "read_frame rd live = (Ready (Inr fr), rd', live') \<Longrightarrow>
    try_decode (w_dec_header W) fr = Inr None \<Longrightarrow> reads W rd' [] live' r \<Longrightarrow> reads W rd [] live r"
| bad_multi: "read_frame rd live = (Ready (Inr fr), rd', live') \<Longrightarrow>
    try_decode (w_dec_header W) fr = Inr (Some m) \<Longrightarrow> sm_emsg m = EMSG_MULTI \<Longrightarrow>
    decode_multi W (sm_body m) 0 = Inl e \<Longrightarrow> reads W rd [] live (Ready (Inl e), rd', [], live')"
| multi: "read_frame rd live = (Ready (Inr fr), rd', live') \<Longrightarrow>
    try_decode (w_dec_header W) fr = Inr (Some m) \<Longrightarrow> sm_emsg m = EMSG_MULTI \<Longrightarrow>
    decode_multi W (sm_body m) 0 = Inr ms \<Longrightarrow> reads W rd' ms live' r \<Longrightarrow> reads W rd [] live r"
| single: "read_frame rd live = (Ready (Inr fr), rd', live') \<Longrightarrow>
    try_decode (w_dec_header W) fr = Inr (Some m) \<Longrightarrow> sm_emsg m \<noteq> EMSG_MULTI \<Longrightarrow>
    reads W rd [] live (Ready (Inr m), rd', [], live')"

lemma read_message_reads: "reads W rd inbox live (read_message W rd inbox live)"
proof (induction W rd inbox live rule: read_message.induct)
  case (1 W rd inbox live)
  show ?case
  proof (cases inbox)
    case (Cons m ms)
    then show ?thesis by (simp add: queued)
  next
    case Nil
    obtain q rd1 live1 where f: "read_frame rd live = (q, rd1, live1)" by (metis prod_cases3)
    note IH = "1.IH" [OF Nil f [symmetric] _ _ refl]
    show ?thesis
      unfolding Nil
      by (subst read_message_Nil)
        (use f IH in \<open>auto split: poll.split sum.split option.split intro: reads.intros\<close>)
  qed
qed

lemma read_message_progress:
  assumes "read_message W rd inbox live = (p, rd', inbox', live')"
  shows "length rd' < length rd \<or> (p = Pending \<and> rd' = []) \<or>
     (rd' = rd \<and> length inbox' < length inbox)"
proof -
  have "length rd' < length rd \<or> (p = Pending \<and> rd' = []) \<or> (rd' = rd \<and> length inbox' < length inbox)"
    if "reads W rd inbox live (p, rd', inbox', live')" for W rd inbox live p rd' inbox' live'
    using that
    by (induction rd inbox live "(p, rd', inbox', live')" rule: reads.induct)
      (auto dest!: read_frame_shrinks)
  with read_message_reads [of W rd inbox live] assms show ?thesis by simp
qed

lemma conn_recv_progress:
  assumes "conn_recv W c = (Ready r, c')"
  shows "length (cc_read c') < length (cc_read c) \<or>
         (cc_read c' = cc_read c \<and> length (cc_inbox c') < length (cc_inbox c))"
  using assms by (auto simp: conn_recv_def dest!: read_message_progress split: prod.splits)

lemma logon_message_keeps:
  assumes "logon_message W c msg = (None, c')" shows "c' = c"
  using assms by (auto simp: logon_message_def Let_def split: if_splits sum.splits)

function logon_loop :: "wire \<Rightarrow> cm_connection \<Rightarrow> logged_on result poll \<times> cm_connection" where
  "logon_loop W c =
     (case conn_recv W c of
        (Pending, c') \<Rightarrow> (Pending, c')
      | (Ready (Inl e), c') \<Rightarrow> (Ready (Inl e), c')
      | (Ready (Inr msg), c') \<Rightarrow>
          (case logon_message W c' msg of
             (Some r, c'') \<Rightarrow> (Ready r, c'')
           | (None, c'') \<Rightarrow> logon_loop W c''))"
  by pat_completeness auto
termination
  by (relation "measures [\<lambda>(W, c). length (cc_read c), \<lambda>(W, c). length (cc_inbox c)]")
    (auto dest!: sym [of _ "conn_recv _ _"] sym [of _ "logon_message _ _ _"]
      conn_recv_progress logon_message_keeps)

declare logon_loop.simps [simp del]

definition logon :: "wire \<Rightarrow> cm_connection \<Rightarrow> string \<Rightarrow> string \<Rightarrow> logged_on result poll \<times> cm_connection"
    where
  "logon W c account_name refresh_token =
     (case conn_send W c EMSG_CLIENT_LOGON (w_enc_logon W) (logon_request account_name refresh_token) of
        (Inl e, c') \<Rightarrow> (Ready (Inl e), c')
      | (Inr _, c') \<Rightarrow> logon_loop W c')"

section \<open>Establishing a session\<close>

text \<open>The world an \<^verbatim>\<open>establish\<close> runs in: the outcome of discovery, of the i-th dial, and the time of
  the i-th connection.  The read half of a dialled socket holds what arrives within the attempt's
  time budget; a dial or a logon still pending then is abandoned.\<close>

record 'f connector =
  cn_discover :: "proxy_config option \<Rightarrow> 'f cm_server list result"
  cn_dial :: "nat \<Rightarrow> string \<Rightarrow> proxy_config option \<Rightarrow> steam_web_socket result poll"
  cn_now :: "nat \<Rightarrow> millis"

definition connect :: "'f connector \<Rightarrow> nat \<Rightarrow> string \<Rightarrow> proxy_config option \<Rightarrow> cm_connection result poll"
    where
  "connect C i url proxy =
     (case cn_dial C i url proxy of
        Pending \<Rightarrow> Pending
      | Ready (Inl e) \<Rightarrow> Ready (Inl e)
      | Ready (Inr ws) \<Rightarrow>
          Ready (Inr \<lparr>cc_read = ws_read ws, cc_write = ws_write ws,
                      cc_steam_id = LOGON_HEADER_STEAMID, cc_session_id = 0, cc_inbox = [],
                      cc_liveness = cn_now C i\<rparr>))"

definition attempt ::
    "wire \<Rightarrow> 'f connector \<Rightarrow> nat \<Rightarrow> string \<Rightarrow> string \<Rightarrow> proxy_config option \<Rightarrow> 'f cm_server \<Rightarrow>
     (cm_connection \<times> logged_on) result poll" where
  "attempt W C i account_name refresh_token proxy server =
     (case connect C i (ws_url server) proxy of
        Pending \<Rightarrow> Pending
      | Ready (Inl e) \<Rightarrow> Ready (Inl e)
      | Ready (Inr conn) \<Rightarrow>
          (case logon W conn account_name refresh_token of
             (Pending, _) \<Rightarrow> Pending
           | (Ready (Inl e), _) \<Rightarrow> Ready (Inl e)
           | (Ready (Inr logged), conn') \<Rightarrow> Ready (Inr (conn', logged))))"

fun establish_loop ::
    "(nat \<Rightarrow> 'f cm_server \<Rightarrow> 'r result poll) \<Rightarrow> nat \<Rightarrow> error option \<Rightarrow> 'f cm_server list \<Rightarrow> 'r result" where
  "establish_loop try i last_err [] = Inl (unwrap_or (Network ''no CM servers to connect to'') last_err)"
| "establish_loop try i last_err (server # servers) =
     (case try i server of
        Ready (Inr ok) \<Rightarrow> Inr ok
      | Ready (Inl e) \<Rightarrow>
          if is_auth_rejected e then Inl e else establish_loop try (Suc i) (Some e) servers
      | Pending \<Rightarrow> establish_loop try (Suc i) (Some (Timeout ''cm connect attempt'')) servers)"

definition establish ::
    "wire \<Rightarrow> 'f connector \<Rightarrow> string \<Rightarrow> string \<Rightarrow> proxy_config option \<Rightarrow> (cm_connection \<times> logged_on) result"
    where
  "establish W C account_name refresh_token proxy =
     and_then (cn_discover C proxy) (\<lambda>servers.
       establish_loop (\<lambda>i. attempt W C i account_name refresh_token proxy) 0 None
         (take MAX_CONNECT_ATTEMPTS servers))"

definition into_parts ::
    "cm_connection \<Rightarrow> ws_stream \<times> sink \<times> u64 \<times> i32 \<times> steam_message list \<times> liveness" where
  "into_parts c =
     (cc_read c, cc_write c, cc_steam_id c, cc_session_id c, cc_inbox c, cc_liveness c)"

section \<open>Batches are flattened\<close>

definition no_multi :: "steam_message list \<Rightarrow> bool" where
  "no_multi ms \<longleftrightarrow> (\<forall>m \<in> set ms. sm_emsg m \<noteq> EMSG_MULTI)"

lemma no_multi_simps [simp]:
  "no_multi []"
  "no_multi (m # ms) \<longleftrightarrow> sm_emsg m \<noteq> EMSG_MULTI \<and> no_multi ms"
  "no_multi (ms @ ms') \<longleftrightarrow> no_multi ms \<and> no_multi ms'"
  by (auto simp: no_multi_def)

lemma multi_loop_step:
  fixes W cur
  defines "len \<equiv> unat (u32_from_le (take 4 cur))"
  defines "rest \<equiv> drop len (drop 4 cur)"
  obtains (stop) "multi_loop W cur out d = Inr out"
  | (bad) t where "multi_loop W cur out d = Inl (Codec t)"
  | (go) "\<not> length cur < 4" "\<not> length (drop 4 cur) < len"
    "try_decode (w_dec_header W) (take len (drop 4 cur)) = Inr None"
    "multi_loop W cur out d = multi_loop W rest out d"
  | (push) sub where "\<not> length cur < 4" "\<not> length (drop 4 cur) < len"
    "try_decode (w_dec_header W) (take len (drop 4 cur)) = Inr (Some sub)" "sm_emsg sub \<noteq> EMSG_MULTI"
    "multi_loop W cur out d = multi_loop W rest (out @ [sub]) d"
  | (nested) sub where "\<not> length cur < 4" "\<not> length (drop 4 cur) < len"
    "try_decode (w_dec_header W) (take len (drop 4 cur)) = Inr (Some sub)" "sm_emsg sub = EMSG_MULTI"
    "multi_loop W cur out d = and_then (decode_multi W (sm_body sub) (d + 1)) (\<lambda>ms. multi_loop W rest (out @ ms) d)"
proof -
  have eq: "multi_loop W cur out d = 
     (if length cur < 4 then Inr out
      else if length (drop 4 cur) < len then Inl (Codec ''truncated message inside Multi'')
        else
          (case try_decode (w_dec_header W) (take len (drop 4 cur)) of
             Inl e \<Rightarrow> Inl e
           | Inr None \<Rightarrow> multi_loop W rest out d
           | Inr (Some sub) \<Rightarrow>
               if sm_emsg sub = EMSG_MULTI then
                 and_then (decode_multi W (sm_body sub) (d + 1)) (\<lambda>ms. multi_loop W rest (out @ ms) d)
               else multi_loop W rest (out @ [sub]) d))"
    by (subst multi_loop.simps) (simp only: Let_def len_def rest_def and_then_def)
  show thesis
  proof (cases "length cur < 4")
    case True
    then show ?thesis by (intro stop) (simp only: eq if_True)
  next
    case long: False
    show ?thesis
    proof (cases "length (drop 4 cur) < len")
      case True
      with long show ?thesis by (intro bad) (simp only: eq if_True if_False)
    next
      case False
      note eq' = eq [unfolded if_not_P [OF long] if_not_P [OF False]]
      show ?thesis
      proof (cases "try_decode (w_dec_header W) (take len (drop 4 cur))")
        case (Inl e)
        with eq' try_decode_Codec [OF Inl] bad show ?thesis by auto
      next
        case (Inr v)
        with eq' long False show ?thesis
          by (cases v; cases "sm_emsg (the v) = EMSG_MULTI") (auto intro: go push nested)
      qed
    qed
  qed
qed

lemma multi_flat:
  "decode_multi W body d = Inr ms \<Longrightarrow> no_multi ms"
  "multi_loop W cur out d = Inr ms' \<Longrightarrow> no_multi out \<Longrightarrow> no_multi ms'"
proof (induction W body d and W cur out d arbitrary: ms and ms' rule: decode_multi_multi_loop.induct)
  case (1 W body depth)
  then show ?case
    by (auto simp: decode_multi.simps [of W body] and_then_Inr_iff split: if_splits)
next
  case (2 W cur out depth)
  note IH = "2.IH" [OF _ refl refl]
  show ?case
  proof (cases rule: multi_loop_step [of W cur out depth])
    case go
    show ?thesis by (rule IH(1) [OF go(1-3) refl]) (use 2 go in simp_all)
  next
    case (push sub)
    show ?thesis by (rule IH(4) [OF push(1-3) refl push(4)]) (use 2 push in simp_all)
  next
    case (nested sub)
    with "2.prems" obtain ms where ms: "decode_multi W (sm_body sub) (depth + 1) = Inr ms" 
      by (auto simp: and_then_Inr_iff)
    show ?thesis 
      by (rule IH(3) [OF nested(1-3) refl nested(4) ms]) (use 2 nested ms IH(2) [OF nested(1-3) refl nested(4) ms] in simp_all)
  qed (use 2 in auto)
qed

lemma read_message_no_multi:
  assumes "read_message W rd inbox live = (p, rd', inbox', live')" "no_multi inbox"
  shows "no_multi inbox'" "p = Ready (Inr m) \<Longrightarrow> sm_emsg m \<noteq> EMSG_MULTI"
proof -
  have "no_multi inbox \<Longrightarrow> no_multi inbox' \<and> (\<forall>m. p = Ready (Inr m) \<longrightarrow> sm_emsg m \<noteq> EMSG_MULTI)"
    if "reads W rd inbox live (p, rd', inbox', live')" for W rd inbox live p rd' inbox' live'
    using that
    by (induction rd inbox live "(p, rd', inbox', live')" rule: reads.induct)
      (auto dest: multi_flat(1))
  with read_message_reads [of W rd inbox live] assms
  show "no_multi inbox'" "p = Ready (Inr m) \<Longrightarrow> sm_emsg m \<noteq> EMSG_MULTI" by auto
qed

lemma multi_Codec:
  "decode_multi W body d = Inl e \<Longrightarrow> \<exists>t. e = Codec t"
  "multi_loop W cur out d = Inl e' \<Longrightarrow> \<exists>t. e' = Codec t"
proof (induction W body d and W cur out d arbitrary: e and e' rule: decode_multi_multi_loop.induct)
  case (1 W body depth)
  then show ?case
    by (auto simp: decode_multi.simps [of W body] and_then_def map_err_def multi_payload_def
        gunzip_def Let_def split: if_splits sum.splits prod.splits option.splits)
next
  case (2 W cur out depth)
  note IH = "2.IH" [OF _ refl refl]
  show ?case
  proof (cases rule: multi_loop_step [of W cur out depth])
    case go
    show ?thesis by (rule IH(1) [OF go(1-3) refl]) (use 2 go in simp_all)
  next
    case (push sub)
    show ?thesis by (rule IH(4) [OF push(1-3) refl push(4)]) (use 2 push in simp_all)
  next
    case (nested sub)
    note IH2 = IH(2) [OF nested(1-3) refl nested(4)]
    show ?thesis
    proof (cases "decode_multi W (sm_body sub) (depth + 1)")
      case (Inl x)
      with "2.prems" nested IH2 show ?thesis by simp
    next
      case (Inr ms)
      show ?thesis by (rule IH(3) [OF nested(1-3) refl nested(4) Inr]) (use 2 nested Inr in simp_all)
    qed
  qed (use 2 in auto)
qed

lemma read_frame_error:
  "read_frame rd live = (Ready (Inl e), rd', live') \<Longrightarrow> \<exists>t. e = WebSocket t"
  by (induction rd live rule: read_frame.induct)
    (auto simp: Let_def error_from_tungstenite_def split: ws_item.splits ws_message.splits)

lemma read_message_error:
  assumes "read_message W rd inbox live = (Ready (Inl e), rd', inbox', live')"
  shows "(\<exists>t. e = WebSocket t) \<or> (\<exists>t. e = Codec t)"
proof -
  have "(\<exists>t. e = WebSocket t) \<or> (\<exists>t. e = Codec t)"
    if "reads W rd inbox live (Ready (Inl e), rd', inbox', live')" for W rd inbox live e rd' inbox' live'
    using that
    by (induction rd inbox live "(Ready (Inl e) :: steam_message result poll, rd', inbox', live')"
        rule: reads.induct)
      (auto dest: read_frame_error try_decode_Codec multi_Codec(1))
  with read_message_reads [of W rd inbox live] assms show ?thesis by simp
qed

section \<open>A batch is delivered whole and in order\<close>

text \<open>The payload of a batch: every frame after its length.\<close>

definition batch :: "bytes list \<Rightarrow> bytes" where
  "batch fs = concat (map (\<lambda>f. u32_to_le (of_nat (length f)) @ f) fs)"

lemma multi_loop_frame:
  assumes "length f < 2 ^ 32" "try_decode (w_dec_header W) f = Inr (Some m)" "sm_emsg m \<noteq> EMSG_MULTI"
  shows "multi_loop W (u32_to_le (of_nat (length f)) @ f @ cur) out d = multi_loop W cur (out @ [m]) d"
proof -
  have "unat (of_nat (length f) :: u32) = length f"
    using assms(1) by (simp add: unsigned_of_nat take_bit_nat_eq_self)
  then show ?thesis using assms by (subst multi_loop.simps) simp
qed

lemma multi_loop_batch:
  assumes "list_all2 (\<lambda>f m. length f < 2 ^ 32 \<and> try_decode (w_dec_header W) f = Inr (Some m) \<and>
             sm_emsg m \<noteq> EMSG_MULTI) fs ms"
  shows "multi_loop W (batch fs) out d = Inr (out @ ms)"
  using assms
proof (induction fs ms arbitrary: out rule: list_all2_induct)
  case Nil
  then show ?case by (subst multi_loop.simps) (simp add: batch_def)
next
  case (Cons f fs m ms)
  have "batch (f # fs) = u32_to_le (of_nat (length f)) @ f @ batch fs" by (simp add: batch_def)
  with Cons show ?case by (simp add: multi_loop_frame)
qed

lemma decode_multi_batch:
  assumes "d \<le> MAX_MULTI_DEPTH" "w_dec_multi W body = Inr multi" "multi_payload W multi = Inr (batch fs)"
    and "list_all2 (\<lambda>f m. length f < 2 ^ 32 \<and> try_decode (w_dec_header W) f = Inr (Some m) \<and>
             sm_emsg m \<noteq> EMSG_MULTI) fs ms"
  shows "decode_multi W body d = Inr ms"
  using assms by (simp add: decode_multi.simps [of W body] multi_loop_batch)

primrec recv_all :: "wire \<Rightarrow> nat \<Rightarrow> cm_connection \<Rightarrow> steam_message list \<times> cm_connection" where
  "recv_all W 0 c = ([], c)"
| "recv_all W (Suc n) c =
     (case conn_recv W c of
        (Ready (Inr m), c') \<Rightarrow> (case recv_all W n c' of (ms, c'') \<Rightarrow> (m # ms, c''))
      | (_, c') \<Rightarrow> ([], c'))"

lemma recv_all_inbox: "recv_all W (length ms) (c\<lparr>cc_inbox := ms\<rparr>) = (ms, c\<lparr>cc_inbox := []\<rparr>)"
proof (induction ms arbitrary: c)
  case (Cons m ms)
  have "conn_recv W (c\<lparr>cc_inbox := m # ms\<rparr>) = (Ready (Inr m), c\<lparr>cc_inbox := ms\<rparr>)"
    by (simp add: conn_recv_def)
  with Cons show ?case by simp
qed simp

text \<open>C17: a \<^verbatim>\<open>Multi\<close> frame, compressed or not, is delivered whole, in order and without loss: as many
  calls of \<^verbatim>\<open>recv\<close> as the batch has messages return exactly its messages, and leave the connection
  with an empty buffer and the frames behind the batch unread.\<close>

theorem multi_delivered_in_order:
  assumes "cc_inbox c = []" "cc_read c = (t, WsItem (WsBinary (frame EMSG_MULTI hb body))) # rd"
    and "length hb < 2 ^ 32" "w_dec_header W hb = Inr h"
    and "w_dec_multi W body = Inr multi" "multi_payload W multi = Inr (batch fs)"
    and "list_all2 (\<lambda>f m. length f < 2 ^ 32 \<and> try_decode (w_dec_header W) f = Inr (Some m) \<and>
             sm_emsg m \<noteq> EMSG_MULTI) fs ms" "ms \<noteq> []"
  shows "recv_all W (length ms) c = (ms, c\<lparr>cc_read := rd, cc_liveness := t\<rparr>)"
proof -
  obtain m ms' where ms: "ms = m # ms'" using assms(8) by (cases ms) auto
  have d: "decode_multi W body 0 = Inr ms" using assms(5-7) by (intro decode_multi_batch) simp_all
  have f: "try_decode (w_dec_header W) (frame EMSG_MULTI hb body) =
      Inr (Some \<lparr>sm_emsg = EMSG_MULTI, sm_header = h, sm_body = body\<rparr>)"
    using try_decode_frame [where dec = "w_dec_header W", OF assms(3,4), of EMSG_MULTI body]
    by (simp add: EMSG_MASK_def PROTO_MASK_def)
  have "conn_recv W c = (Ready (Inr m), c\<lparr>cc_read := rd, cc_liveness := t\<rparr>\<lparr>cc_inbox := ms'\<rparr>)"
    unfolding conn_recv_def assms(1,2)
    by (subst read_message_Nil) (simp add: f d ms touch_def del: EMSG_MULTI_def)
  then show ?thesis
    using recv_all_inbox [of W ms' "c\<lparr>cc_read := rd, cc_liveness := t\<rparr>"] assms(1) by (simp add: ms)
qed

text \<open>\<^verbatim>\<open>recv\<close> never hands a \<^verbatim>\<open>Multi\<close> to its caller, nor leaves one in the buffer, however deeply
  batches are nested in each other.\<close>

theorem recv_never_multi:
  assumes "no_multi (cc_inbox c)" "conn_recv W c = (p, c')"
  shows "no_multi (cc_inbox c') \<and> (\<forall>m. p = Ready (Inr m) \<longrightarrow> sm_emsg m \<noteq> EMSG_MULTI)"
proof -
  obtain rd inbox live where r: "read_message W (cc_read c) (cc_inbox c) (cc_liveness c) = (p, rd, inbox, live)"
    and c': "cc_inbox c' = inbox"
    using assms(2) by (auto simp: conn_recv_def split: prod.splits)
  show ?thesis using read_message_no_multi [OF r assms(1)] c' by auto
qed

section \<open>Bounds on hostile batches\<close>

text \<open>A frame of a batch: one that holds no batch, or one that holds a batch, with its header, its body and
  the frames the body unpacks to.\<close>

datatype packed =
    Plain bytes
  | Batched bytes bytes "packed list"

fun frame_of :: "packed \<Rightarrow> bytes" where
  "frame_of (Plain f) = f"
| "frame_of (Batched hb body ts) = frame EMSG_MULTI hb body"

text \<open>Nothing in it is broken: lengths fit, headers and bodies decode, payloads unpack; a frame that the
  decoder passes over counts as whole.\<close>

primrec well_packed :: "wire \<Rightarrow> packed \<Rightarrow> bool" where
  "well_packed W (Plain f) \<longleftrightarrow> length f < 2 ^ 32 \<and>
     (case try_decode (w_dec_header W) f of
        Inl _ \<Rightarrow> False | Inr None \<Rightarrow> True | Inr (Some m) \<Rightarrow> sm_emsg m \<noteq> EMSG_MULTI)"
| "well_packed W (Batched hb body ts) \<longleftrightarrow>
     length (frame EMSG_MULTI hb body) < 2 ^ 32 \<and> is_ok (w_dec_header W hb) \<and>
     (case w_dec_multi W body of
        Inl _ \<Rightarrow> False
      | Inr multi \<Rightarrow> multi_payload W multi = Inr (batch (map frame_of ts))) \<and>
     list_all id (map (well_packed W) ts)"

text \<open>Its messages from left to right, and how many batches are inside one another.\<close>

primrec packed_messages :: "wire \<Rightarrow> packed \<Rightarrow> steam_message list" where
  "packed_messages W (Plain f) =
     (case try_decode (w_dec_header W) f of Inr (Some m) \<Rightarrow> [m] | _ \<Rightarrow> [])"
| "packed_messages W (Batched hb body ts) = concat (map (packed_messages W) ts)"

primrec packed_depth :: "packed \<Rightarrow> nat" where
  "packed_depth (Plain f) = 0"
| "packed_depth (Batched hb body ts) = Suc (fold max (map packed_depth ts) 0)"

definition too_deep :: "steam_message list result" where
  "too_deep = Inl (Codec (''Multi nested deeper than '' @ show_nat MAX_MULTI_DEPTH))"

lemma fold_max_le: "fold max ns (k :: nat) \<le> n \<longleftrightarrow> k \<le> n \<and> list_all (\<lambda>i. i \<le> n) ns"
  by (induction ns arbitrary: k) auto

lemma batch_Cons: "batch (f # fs) = u32_to_le (of_nat (length f)) @ f @ batch fs"
  by (simp add: batch_def)

lemma multi_loop_Cons:
  assumes "length f < 2 ^ 32"
  shows "multi_loop W (batch (f # fs)) out d =
    (case try_decode (w_dec_header W) f of
       Inl e \<Rightarrow> Inl e
     | Inr None \<Rightarrow> multi_loop W (batch fs) out d
     | Inr (Some sub) \<Rightarrow>
         if sm_emsg sub = EMSG_MULTI then
           (case decode_multi W (sm_body sub) (d + 1) of
              Inl e \<Rightarrow> Inl e | Inr ms \<Rightarrow> multi_loop W (batch fs) (out @ ms) d)
         else multi_loop W (batch fs) (out @ [sub]) d)"
proof -
  have "unat (of_nat (length f) :: u32) = length f"
    using assms by (simp add: unsigned_of_nat take_bit_nat_eq_self)
  then show ?thesis unfolding batch_Cons by (subst multi_loop.simps) (simp add: Let_def del: EMSG_MULTI_def split: sum.split option.split)
qed

lemma try_decode_batched:
  assumes "well_packed W (Batched hb body ts)"
  shows "\<exists>h. try_decode (w_dec_header W) (frame EMSG_MULTI hb body) = Inr (Some \<lparr>sm_emsg = EMSG_MULTI, sm_header = h, sm_body = body\<rparr>)"
proof -
  obtain h where h: "w_dec_header W hb = Inr h" using assms by (cases "w_dec_header W hb") auto
  have "length hb < 2 ^ 32" using assms by simp
  from try_decode_frame [where dec = "w_dec_header W", OF this h, of EMSG_MULTI body] show ?thesis
    by (simp add: EMSG_MASK_def PROTO_MASK_def)
qed

lemma multi_loop_packed:
  assumes "\<And>hb body us d. Batched hb body us \<in> set ts \<Longrightarrow>
      decode_multi W body d = (if d + packed_depth (Batched hb body us) \<le> Suc MAX_MULTI_DEPTH
        then Inr (packed_messages W (Batched hb body us)) else too_deep)"
    and "list_all (well_packed W) ts" "d \<le> MAX_MULTI_DEPTH"
  shows "multi_loop W (batch (map frame_of ts)) out d =
    (if list_all (\<lambda>t. Suc d + packed_depth t \<le> Suc MAX_MULTI_DEPTH) ts
     then Inr (out @ concat (map (packed_messages W) ts)) else too_deep)"
  using assms
proof (induction ts arbitrary: out)
  case Nil
  show ?case by (subst multi_loop.simps) (simp add: batch_def)
next
  case (Cons t ts)
  note IH = Cons.IH [OF Cons.prems(1)]
  show ?case
  proof (cases t)
    case (Plain f)
    then show ?thesis using Cons.prems(2,3) IH
      by (auto simp: multi_loop_Cons split: sum.splits option.splits)
  next
    case (Batched hb body us)
    then obtain h where h: "try_decode (w_dec_header W) (frame EMSG_MULTI hb body) =
        Inr (Some \<lparr>sm_emsg = EMSG_MULTI, sm_header = h, sm_body = body\<rparr>)"
      using Cons.prems(2) try_decode_batched [of W hb body us] by auto
    have len: "length (frame EMSG_MULTI hb body) < 2 ^ 32" using Cons.prems(2) Batched by simp
    show ?thesis using Cons.prems(2,3) IH Cons.prems(1) [of hb body us "d + 1"] Batched
      by (simp add: multi_loop_Cons [OF len] h too_deep_def del: EMSG_MULTI_def packed_depth.simps length_frame)
  qed
qed

lemma decode_multi_packed:
  assumes "well_packed W t" "t = Batched hb body ts"
  shows "decode_multi W body d =
    (if d + packed_depth (Batched hb body ts) \<le> Suc MAX_MULTI_DEPTH
     then Inr (packed_messages W (Batched hb body ts)) else too_deep)"
  using assms
proof (induction t arbitrary: hb body ts d)
  case (Batched x y vs hb body ts d)
  obtain multi where m: "w_dec_multi W body = Inr multi" "multi_payload W multi = Inr (batch (map frame_of ts))"
    using Batched.prems by (auto split: sum.splits)
  have all: "list_all (well_packed W) ts" using Batched.prems by (simp add: list_all_iff)
  have "decode_multi W body' d' = (if d' + packed_depth (Batched hb' body' us) \<le> Suc MAX_MULTI_DEPTH
      then Inr (packed_messages W (Batched hb' body' us)) else too_deep)" if "Batched hb' body' us \<in> set ts" for hb' body' us d'
  proof (rule Batched.IH)
    show "Batched hb' body' us \<in> set vs" using that Batched.prems(2) by simp
    show "well_packed W (Batched hb' body' us)" using that all by (auto simp only: list_all_iff)
  qed (rule refl)
  note loop = multi_loop_packed [OF this all, of d "[]"]
  have depth: "d + packed_depth (Batched hb body ts) \<le> Suc MAX_MULTI_DEPTH \<longleftrightarrow>
      d \<le> MAX_MULTI_DEPTH \<and> list_all (\<lambda>t. Suc d + packed_depth t \<le> Suc MAX_MULTI_DEPTH) ts"
  proof (cases "d \<le> MAX_MULTI_DEPTH")
    case True
    then show ?thesis using fold_max_le [of "map packed_depth ts" 0 "MAX_MULTI_DEPTH - d"]
      by (auto simp: list_all_iff)
  qed simp
  show ?case
  proof (cases "d \<le> MAX_MULTI_DEPTH")
    case True
    then show ?thesis using loop depth m by (simp add: decode_multi.simps [of W body] del: packed_depth.simps)
  next
    case False
    then show ?thesis using depth by (simp add: decode_multi.simps [of W body] too_deep_def)
  qed
qed simp

text \<open>C22: batches in batches, for every shape of the nesting.  A batch in which nothing is broken, with any
  number of frames and further batches beside and inside one another, is unpacked into all its
  messages from left to right if at most five batches are inside one another, and refused as nested
  too deep otherwise, wherever in it the sixth is.\<close>

theorem multi_nesting_bounded:
  assumes "well_packed W (Batched hb body ts)"
  shows "decode_multi W body 0 =
    (if packed_depth (Batched hb body ts) \<le> 5
     then Inr (concat (map (packed_messages W) ts))
     else Inl (Codec ''Multi nested deeper than 4''))"
proof -
  have "show_nat 4 = ''4''" by code_simp
  with decode_multi_packed [OF assms refl, of 0] show ?thesis
    by (simp add: MAX_MULTI_DEPTH_def too_deep_def del: packed_depth.simps show_nat.simps)
qed

text \<open>Decompression is bounded: a payload that a compressed batch is unpacked from is the whole
  output of the decoder and at most 8 MiB; a larger declared size is refused before the decoder is
  asked for anything, so the outcome does not depend on it.\<close>

theorem multi_payload_bounded:
  assumes "unat (unwrap_or 0 (mu_size_unzipped multi)) \<noteq> 0"
  shows "(\<forall>p. multi_payload W multi = Inr p \<longrightarrow>
            length p \<le> 8388608 \<and> w_inflate W (unwrap_or [] (mu_message_body multi)) = (p, None)) \<and>
         (unat (unwrap_or 0 (mu_size_unzipped multi)) > 8388608 \<longrightarrow>
            (\<forall>f. multi_payload (W\<lparr>w_inflate := f\<rparr>) multi = multi_payload W multi) \<and>
            \<not> is_ok (multi_payload W multi))"
  using assms
  by (auto simp: multi_payload_def Let_def gunzip_def MAX_MULTI_UNZIPPED_def
      split: if_splits prod.splits option.splits)

section \<open>Liveness\<close>

definition arrivals :: "ws_stream \<Rightarrow> millis list" where
  "arrivals used = map fst (filter (\<lambda>(t, i). case i of WsItem _ \<Rightarrow> True | _ \<Rightarrow> False) used)"

lemma arrivals_simps [simp]:
  "arrivals [] = []"
  "arrivals ((t, WsItem m) # used) = t # arrivals used"
  "arrivals ((t, WsError e) # used) = arrivals used"
  "arrivals ((t, WsEnd) # used) = arrivals used"
  "arrivals (u @ used) = arrivals u @ arrivals used"
  by (simp_all add: arrivals_def)

text \<open>The time of the last frame of a stretch of input, or the clock before it.\<close>

definition stamped :: "liveness \<Rightarrow> ws_stream \<Rightarrow> liveness" where
  "stamped live used = last (live # arrivals used)"

lemma stamped_simps [simp]:
  "stamped live [] = live"
  "stamped live ((t, WsItem m) # used) = stamped t used"
  "stamped live ((t, WsError e) # used) = stamped live used"
  "stamped live ((t, WsEnd) # used) = stamped live used"
  by (simp_all add: stamped_def)

lemma stamped_append: "stamped (stamped live used) used' = stamped live (used @ used')"
  by (simp add: stamped_def)

lemma read_frame_arrivals:
  "read_frame rd live = (p, rd', live') \<Longrightarrow>
     \<exists>used. rd = used @ rd' \<and> live' = stamped live used"
proof (induction rd live rule: read_frame.induct)
  case (2 now item rest live)
  show ?case
  proof (cases item)
    case (WsItem m)
    show ?thesis
    proof (cases "read_frame rest now = (p, rd', live')")
      case True
      then have "\<exists>used. rest = used @ rd' \<and> live' = stamped now used"
        if "m \<in> {WsPing b, WsPong b, WsFrame}" for b
        using that 2 WsItem by (cases m) (auto simp: touch_def)
      with 2 WsItem show ?thesis
        by (cases m) (auto simp: touch_def Let_def intro: exI [of _ "(now, WsItem m) # _"])
    next
      case False
      with 2 WsItem show ?thesis
        by (cases m) (auto simp: touch_def Let_def intro: exI [of _ "[(now, WsItem m)]"])
    qed
  qed (use 2 in \<open>auto intro: exI [of _ "[(now, item)]"]\<close>)
qed simp

lemma reads_arrivals:
  "reads W rd inbox live r \<Longrightarrow>
     \<exists>used. rd = used @ fst (snd r) \<and> snd (snd (snd r)) = stamped live used"
proof (induction rule: reads.induct)
  case (legacy rd live fr rd' live' r)
  from read_frame_arrivals [OF legacy(1)] legacy.IH show ?case
    by (metis append.assoc stamped_append)
next
  case (multi rd live fr rd' live' m ms r)
  from read_frame_arrivals [OF multi(1)] multi.IH show ?case
    by (metis append.assoc stamped_append)
qed (auto dest: read_frame_arrivals)

text \<open>every WebSocket frame that is consumed while waiting for a message stamps the liveness
  clock, control frames and the frames of a failed read included, and nothing else does: after
  \<^verbatim>\<open>recv\<close> the clock is the arrival time of the last frame taken off the socket, or unchanged when
  none was.\<close>

theorem recv_stamps_liveness:
  assumes "conn_recv W c = (p, c')"
  shows "\<exists>used. cc_read c = used @ cc_read c' \<and> cc_liveness c' = last (cc_liveness c # arrivals used)"
  using reads_arrivals [OF read_message_reads [of W "cc_read c" "cc_inbox c" "cc_liveness c"]] assms
  by (auto simp: conn_recv_def stamped_def split: prod.splits)

section \<open>Logon\<close>

lemma conn_recv_keeps:
  assumes "conn_recv W c = (p, c')"
  shows "cc_write c' = cc_write c" "cc_steam_id c' = cc_steam_id c" "cc_session_id c' = cc_session_id c"
  using assms by (auto simp: conn_recv_def split: prod.splits)

text \<open>The \<^verbatim>\<open>EResult\<close> with which a message ends the logon exchange.\<close>

definition logon_verdict :: "wire \<Rightarrow> steam_message \<Rightarrow> i32 option" where
  "logon_verdict W msg =
     (if sm_emsg msg = EMSG_CLIENT_LOGON_RESPONSE then
        (case w_dec_logon_response W (sm_body msg) of
           Inl _ \<Rightarrow> None | Inr resp \<Rightarrow> Some (unwrap_or FAIL (lr_eresult resp)))
      else if sm_emsg msg = EMSG_CLIENT_LOGGED_OFF then
        (case w_dec_logged_off W (sm_body msg) of
           Inl _ \<Rightarrow> Some FAIL | Inr m \<Rightarrow> Some (unwrap_or FAIL (lf_eresult m)))
      else None)"

lemma logon_rejection_codes:
  "logon_rejection code reason =
     (if code \<in> {3, 10, 16, 20, 48, 84} then LogonRetryable reason else AuthRejected reason)"
  by (auto simp: logon_rejection_def logon_eresult_retryable_def)

text \<open>What a message says against a logon: a response that does not decode or carries a failure, or a logoff
  with any code, each as the error it stands for.\<close>

definition refuses_logon :: "wire \<Rightarrow> steam_message \<Rightarrow> error \<Rightarrow> bool" where
  "refuses_logon W msg e \<longleftrightarrow>
     sm_emsg msg = 751 \<and> (\<exists>t. w_dec_logon_response W (sm_body msg) = Inl t \<and> e = Codec (''decode logon response: '' @ t)) \<or>
     (\<exists>code reason. logon_verdict W msg = Some code \<and> (sm_emsg msg = 751 \<longrightarrow> code \<noteq> 1) \<and>
        reason = (if sm_emsg msg = 751 then ''CM logon eresult '' @ show_int code
          else ''CM logged us off during logon (eresult '' @ show_int code @ '')'') \<and>
        e = (if code \<in> {3, 10, 16, 20, 48, 84} then LogonRetryable reason else AuthRejected reason))"

lemma logon_message_err: "logon_message W c msg = (Some (Inl e), c') \<Longrightarrow> refuses_logon W msg e"
  unfolding refuses_logon_def logon_rejection_codes [symmetric]
  by (auto simp: logon_message_def logon_verdict_def Let_def split: if_splits sum.splits)

text \<open>The loop ends with a read error, or with what one message decided; the messages received before it are
  neither logon responses nor logoffs.\<close>

lemma unwrap_or_case: "unwrap_or d x = (case x of None \<Rightarrow> d | Some v \<Rightarrow> v)"
  by (cases x) simp_all

lemma logon_message_ignored:
  "logon_message W c msg = (None, c') \<Longrightarrow> sm_emsg msg \<notin> {751, 757}"
  by (auto simp: logon_message_def Let_def split: if_splits sum.splits)

lemma recv_all_snoc:
  assumes "recv_all W (length ms) c = (ms, c1)" "conn_recv W c1 = (Ready (Inr m), c2)"
  shows "recv_all W (Suc (length ms)) c = (ms @ [m], c2)"
  using assms(1)
proof (induction ms arbitrary: c)
  case Nil
  then show ?case using assms(2) by simp
next
  case (Cons x ms)
  obtain p c0 where recv: "conn_recv W c = (p, c0)" by fastforce
  with Cons.prems obtain rest where "p = Ready (Inr x)" "recv_all W (length ms) c0 = (ms, c1)"
    by (auto split: poll.splits sum.splits prod.splits)
  with Cons.IH [of c0] recv show ?case by simp
qed

lemma conn_recv_write: "conn_recv W (c\<lparr>cc_write := k\<rparr>) = (fst (conn_recv W c), (snd (conn_recv W c))\<lparr>cc_write := k\<rparr>)"
  by (simp add: conn_recv_def split: prod.split)

lemma recv_all_write: "recv_all W n (c\<lparr>cc_write := k\<rparr>) = (fst (recv_all W n c), (snd (recv_all W n c))\<lparr>cc_write := k\<rparr>)"
proof (induction n arbitrary: c)
  case (Suc n)
  obtain p c1 where "conn_recv W c = (p, c1)" by fastforce
  with conn_recv_write [of W k c] Suc [of c1] show ?case by (auto split: poll.split sum.split prod.split)
qed simp

lemma recv_all_keeps:
  "cc_write (snd (recv_all W n c)) = cc_write c \<and> cc_steam_id (snd (recv_all W n c)) = cc_steam_id c \<and>
   cc_session_id (snd (recv_all W n c)) = cc_session_id c"
proof (induction n arbitrary: c)
  case (Suc n)
  obtain p c1 where recv: "conn_recv W c = (p, c1)" by fastforce
  with conn_recv_keeps [OF recv] Suc.IH [of c1] show ?case by (auto split: poll.split sum.split prod.split)
qed simp

lemma logon_loop_origin:
  "logon_loop W c = (Ready r, c') \<Longrightarrow>
     \<exists>before c1. recv_all W (length before) c = (before, c1) \<and> (\<forall>m \<in> set before. sm_emsg m \<notin> {751, 757}) \<and>
       ((\<exists>e. conn_recv W c1 = (Ready (Inl e), c') \<and> r = Inl e) \<or>
        (\<exists>msg c2. conn_recv W c1 = (Ready (Inr msg), c2) \<and> logon_message W c2 msg = (Some r, c')))"
proof (induction W c rule: logon_loop.induct)
  case (1 W c)
  obtain p c1 where recv: "conn_recv W c = (p, c1)" by fastforce
  have first: ?case if "(\<exists>e. conn_recv W c = (Ready (Inl e), c') \<and> r = Inl e) \<or>
      (\<exists>msg c2. conn_recv W c = (Ready (Inr msg), c2) \<and> logon_message W c2 msg = (Some r, c'))"
    using that by (intro exI [of _ "[]"] exI [of _ c]) auto
  show ?case
  proof (cases p)
    case Pending
    with "1.prems" recv show ?thesis by (simp add: logon_loop.simps [of W c])
  next
    case (Ready x)
    show ?thesis
    proof (cases x)
      case (Inl e)
      with "1.prems" recv Ready show ?thesis by (intro first) (auto simp: logon_loop.simps [of W c])
    next
      case (Inr msg)
      obtain d c2 where m: "logon_message W c1 msg = (d, c2)" by fastforce
      show ?thesis
      proof (cases d)
        case None
        with m have c2: "c2 = c1" using logon_message_keeps by blast
        from "1.prems" recv Ready Inr m None have "logon_loop W c2 = (Ready r, c')"
          by (simp add: logon_loop.simps [of W c])
        with "1.IH" [OF recv [symmetric] Ready Inr m [symmetric] None] c2 obtain before c3 where
          "recv_all W (length before) c1 = (before, c3)" "\<forall>m \<in> set before. sm_emsg m \<notin> {751, 757}"
          "(\<exists>e. conn_recv W c3 = (Ready (Inl e), c') \<and> r = Inl e) \<or>
           (\<exists>msg c2. conn_recv W c3 = (Ready (Inr msg), c2) \<and> logon_message W c2 msg = (Some r, c'))"
          by blast
        then show ?thesis using recv Ready Inr logon_message_ignored [OF m [unfolded None]]
          by (intro exI [of _ "msg # before"] exI [of _ c3]) simp
      next
        case (Some r')
        with "1.prems" recv Ready Inr m show ?thesis by (intro first) (auto simp: logon_loop.simps [of W c])
      qed
    qed
  qed
qed

definition logon_frame :: "wire \<Rightarrow> cm_connection \<Rightarrow> string \<Rightarrow> string \<Rightarrow> ws_message" where
  "logon_frame W c account token =
     WsBinary (encode (w_enc_header W) (w_enc_logon W) EMSG_CLIENT_LOGON
       (default_header\<lparr>hdr_steamid := Some (cc_steam_id c), hdr_client_sessionid := Some (cc_session_id c)\<rparr>)
       (logon_request account token))"

lemma conn_send_logon:
  assumes "conn_send W c EMSG_CLIENT_LOGON (w_enc_logon W) (logon_request account token) = (r, c')"
  shows "(\<exists>t. r = Inl (WebSocket t)) \<or>
    r = Inr () \<and> (\<exists>k. c' = c\<lparr>cc_write := k\<rparr> \<and> sk_sent k = sk_sent (cc_write c) @ [logon_frame W c account token])"
  using assms by (auto simp: conn_send_def write_frame_def logon_frame_def dest!: sink_send_cases split: prod.splits)

lemma logon_origin:
  assumes "logon W c account token = (Ready r, c')"
  shows "(\<exists>t. r = Inl (WebSocket t) \<and>
      fst (conn_send W c EMSG_CLIENT_LOGON (w_enc_logon W) (logon_request account token)) = Inl (WebSocket t)) \<or>
    (\<exists>k before c1. sk_sent k = sk_sent (cc_write c) @ [logon_frame W c account token] \<and>
      recv_all W (length before) c = (before, c1) \<and> (\<forall>m \<in> set before. sm_emsg m \<notin> {751, 757}) \<and>
      ((\<exists>e. fst (conn_recv W c1) = Ready (Inl e) \<and> r = Inl e) \<or>
       (\<exists>msg c2. conn_recv W c1 = (Ready (Inr msg), c2) \<and> logon_message W (c2\<lparr>cc_write := k\<rparr>) msg = (Some r, c'))))"
proof -
  obtain s c0 where send: "conn_send W c EMSG_CLIENT_LOGON (w_enc_logon W) (logon_request account token) = (s, c0)"
    by fastforce
  show ?thesis
  proof (cases s)
    case (Inl e)
    then show ?thesis using conn_send_logon [OF send] assms send by (auto simp: logon_def)
  next
    case (Inr u)
    with conn_send_logon [OF send] obtain k where k: "c0 = c\<lparr>cc_write := k\<rparr>"
      "sk_sent k = sk_sent (cc_write c) @ [logon_frame W c account token]" by auto
    have "logon_loop W c0 = (Ready r, c')" using assms send Inr by (simp add: logon_def)
    from logon_loop_origin [OF this] obtain before c1 where
      o: "recv_all W (length before) c0 = (before, c1)" "\<forall>m \<in> set before. sm_emsg m \<notin> {751, 757}"
        "(\<exists>e. conn_recv W c1 = (Ready (Inl e), c') \<and> r = Inl e) \<or>
         (\<exists>msg c2. conn_recv W c1 = (Ready (Inr msg), c2) \<and> logon_message W c2 msg = (Some r, c'))" by blast
    obtain c3 where c3: "recv_all W (length before) c = (before, c3)" "c1 = c3\<lparr>cc_write := k\<rparr>"
      using o(1) recv_all_write [of W "length before" k c] k(1) by (cases "recv_all W (length before) c") auto
    obtain p c4 where "conn_recv W c3 = (p, c4)" by fastforce
    then show ?thesis using o c3 k(2) conn_recv_write [of W k c3]
      by (intro disjI2 exI [of _ k] exI [of _ before] exI [of _ c3]) auto
  qed
qed

text \<open>C20: a logon that succeeds was acknowledged by Steam.  The connection delivered, after any messages that
  are neither a logon response nor a logoff, a logon response with \<^verbatim>\<open>EResult OK\<close>; SteamID and session id are
  the ones in the header of that message, or as before where it has none, and the heartbeat interval is
  the one in its body, nine seconds where it has none and never under one second.  The connection
  carries these ids, nothing behind that message has been read, and exactly one message has been
  written, the \<^verbatim>\<open>CMsgClientLogon\<close> with the caller's account name and token.\<close>

theorem logon_success:
  assumes "logon W c account token = (Ready (Inr lo), c')"
  shows "\<exists>before msg resp rest.
    fst (recv_all W (Suc (length before)) c) = before @ [msg] \<and> snd (recv_all W (Suc (length before)) c) = rest \<and>
    (\<forall>m \<in> set before. sm_emsg m \<notin> {751, 757}) \<and>
    sm_emsg msg = 751 \<and> w_dec_logon_response W (sm_body msg) = Inr resp \<and> lr_eresult resp = Some 1 \<and>
    lo = \<lparr>lo_steam_id = (case hdr_steamid (sm_header msg) of None \<Rightarrow> cc_steam_id c | Some sid \<Rightarrow> sid),
          lo_session_id = (case hdr_client_sessionid (sm_header msg) of None \<Rightarrow> cc_session_id c | Some s \<Rightarrow> s),
          lo_heartbeat_interval = 1000 * nat (max 1 (case lr_heartbeat_seconds resp of None \<Rightarrow> 9 | Some s \<Rightarrow> s))\<rparr> \<and>
    cc_steam_id c' = lo_steam_id lo \<and> cc_session_id c' = lo_session_id lo \<and>
    cc_read c' = cc_read rest \<and> cc_inbox c' = cc_inbox rest \<and>
    sk_sent (cc_write c') = sk_sent (cc_write c) @
      [WsBinary (encode (w_enc_header W) (w_enc_logon W) EMSG_CLIENT_LOGON
         (default_header\<lparr>hdr_steamid := Some (cc_steam_id c), hdr_client_sessionid := Some (cc_session_id c)\<rparr>)
         (logon_request account token))]"
proof -
  from logon_origin [OF assms] obtain k before c1 msg c2 where
    k: "sk_sent k = sk_sent (cc_write c) @ [logon_frame W c account token]"
    and o: "recv_all W (length before) c = (before, c1)" "\<forall>m \<in> set before. sm_emsg m \<notin> {751, 757}"
      "conn_recv W c1 = (Ready (Inr msg), c2)" "logon_message W (c2\<lparr>cc_write := k\<rparr>) msg = (Some (Inr lo), c')" by auto
  note all = recv_all_snoc [OF o(1, 3)]
  have ids: "cc_steam_id c2 = cc_steam_id c" "cc_session_id c2 = cc_session_id c"
    using recv_all_keeps [of W "Suc (length before)" c] unfolding all by simp_all
  from o(4) obtain resp where "sm_emsg msg = 751" "w_dec_logon_response W (sm_body msg) = Inr resp" "lr_eresult resp = Some 1"
    "c' = c2\<lparr>cc_write := k, cc_steam_id := unwrap_or (cc_steam_id c) (hdr_steamid (sm_header msg)),
       cc_session_id := unwrap_or (cc_session_id c) (hdr_client_sessionid (sm_header msg))\<rparr>"
    "lo = \<lparr>lo_steam_id = cc_steam_id c', lo_session_id = cc_session_id c',
       lo_heartbeat_interval = 1000 * nat (max (unwrap_or 9 (lr_heartbeat_seconds resp)) 1)\<rparr>"
    by (auto simp: logon_message_def Let_def ids DEFAULT_HEARTBEAT_SECS_def unwrap_or_case
        split: if_splits sum.splits option.splits)
  then show ?thesis using all o(2) k
    by (intro exI [of _ before] exI [of _ msg] exI [of _ resp] exI [of _ c2])
      (simp add: unwrap_or_case max.commute logon_frame_def)
qed

text \<open>C19: why a logon fails.  Either the logon could not be written; or, after messages that are neither a
  logon response nor a logoff, the connection failed to deliver another; or it delivered the message that
  decided: a logon response that does not decode or carries another \<^verbatim>\<open>EResult\<close> than \<^verbatim>\<open>OK\<close>, or a logoff.
  What Steam said is reported with its code, as retryable for the six transient codes and as an auth
  rejection for every other; the other two ways give a transport or a codec error.  So a broken
  connection is never taken for a bad token.\<close>

theorem logon_failure_origin:
  assumes "logon W c account token = (Ready (Inl e), c')"
  shows "(\<exists>t. e = WebSocket t \<and>
      fst (conn_send W c EMSG_CLIENT_LOGON (w_enc_logon W) (logon_request account token)) = Inl e) \<or>
    (\<exists>before c1. recv_all W (length before) c = (before, c1) \<and> (\<forall>m \<in> set before. sm_emsg m \<notin> {751, 757}) \<and>
      (fst (conn_recv W c1) = Ready (Inl e) \<and> ((\<exists>t. e = WebSocket t) \<or> (\<exists>t. e = Codec t)) \<or>
       (\<exists>msg. fst (conn_recv W c1) = Ready (Inr msg) \<and> refuses_logon W msg e)))"
proof -
  from logon_origin [OF assms] show ?thesis
  proof (elim disjE exE conjE)
    fix k before c1 e'
    assume o: "recv_all W (length before) c = (before, c1)" "\<forall>m \<in> set before. sm_emsg m \<notin> {751, 757}"
      "fst (conn_recv W c1) = Ready (Inl e')" "Inl e = Inl e'"
    then have "(\<exists>t. e = WebSocket t) \<or> (\<exists>t. e = Codec t)"
      by (auto simp: conn_recv_def dest: read_message_error split: prod.splits)
    with o show ?thesis by (intro disjI2 exI [of _ before] exI [of _ c1]) simp
  next
    fix k before c1 msg c2
    assume o: "recv_all W (length before) c = (before, c1)" "\<forall>m \<in> set before. sm_emsg m \<notin> {751, 757}"
      "conn_recv W c1 = (Ready (Inr msg), c2)" "logon_message W (c2\<lparr>cc_write := k\<rparr>) msg = (Some (Inl e), c')"
    have f: "fst (conn_recv W c1) = Ready (Inr msg)" using o(3) by simp
    from logon_message_err [OF o(4)] o(1, 2) f show ?thesis by blast
  qed simp
qed

section \<open>Choice of a server\<close>

text \<open>An attempt that lets the search go on: it timed out, or failed with anything but an auth
  rejection.\<close>

definition skipped :: "'r result poll \<Rightarrow> bool" where
  "skipped p = (case p of Pending \<Rightarrow> True | Ready (Inl e) \<Rightarrow> \<not> is_auth_rejected e | Ready (Inr _) \<Rightarrow> False)"

lemma establish_loop_Inr:
  "establish_loop try k last_err ss = Inr r \<longleftrightarrow>
     (\<exists>i < length ss. try (k + i) (ss ! i) = Ready (Inr r) \<and> (\<forall>j < i. skipped (try (k + j) (ss ! j))))"
proof (induction ss arbitrary: k last_err)
  case (Cons s ss)
  show ?case
    by (simp add: ex_less_Suc_shift all_less_Suc_shift Cons skipped_def
        split: poll.split sum.split)
qed simp

lemma establish_loop_rejected:
  "last_err \<noteq> Some (AuthRejected t) \<Longrightarrow>
   establish_loop try k last_err ss = Inl (AuthRejected t) \<longleftrightarrow>
     (\<exists>i < length ss. try (k + i) (ss ! i) = Ready (Inl (AuthRejected t)) \<and>
        (\<forall>j < i. skipped (try (k + j) (ss ! j))))"
proof (induction ss arbitrary: k last_err)
  case Nil
  then show ?case by (cases last_err) auto
next
  case (Cons s ss)
  show ?case
    by (auto simp: ex_less_Suc_shift all_less_Suc_shift Cons skipped_def is_auth_rejected_iff
        split: poll.split sum.split)
qed

text \<open>C18: \<^verbatim>\<open>establish\<close> returns the session of the first server, among the first five discovered, whose
  connect and logon succeed within the time budget, provided every server before it failed for a
  reason other than an auth rejection; and it reports an auth rejection exactly when some server of
  the five rejected the logon and none before it did or succeeded.  No server after the fifth is
  ever tried.\<close>

theorem establish_first_success:
  assumes "cn_discover C proxy = Inr servers"
    and "\<And>i. try i = attempt W C i account token proxy (servers ! i)"
  shows "(establish W C account token proxy = Inr r \<longleftrightarrow>
            (\<exists>i < min 5 (length servers). try i = Ready (Inr r) \<and> (\<forall>j < i. skipped (try j)))) \<and>
         (establish W C account token proxy = Inl (AuthRejected t) \<longleftrightarrow>
            (\<exists>i < min 5 (length servers). try i = Ready (Inl (AuthRejected t)) \<and>
               (\<forall>j < i. skipped (try j))))"
proof -
  let ?ss = "take 5 servers"
  have nth: "(\<exists>i < length ?ss. P i (?ss ! i) \<and> (\<forall>j < i. Q j (?ss ! j))) \<longleftrightarrow>
             (\<exists>i < min 5 (length servers). P i (servers ! i) \<and> (\<forall>j < i. Q j (servers ! j)))" for P Q
    by (rule ex_cong1) auto
  have e: "establish W C account token proxy =
      establish_loop (\<lambda>i. attempt W C i account token proxy) 0 None ?ss"
    by (simp add: establish_def assms(1) MAX_CONNECT_ATTEMPTS_def)
  let ?t = "\<lambda>i. attempt W C i account token proxy"
  have "establish_loop ?t 0 None ?ss = Inr r \<longleftrightarrow>
      (\<exists>i < min 5 (length servers). ?t i (servers ! i) = Ready (Inr r) \<and> (\<forall>j < i. skipped (?t j (servers ! j))))"
    using establish_loop_Inr [of ?t 0 None ?ss r]
      nth [of "\<lambda>i s. ?t i s = Ready (Inr r)" "\<lambda>j s. skipped (?t j s)"]
    by (simp only: add_0)
  moreover have "establish_loop ?t 0 None ?ss = Inl (AuthRejected t) \<longleftrightarrow>
      (\<exists>i < min 5 (length servers). ?t i (servers ! i) = Ready (Inl (AuthRejected t)) \<and>
         (\<forall>j < i. skipped (?t j (servers ! j))))"
    using establish_loop_rejected [of None t ?t 0 ?ss]
      nth [of "\<lambda>i s. ?t i s = Ready (Inl (AuthRejected t))" "\<lambda>j s. skipped (?t j s)"]
    by (simp only: add_0 option.distinct simp_thms)
  ultimately show ?thesis unfolding e assms(2) by (rule conjI)
qed

section \<open>Witnesses\<close>

text \<open>A stand-in for the message codecs: a batch body is its payload, a logon answer is its \<^verbatim>\<open>EResult\<close>
  as one byte.\<close>

definition sample_wire :: wire where
  "sample_wire =
     \<lparr>w_enc_header = (\<lambda>_. []), w_dec_header = (\<lambda>bs. Inr (default_header\<lparr>hdr_jobid_target := map_option ucast (List.find (\<lambda>_. True) bs)\<rparr>)),
      w_dec_multi = (\<lambda>bs. Inr \<lparr>mu_size_unzipped = None, mu_message_body = Some bs\<rparr>),
      w_inflate = (\<lambda>bs. (bs, None)), w_enc_logon = (\<lambda>_. []),
      w_dec_logon_response = (\<lambda>bs. Inr \<lparr>lr_eresult = map_option uint (List.find (\<lambda>_. True) bs),
                                        lr_heartbeat_seconds = None\<rparr>),
      w_dec_logged_off = (\<lambda>bs. Inr \<lparr>lf_eresult = map_option uint (List.find (\<lambda>_. True) bs)\<rparr>)\<rparr>"

lemma sample_wire_simps [simp]:
  "w_enc_header sample_wire h = []" "w_dec_header sample_wire [] = Inr default_header"
  "w_dec_header sample_wire [b] = Inr (default_header\<lparr>hdr_jobid_target := Some (ucast b)\<rparr>)"
  "w_dec_multi sample_wire bs = Inr \<lparr>mu_size_unzipped = None, mu_message_body = Some bs\<rparr>"
  "w_dec_logon_response sample_wire [b] = Inr \<lparr>lr_eresult = Some (uint b), lr_heartbeat_seconds = None\<rparr>"
  "w_dec_logged_off sample_wire [b] = Inr \<lparr>lf_eresult = Some (uint b)\<rparr>"
  by (simp_all add: sample_wire_def default_header_def)

lemma sample_payload [simp]:
  "multi_payload W \<lparr>mu_size_unzipped = None, mu_message_body = Some p\<rparr> = Inr p"
  by (simp add: multi_payload_def)

definition sample_frames :: "bytes list" where
  "sample_frames = [frame 800 [] [1], frame 801 [] []]"

definition sample_messages :: "steam_message list" where
  "sample_messages =
     [\<lparr>sm_emsg = 800, sm_header = default_header, sm_body = [1]\<rparr>,
      \<lparr>sm_emsg = 801, sm_header = default_header, sm_body = []\<rparr>]"

definition sample_conn :: "ws_stream \<Rightarrow> cm_connection" where
  "sample_conn rd =
     \<lparr>cc_read = rd, cc_write = \<lparr>sk_sent = [], sk_faults = []\<rparr>, cc_steam_id = LOGON_HEADER_STEAMID,
      cc_session_id = 0, cc_inbox = [], cc_liveness = 3\<rparr>"

lemma sample_frames_decode:
  "list_all2 (\<lambda>f m. length f < 2 ^ 32 \<and> try_decode (w_dec_header sample_wire) f = Inr (Some m) \<and>
     sm_emsg m \<noteq> EMSG_MULTI) sample_frames sample_messages"
  by (simp add: sample_frames_def sample_messages_def try_decode_frame
      EMSG_MASK_def PROTO_MASK_def)

theorem multi_delivered_in_order_witness:
  "recv_all sample_wire 2
     (sample_conn [(7, WsItem (WsBinary (frame EMSG_MULTI [] (batch sample_frames))))]) =
   (sample_messages, (sample_conn [])\<lparr>cc_liveness := 7\<rparr>)"
  using multi_delivered_in_order [where W = sample_wire and hb = "[]" and t = 7 and rd = "[]"
      and c = "sample_conn [(7, WsItem (WsBinary (frame EMSG_MULTI [] (batch sample_frames))))]",
      OF _ _ _ _ _ _ sample_frames_decode]
  by (simp add: sample_conn_def sample_messages_def numeral_2_eq_2)

theorem recv_never_multi_witness:
  "no_multi (cc_inbox (snd (conn_recv sample_wire (sample_conn [(7, WsItem (WsPing []))]))))"
  using recv_never_multi [of "sample_conn [(7, WsItem (WsPing []))]" sample_wire,
      OF _ prod.collapse [symmetric]]
  by (simp add: sample_conn_def)

text \<open>A frame and, beside it, a batch of another frame.\<close>

definition sample_tree :: packed where
  "sample_tree = Batched [] (batch [frame 800 [] [1], frame EMSG_MULTI [] (batch [frame 801 [] []])])
     [Plain (frame 800 [] [1]), Batched [] (batch [frame 801 [] []]) [Plain (frame 801 [] [])]]"

theorem multi_nesting_bounded_witness:
  "decode_multi sample_wire (batch [frame 800 [] [1], frame EMSG_MULTI [] (batch [frame 801 [] []])]) 0 = Inr sample_messages"
proof -
  have "well_packed sample_wire sample_tree"
    by (simp add: sample_tree_def batch_def try_decode_frame EMSG_MASK_def PROTO_MASK_def)
  from multi_nesting_bounded [OF this [unfolded sample_tree_def]] show ?thesis
    by (simp add: sample_messages_def try_decode_frame EMSG_MASK_def PROTO_MASK_def)
qed

theorem multi_payload_bounded_witness:
  "\<not> is_ok (multi_payload sample_wire \<lparr>mu_size_unzipped = Some 9000000, mu_message_body = None\<rparr>)"
  using multi_payload_bounded [of "\<lparr>mu_size_unzipped = Some 9000000, mu_message_body = None\<rparr>" sample_wire]
  by simp

theorem recv_stamps_liveness_witness:
  "\<exists>used. [(5, WsItem (WsPing [])), (9, WsItem (WsPong []))] =
       used @ cc_read (snd (conn_recv sample_wire (sample_conn [(5, WsItem (WsPing [])), (9, WsItem (WsPong []))]))) \<and>
     cc_liveness (snd (conn_recv sample_wire (sample_conn [(5, WsItem (WsPing [])), (9, WsItem (WsPong []))]))) =
       last (3 # arrivals used)"
  using recv_stamps_liveness [of sample_wire "sample_conn [(5, WsItem (WsPing [])), (9, WsItem (WsPong []))]",
      OF prod.collapse [symmetric]]
  by (simp add: sample_conn_def)

definition sample_answer :: "byte \<Rightarrow> ws_stream" where
  "sample_answer code = [(4, WsItem (WsBinary (frame EMSG_CLIENT_LOGON_RESPONSE [] [code])))]"

lemma sample_recv:
  "conn_recv sample_wire (sample_conn (sample_answer code)\<lparr>cc_write := k\<rparr>) =
     (Ready (Inr \<lparr>sm_emsg = 751, sm_header = default_header, sm_body = [code]\<rparr>),
      (sample_conn [])\<lparr>cc_write := k, cc_liveness := 4\<rparr>)"
proof -
  have "try_decode (w_dec_header sample_wire) (frame EMSG_CLIENT_LOGON_RESPONSE [] [code]) =
      Inr (Some \<lparr>sm_emsg = 751, sm_header = default_header, sm_body = [code]\<rparr>)"
    using try_decode_frame [where hb = "[]" and dec = "w_dec_header sample_wire"]
    by (simp add: EMSG_MASK_def PROTO_MASK_def)
  then show ?thesis
    by (simp add: conn_recv_def sample_conn_def sample_answer_def read_message.simps [of _ _ "[]"]
        touch_def)
qed

lemma sample_verdict:
  "logon_message sample_wire (sample_conn []\<lparr>cc_write := k, cc_liveness := 4\<rparr>)
     \<lparr>sm_emsg = 751, sm_header = default_header, sm_body = [code]\<rparr> =
   (Some (if uint code = 1 then Inr \<lparr>lo_steam_id = LOGON_HEADER_STEAMID, lo_session_id = 0,
                                   lo_heartbeat_interval = 9000\<rparr>
          else Inl (logon_rejection (uint code) (''CM logon eresult '' @ show_int (uint code)))),
    sample_conn []\<lparr>cc_write := k, cc_liveness := 4\<rparr>)"
  by (simp add: logon_message_def sample_conn_def default_header_def DEFAULT_HEARTBEAT_SECS_def Let_def)

definition sample_sink :: sink where
  "sample_sink =
     \<lparr>sk_sent = [WsBinary (encode (w_enc_header sample_wire) (w_enc_logon sample_wire) EMSG_CLIENT_LOGON
        (default_header\<lparr>hdr_steamid := Some LOGON_HEADER_STEAMID, hdr_client_sessionid := Some 0\<rparr>)
        (logon_request ''acc'' ''tok''))],
      sk_faults = []\<rparr>"

lemma sample_logon:
  "logon sample_wire (sample_conn (sample_answer code)) ''acc'' ''tok'' =
     (Ready (if uint code = 1 then Inr \<lparr>lo_steam_id = LOGON_HEADER_STEAMID, lo_session_id = 0,
                                     lo_heartbeat_interval = 9000\<rparr>
             else Inl (logon_rejection (uint code) (''CM logon eresult '' @ show_int (uint code)))),
      sample_conn []\<lparr>cc_write := sample_sink, cc_liveness := 4\<rparr>)"
proof -
  have k: "conn_send sample_wire (sample_conn (sample_answer code)) EMSG_CLIENT_LOGON
      (w_enc_logon sample_wire) (logon_request ''acc'' ''tok'') =
      (Inr (), sample_conn (sample_answer code)\<lparr>cc_write := sample_sink\<rparr>)"
    by (simp add: conn_send_def write_frame_def sink_send_def sample_conn_def sample_sink_def)
  show ?thesis
    unfolding logon_def k sum.case prod.case
    by (subst logon_loop.simps)
      (simp only: sample_recv sample_verdict prod.case poll.case sum.case option.case)
qed

lemma sample_recv_all:
  assumes "fst (recv_all sample_wire (Suc (length before)) (sample_conn (sample_answer code))) = before @ [m]"
  shows "before = [] \<and> sm_body m = [code]"
proof -
  have first: "conn_recv sample_wire (sample_conn (sample_answer code)) =
      (Ready (Inr \<lparr>sm_emsg = 751, sm_header = default_header, sm_body = [code]\<rparr>), (sample_conn [])\<lparr>cc_liveness := 4\<rparr>)"
    using sample_recv [where k = "cc_write (sample_conn [])"] by (simp add: sample_conn_def)
  have "recv_all sample_wire n ((sample_conn [])\<lparr>cc_liveness := 4\<rparr>) = ([], (sample_conn [])\<lparr>cc_liveness := 4\<rparr>)" for n
    by (cases n) (simp_all add: conn_recv_def sample_conn_def read_message.simps [of _ _ "[]"])
  then have "fst (recv_all sample_wire (Suc n) (sample_conn (sample_answer code))) =
      [\<lparr>sm_emsg = 751, sm_header = default_header, sm_body = [code]\<rparr>]" for n by (simp add: first)
  then show ?thesis using assms by (cases before) (auto simp del: recv_all.simps)
qed

theorem logon_success_witness:
  "\<exists>c' lo. logon sample_wire (sample_conn (sample_answer 1)) ''acc'' ''tok'' = (Ready (Inr lo), c') \<and>
     lo_steam_id lo = cc_steam_id c' \<and> lo_heartbeat_interval lo = 9000"
proof -
  obtain lo c' where l: "logon sample_wire (sample_conn (sample_answer 1)) ''acc'' ''tok'' = (Ready (Inr lo), c')"
    using sample_logon [of 1] by auto
  from logon_success [OF l] obtain before msg resp where
    m: "fst (recv_all sample_wire (Suc (length before)) (sample_conn (sample_answer 1))) = before @ [msg]"
    "w_dec_logon_response sample_wire (sm_body msg) = Inr resp" "lo_steam_id lo = cc_steam_id c'"
    "lo_heartbeat_interval lo = 1000 * nat (max 1 (case lr_heartbeat_seconds resp of None \<Rightarrow> 9 | Some s \<Rightarrow> s))"
    by auto
  have "lr_heartbeat_seconds resp = None" using m(2) sample_recv_all [OF m(1)] by auto
  with l m show ?thesis by auto
qed

theorem logon_failure_origin_witness:
  "\<exists>c'. logon sample_wire (sample_conn (sample_answer 5)) ''acc'' ''tok'' = (Ready (Inl (AuthRejected ''CM logon eresult 5'')), c') \<and>
     (\<exists>before c1 msg. recv_all sample_wire (length before) (sample_conn (sample_answer 5)) = (before, c1) \<and>
        fst (conn_recv sample_wire c1) = Ready (Inr msg) \<and> logon_verdict sample_wire msg = Some 5)"
proof -
  let ?e = "AuthRejected ''CM logon eresult 5''"
  have "show_int 5 = ''5''" by code_simp
  then obtain c' where l: "logon sample_wire (sample_conn (sample_answer 5)) ''acc'' ''tok'' = (Ready (Inl ?e), c')"
    using sample_logon [of 5] by (auto simp: logon_rejection_codes)
  from logon_failure_origin [OF l] obtain before c1 msg code where
    m: "recv_all sample_wire (length before) (sample_conn (sample_answer 5)) = (before, c1)"
      "fst (conn_recv sample_wire c1) = Ready (Inr msg)" "logon_verdict sample_wire msg = Some code"
    by (auto simp: refuses_logon_def)
  then obtain c2 where "conn_recv sample_wire c1 = (Ready (Inr msg), c2)" by (cases "conn_recv sample_wire c1") auto
  from recv_all_snoc [OF m(1) this] have "sm_body msg = [5]" using sample_recv_all [of before 5 msg] by simp
  with m(3) have "code = 5" by (auto simp: logon_verdict_def split: if_splits)
  with l m show ?thesis by blast
qed

definition sample_connector :: "unit connector" where
  "sample_connector =
     \<lparr>cn_discover = (\<lambda>_. Inr [\<lparr>cs_endpoint = ''a'', cs_datacenter = None, cs_load = None\<rparr>,
                              \<lparr>cs_endpoint = ''b'', cs_datacenter = None, cs_load = None\<rparr>]),
      cn_dial = (\<lambda>i _ _. if i = 0 then Pending else Ready (Inl (WebSocket ''refused''))),
      cn_now = (\<lambda>_. 0)\<rparr>"

theorem establish_first_success_witness:
  "\<not> (establish sample_wire sample_connector ''acc'' ''tok'' None = Inl (AuthRejected ''x''))"
proof -
  let ?s = "[\<lparr>cs_endpoint = ''a'', cs_datacenter = None, cs_load = None :: unit option\<rparr>,
             \<lparr>cs_endpoint = ''b'', cs_datacenter = None, cs_load = None\<rparr>]"
  have "cn_discover sample_connector None = Inr ?s" by (simp add: sample_connector_def)
  from establish_first_success [OF this, of _ sample_wire "''acc''" "''tok''" undefined "''x''"]
  show ?thesis
    by (auto simp: attempt_def connect_def sample_connector_def split: if_splits)
qed

end
