(* ===== verification/Session_State.thy ===== *)
theory Session_State
  imports Prelude
begin

text \<open>The observable session state of \<^verbatim>\<open>src/session/state.rs\<close>.\<close>

datatype session_state =
    Disconnected
  | Connecting
  | Authenticating
  | LoggedOn u64
  | LoggedOff string
  | Failed string

fun is_ready :: "session_state \<Rightarrow> bool" where
  "is_ready (LoggedOn _) = True"
| "is_ready _ = False"

fun label :: "session_state \<Rightarrow> string" where
  "label Disconnected = ''disconnected''"
| "label Authenticating = ''authenticating''"
| "label Connecting = ''connecting''"
| "label (LoggedOn _) = ''logged_on''"
| "label (LoggedOff _) = ''logged_off''"
| "label (Failed _) = ''failed''"

lemma is_ready_label: "is_ready s \<longleftrightarrow> label s = ''logged_on''"
  by (cases s) simp_all

end
