(* ===== verification/Driver.thy ===== *)
theory Driver
  imports Connection Session_State "HOL-Library.Multiset"
begin

text \<open>
  The background session driver of \<^verbatim>\<open>src/session/driver.rs\<close>: the command and message handlers of the
  connected loop, the reconnect loop, the close of the socket and the end of the task, and the step
  relation they make.

  A \<^verbatim>\<open>oneshot\<close> channel is a number; what is sent into it, or that its sender is dropped unused, goes
  into a log.  The broadcast channel is the list of what was published, the watch channel its last
  value.  A step relation interleaves the arms of the \<^verbatim>\<open>select!\<close> with the outside world: time passing,
  frames arriving, handles issuing commands, giving up on them, and being dropped.
\<close>

section \<open>Constants\<close>

definition COMMAND_CAPACITY :: nat where "COMMAND_CAPACITY = 64"
definition EVENT_CAPACITY :: nat where "EVENT_CAPACITY = 256"
definition INITIAL_BACKOFF :: millis where "INITIAL_BACKOFF = secs 1"
definition MAX_BACKOFF :: millis where "MAX_BACKOFF = secs 60"
definition INITIAL_CONNECT_ATTEMPTS :: nat where "INITIAL_CONNECT_ATTEMPTS = 4"
definition EMSG_CLIENT_LOGOFF :: u32 where "EMSG_CLIENT_LOGOFF = 706"
definition PENDING_SWEEP_INTERVAL :: millis where "PENDING_SWEEP_INTERVAL = secs 1"
definition IDLE_PROBE_MISSES :: nat where "IDLE_PROBE_MISSES = 6"
definition CLOSE_TIMEOUT :: millis where "CLOSE_TIMEOUT = secs 5"
definition MIN_IDLE_TIMEOUT :: millis where "MIN_IDLE_TIMEOUT = secs 60"

definition POST_LOGIN_SNAPSHOT_EMSGS :: "u32 list" where
  "POST_LOGIN_SNAPSHOT_EMSGS = [767, 5553, 5587]"

section \<open>State\<close>

record session_config =
  sc_account_name :: string
  sc_refresh_token :: string
  sc_proxy :: "proxy_config option"

type_synonym channel = nat

datatype command =
    Request u32 bytes millis channel
  | Notify u32 bytes channel
  | Logoff channel

fun channel_of :: "command \<Rightarrow> channel" where
  "channel_of (Request _ _ _ ch) = ch"
| "channel_of (Notify _ _ ch) = ch"
| "channel_of (Logoff ch) = ch"

text \<open>What becomes of a channel: a reply, the result of a write, the acknowledgement of a logoff,
  dropped with its sender, or reaped after its caller went away.\<close>

datatype answer =
    Reply "steam_message result"
  | Ack "unit result"
  | LogoffAck
  | Dropped
  | Abandoned

record pending =
  pd_reply :: channel
  pd_deadline :: millis

datatype loop_exit =
    Shutdown
  | LoggedOffExit string
  | DisconnectedExit

text \<open>Where the task is in \<^verbatim>\<open>run\<close>: in the connected loop (with its two timers), sleeping before a
  reconnect, waiting for an \<^verbatim>\<open>establish\<close>, waiting for the socket to close (until a deadline, with the
  result it will return), or finished.\<close>

datatype phase =
    Connected millis millis
  | Sleeping millis millis
  | Attempting millis
  | Closing "error + string" millis
  | Ended "unit result"

record driver =
  d_write :: sink
  d_read :: ws_stream
  d_inbox :: "steam_message list"
  d_liveness :: liveness
  d_steam_id :: u64
  d_session_id :: i32
  d_heartbeat :: millis
  d_next_jobid :: u64
  d_pending :: "(u64 \<times> pending) list"
  d_commands :: "command list"
  d_handles :: bool
  d_events :: "steam_message list"
  d_state :: session_state
  d_snapshots :: "u32 \<Rightarrow> bytes option"
  d_config :: session_config
  d_now :: millis
  d_phase :: phase
  d_answers :: "(channel \<times> answer) list"
  d_closed :: "channel list"
  d_next_channel :: channel

definition tell :: "channel \<Rightarrow> answer \<Rightarrow> driver \<Rightarrow> driver" where
  "tell ch a d = d\<lparr>d_answers := d_answers d @ [(ch, a)]\<rparr>"

section \<open>The table of in-flight requests\<close>

text \<open>\<^verbatim>\<open>HashMap::remove\<close> and \<^verbatim>\<open>HashMap::insert\<close>; both also return the entry that was there.\<close>

definition take_pending :: "u64 \<Rightarrow> (u64 \<times> pending) list \<Rightarrow> pending option \<times> (u64 \<times> pending) list" where
  "take_pending jobid ps = (map_of ps jobid, filter (\<lambda>(j, _). j \<noteq> jobid) ps)"

definition insert_pending ::
    "u64 \<Rightarrow> pending \<Rightarrow> (u64 \<times> pending) list \<Rightarrow> pending option \<times> (u64 \<times> pending) list" where
  "insert_pending jobid p ps = (map_of ps jobid, (jobid, p) # filter (\<lambda>(j, _). j \<noteq> jobid) ps)"

definition fail_all_pending :: "string \<Rightarrow> driver \<Rightarrow> driver" where
  "fail_all_pending reason d =
     d\<lparr>d_pending := [],
       d_answers := d_answers d @
         map (\<lambda>(_, p). (pd_reply p, Reply (Inl (WebSocket reason)))) (d_pending d)\<rparr>"

text \<open>The fate of one entry in a sweep: kept (\<^const>\<open>None\<close>), or removed with this answer.\<close>

definition sweep_entry :: "channel list \<Rightarrow> millis \<Rightarrow> pending \<Rightarrow> answer option" where
  "sweep_entry closed now p =
     (if pd_reply p \<in> set closed then Some Abandoned
      else if pd_deadline p \<le> now then Some (Reply (Inl (Timeout ''steam request'')))
      else None)"

definition sweep_pending :: "driver \<Rightarrow> driver" where
  "sweep_pending d =
     (let fate = (\<lambda>(_, p). sweep_entry (d_closed d) (d_now d) p) in
      d\<lparr>d_pending := filter (\<lambda>e. fate e = None) (d_pending d),
        d_answers := d_answers d @
          map (\<lambda>e. (pd_reply (snd e), the (fate e))) (filter (\<lambda>e. fate e \<noteq> None) (d_pending d))\<rparr>)"

definition dispatch :: "driver \<Rightarrow> steam_message \<Rightarrow> driver" where
  "dispatch d msg =
     (let broadcast = (\<lambda>d.
        let d = (if sm_emsg msg \<in> set POST_LOGIN_SNAPSHOT_EMSGS \<and> d_snapshots d (sm_emsg msg) = None
                 then d\<lparr>d_snapshots := (d_snapshots d)(sm_emsg msg \<mapsto> sm_body msg)\<rparr> else d)
        in d\<lparr>d_events := d_events d @ [msg]\<rparr>)
      in case opt_filter (\<lambda>j. j \<noteq> 0 \<and> j \<noteq> u64_max) (hdr_jobid_target (sm_header msg)) of
           Some jobid \<Rightarrow>
             (case take_pending jobid (d_pending d) of
                (Some entry, ps) \<Rightarrow> tell (pd_reply entry) (Reply (Inr msg)) (d\<lparr>d_pending := ps\<rparr>)
              | (None, _) \<Rightarrow> broadcast d)
         | None \<Rightarrow> broadcast d)"

definition classify_logoff :: "wire \<Rightarrow> steam_message \<Rightarrow> loop_exit" where
  "classify_logoff W msg =
     (case w_dec_logged_off W (sm_body msg) of
        Inl _ \<Rightarrow> LoggedOffExit ''logged off by Steam (undecodable body)''
      | Inr decoded \<Rightarrow>
          let code = unwrap_or FAIL (lf_eresult decoded) in
          if code = NO_CONNECTION \<or> code = SERVICE_UNAVAILABLE \<or> code = TRY_ANOTHER_CM
          then DisconnectedExit
          else LoggedOffExit (''logged off by Steam (eresult '' @ show_int code @ '')''))"

definition send_frame ::
    "wire \<Rightarrow> driver \<Rightarrow> u32 \<Rightarrow> u64 option \<Rightarrow> bytes \<Rightarrow> unit result \<times> driver" where
  "send_frame W d emsg jobid_source body =
     (let header = default_header\<lparr>hdr_steamid := Some (d_steam_id d),
                                  hdr_client_sessionid := Some (d_session_id d),
                                  hdr_jobid_source := jobid_source\<rparr>
      in case write_frame (d_write d) (encode_raw (w_enc_header W) emsg header body) of
           (r, k) \<Rightarrow> (r, d\<lparr>d_write := k\<rparr>))"

definition idle_timeout :: "millis \<Rightarrow> millis" where
  "idle_timeout heartbeat = max (heartbeat * IDLE_PROBE_MISSES) MIN_IDLE_TIMEOUT"

definition read_idle_expired :: "millis \<Rightarrow> liveness \<Rightarrow> millis \<Rightarrow> bool" where
  "read_idle_expired now live heartbeat \<longleftrightarrow> idle_timeout heartbeat \<le> idle_for now live"

section \<open>The arms of the connected loop\<close>

text \<open>Each arm returns why the loop ends, or \<^const>\<open>None\<close> when it goes on.\<close>

definition next_job :: "u64 \<Rightarrow> u64" where
  "next_job j = (if j = u64_max then 1 else j + 1)"

fun on_command :: "wire \<Rightarrow> driver \<Rightarrow> command option \<Rightarrow> loop_exit option \<times> driver" where
  "on_command W d None = (Some Shutdown, d)"
| "on_command W d (Some (Notify emsg body ack)) =
     (case send_frame W d emsg None body of (sent, d') \<Rightarrow>
        (if is_ok sent then None else Some DisconnectedExit, tell ack (Ack sent) d'))"
| "on_command W d (Some (Logoff ack)) =
     (case send_frame W d EMSG_CLIENT_LOGOFF None [] of (_, d') \<Rightarrow>
        (Some Shutdown, tell ack LogoffAck d'))"
| "on_command W d (Some (Request emsg body deadline reply)) =
     (let jobid = d_next_jobid d;
          d = d\<lparr>d_next_jobid := next_job jobid\<rparr>
      in case send_frame W d emsg (Some jobid) body of
           (Inl _, d') \<Rightarrow>
             (Some DisconnectedExit, tell reply (Reply (Inl (WebSocket ''session reconnecting''))) d')
         | (Inr _, d') \<Rightarrow>
             (case insert_pending jobid \<lparr>pd_reply = reply, pd_deadline = deadline\<rparr> (d_pending d') of
                (old, ps) \<Rightarrow>
                  (None, case old of
                     None \<Rightarrow> d'\<lparr>d_pending := ps\<rparr>
                   | Some e \<Rightarrow> tell (pd_reply e) Dropped (d'\<lparr>d_pending := ps\<rparr>))))"

definition on_message :: "wire \<Rightarrow> driver \<Rightarrow> steam_message result \<Rightarrow> loop_exit option \<times> driver" where
  "on_message W d received =
     (case received of
        Inr msg \<Rightarrow>
          if sm_emsg msg = EMSG_CLIENT_LOGGED_OFF then (Some (classify_logoff W msg), d)
          else (None, dispatch d msg)
      | Inl _ \<Rightarrow> (Some DisconnectedExit, d))"

definition on_heartbeat :: "wire \<Rightarrow> driver \<Rightarrow> loop_exit option \<times> driver" where
  "on_heartbeat W d =
     (case send_frame W d EMSG_CLIENT_HEARTBEAT None [] of
        (Inl _, d') \<Rightarrow> (Some DisconnectedExit, d')
      | (Inr _, d') \<Rightarrow>
          (case write_ping (d_write d') of
             (Inl _, k) \<Rightarrow> (Some DisconnectedExit, d'\<lparr>d_write := k\<rparr>)
           | (Inr _, k) \<Rightarrow>
               (None, d'\<lparr>d_write := k,
                         d_phase := (case d_phase d' of
                            Connected _ sweep \<Rightarrow> Connected (d_now d' + d_heartbeat d') sweep
                          | p \<Rightarrow> p)\<rparr>)))"

definition on_sweep :: "driver \<Rightarrow> loop_exit option \<times> driver" where
  "on_sweep d =
     (let d = d\<lparr>d_phase := (case d_phase d of
                   Connected hb _ \<Rightarrow> Connected hb (d_now d + PENDING_SWEEP_INTERVAL) | p \<Rightarrow> p)\<rparr>
      in if read_idle_expired (d_now d) (d_liveness d) (d_heartbeat d)
         then (Some DisconnectedExit, d) else (None, sweep_pending d))"

section \<open>Leaving and re-entering the connected loop\<close>

text \<open>The start of \<^verbatim>\<open>run_connected\<close>.\<close>

definition enter_connected :: "driver \<Rightarrow> driver" where
  "enter_connected d =
     d\<lparr>d_phase := Connected (d_now d + d_heartbeat d) (d_now d + PENDING_SWEEP_INTERVAL),
       d_liveness := touch (d_now d) (d_liveness d)\<rparr>"

text \<open>The end of \<^verbatim>\<open>run\<close>.  In-flight requests fail, and the task awaits the closing of the socket for at
  most \<^const>\<open>CLOSE_TIMEOUT\<close>; the state published last still stands and the command queue is still open
  meanwhile.\<close>

definition finish :: "error + string \<Rightarrow> driver \<Rightarrow> driver" where
  "finish result d =
     (let d = fail_all_pending ''session driver stopped'' d
      in d\<lparr>d_phase := Closing result (d_now d + CLOSE_TIMEOUT)\<rparr>)"

text \<open>Then the terminal state is published; with the driver its command queue goes, and the senders of
  the commands still in it.\<close>

definition publish_end :: "error + string \<Rightarrow> driver \<Rightarrow> driver" where
  "publish_end result d =
     (let d = d\<lparr>d_answers := d_answers d @ map (\<lambda>c. (channel_of c, Dropped)) (d_commands d),
                d_commands := []\<rparr>
      in case result of
           Inr reason \<Rightarrow> d\<lparr>d_state := LoggedOff reason, d_phase := Ended (Inr ())\<rparr>
         | Inl e \<Rightarrow> d\<lparr>d_state := Failed (display_error e), d_phase := Ended (Inl e)\<rparr>)"

text \<open>\<^verbatim>\<open>close()\<close> returns within the time limit, having sent a Close frame or failed to.\<close>

definition write_close :: "driver \<Rightarrow> driver" where
  "write_close d = d\<lparr>d_write := snd (sink_send (d_write d) WsClose)\<rparr>"

text \<open>What \<^verbatim>\<open>run\<close> does with the reason the connected loop ended for.\<close>

definition after_exit :: "loop_exit \<Rightarrow> driver \<Rightarrow> driver" where
  "after_exit x d =
     (case x of
        Shutdown \<Rightarrow> finish (Inr ''session closed'') d
      | LoggedOffExit reason \<Rightarrow> finish (Inr reason) d
      | DisconnectedExit \<Rightarrow>
          let d = foldl dispatch (d\<lparr>d_inbox := []\<rparr>) (d_inbox d);
              d = fail_all_pending ''session reconnecting'' d
          in d\<lparr>d_state := Connecting,
               d_phase := Sleeping INITIAL_BACKOFF (d_now d + INITIAL_BACKOFF)\<rparr>)"

definition step_on :: "loop_exit option \<times> driver \<Rightarrow> driver" where
  "step_on r = (case r of (None, d) \<Rightarrow> d | (Some x, d) \<Rightarrow> after_exit x d)"

text \<open>A command that arrives while the socket is down: whether the driver stops, and the answer.\<close>

fun answer_while_down :: "command option \<Rightarrow> driver \<Rightarrow> bool \<times> driver" where
  "answer_while_down None d = (True, d)"
| "answer_while_down (Some (Logoff ack)) d = (True, tell ack LogoffAck d)"
| "answer_while_down (Some (Request _ _ _ reply)) d =
     (False, tell reply (Reply (Inl (WebSocket ''session reconnecting''))) d)"
| "answer_while_down (Some (Notify _ _ ack)) d =
     (False, tell ack (Ack (Inl (WebSocket ''session reconnecting''))) d)"

definition command_while_down :: "command option \<Rightarrow> driver \<Rightarrow> driver" where
  "command_while_down c d =
     (case answer_while_down c d of
        (True, d') \<Rightarrow> finish (Inr ''session closed'') d'
      | (False, d') \<Rightarrow> d')"

definition next_backoff :: "millis \<Rightarrow> millis" where
  "next_backoff b = min (b * 2) MAX_BACKOFF"

text \<open>The outcome of a reconnect attempt made with the given backoff.\<close>

definition on_attempt :: "millis \<Rightarrow> (cm_connection \<times> logged_on) result \<Rightarrow> driver \<Rightarrow> driver" where
  "on_attempt backoff outcome d =
     (case outcome of
        Inr (conn, logged) \<Rightarrow>
          (case into_parts conn of (rd, wr, sid, sess, inbox, live) \<Rightarrow>
             enter_connected
               (d\<lparr>d_write := wr, d_read := rd, d_inbox := inbox, d_liveness := live,
                  d_steam_id := sid, d_session_id := sess,
                  d_heartbeat := lo_heartbeat_interval logged,
                  d_snapshots := (\<lambda>_. None), d_state := LoggedOn sid\<rparr>))
      | Inl e \<Rightarrow>
          if is_auth_rejected e then finish (Inl e) d
          else d\<lparr>d_phase := Sleeping (next_backoff backoff) (d_now d + next_backoff backoff)\<rparr>)"

section \<open>The initial connection\<close>

text \<open>The loop takes what each attempt returns, the number of the attempt, how many attempts are left
  and the backoff; it returns the outcome and the sleeps it took.\<close>

fun resilient_loop ::
    "(nat \<Rightarrow> 'r result) \<Rightarrow> nat \<Rightarrow> nat \<Rightarrow> millis \<Rightarrow> error \<Rightarrow> 'r result \<times> millis list" where
  "resilient_loop try i 0 backoff last_err = (Inl last_err, [])"
| "resilient_loop try i (Suc n) backoff last_err =
     (case try i of
        Inr ok \<Rightarrow> (Inr ok, [])
      | Inl e \<Rightarrow>
          if is_auth_rejected e then (Inl e, [])
          else if 0 < n
          then (case resilient_loop try (Suc i) n (next_backoff backoff) e of
                  (r, slept) \<Rightarrow> (r, backoff # slept))
          else resilient_loop try (Suc i) n backoff e)"

definition establish_resilient ::
    "wire \<Rightarrow> (nat \<Rightarrow> 'f connector) \<Rightarrow> session_config \<Rightarrow> (cm_connection \<times> logged_on) result \<times> millis list" where
  "establish_resilient W C config =
     resilient_loop
       (\<lambda>i. establish W (C i) (sc_account_name config) (sc_refresh_token config) (sc_proxy config))
       0 INITIAL_CONNECT_ATTEMPTS INITIAL_BACKOFF (Network ''no connect attempt ran'')"

text \<open>The driver that \<^verbatim>\<open>spawn_session\<close> puts on its task.\<close>

definition spawn_driver :: "session_config \<Rightarrow> millis \<Rightarrow> cm_connection \<times> logged_on \<Rightarrow> driver" where
  "spawn_driver config now cl =
     (case cl of (conn, logged) \<Rightarrow> case into_parts conn of (rd, wr, _, sess, inbox, live) \<Rightarrow>
        enter_connected
          \<lparr>d_write = wr, d_read = rd, d_inbox = inbox, d_liveness = live,
           d_steam_id = lo_steam_id logged, d_session_id = sess,
           d_heartbeat = lo_heartbeat_interval logged, d_next_jobid = 1, d_pending = [],
           d_commands = [], d_handles = True, d_events = [],
           d_state = LoggedOn (lo_steam_id logged), d_snapshots = (\<lambda>_. None),
           d_config = config, d_now = now, d_phase = Connected now now,
           d_answers = [], d_closed = [], d_next_channel = 0\<rparr>)"

definition spawn_session ::
    "wire \<Rightarrow> (nat \<Rightarrow> 'f connector) \<Rightarrow> millis \<Rightarrow> session_config \<Rightarrow> driver result" where
  "spawn_session W C now config =
     and_then (fst (establish_resilient W C config)) (\<lambda>cl. Inr (spawn_driver config now cl))"

section \<open>The step relation\<close>

text \<open>\<^verbatim>\<open>commands.recv()\<close> is ready when a command is queued, or when the queue is empty and every handle
  is gone.\<close>

definition recv_command :: "driver \<Rightarrow> (command option \<times> driver) option" where
  "recv_command d =
     (case d_commands d of
        c # cs \<Rightarrow> Some (Some c, d\<lparr>d_commands := cs\<rparr>)
      | [] \<Rightarrow> if d_handles d then None else Some (None, d))"

text \<open>The clock is stamped when a frame is read, not when it arrived.\<close>

definition read_now :: "driver \<Rightarrow> ws_stream" where
  "read_now d = map (\<lambda>(_, item). (d_now d, item)) (d_read d)"

definition poll_read :: "wire \<Rightarrow> driver \<Rightarrow> driver" where
  "poll_read W d =
     (case read_message W (read_now d) (d_inbox d) (d_liveness d) of (p, rd, inbox, live) \<Rightarrow>
        let d = d\<lparr>d_read := rd, d_inbox := inbox, d_liveness := live\<rparr>
        in case p of Pending \<Rightarrow> d | Ready received \<Rightarrow> step_on (on_message W d received))"

definition live_phase :: "phase \<Rightarrow> bool" where
  "live_phase p = (case p of Ended _ \<Rightarrow> False | _ \<Rightarrow> True)"

inductive driver_step :: "wire \<Rightarrow> driver \<Rightarrow> driver \<Rightarrow> bool" for W :: wire where
  time: "d_now d \<le> t \<Longrightarrow> driver_step W d (d\<lparr>d_now := t\<rparr>)"
| arrive: "d_phase d = Connected hb sw \<Longrightarrow>
    driver_step W d (d\<lparr>d_read := d_read d @ [(d_now d, item)]\<rparr>)"
| submit: "d_handles d \<Longrightarrow> live_phase (d_phase d) \<Longrightarrow> length (d_commands d) < COMMAND_CAPACITY \<Longrightarrow>
    channel_of c = d_next_channel d \<Longrightarrow>
    driver_step W d (d\<lparr>d_commands := d_commands d @ [c], d_next_channel := Suc (d_next_channel d)\<rparr>)"
| give_up: "ch < d_next_channel d \<Longrightarrow> driver_step W d (d\<lparr>d_closed := ch # d_closed d\<rparr>)"
| drop_handles: "driver_step W d (d\<lparr>d_handles := False\<rparr>)"
| command: "d_phase d = Connected hb sw \<Longrightarrow> recv_command d = Some (c, d') \<Longrightarrow>
    driver_step W d (step_on (on_command W d' c))"
| message: "d_phase d = Connected hb sw \<Longrightarrow> driver_step W d (poll_read W d)"
| heartbeat: "d_phase d = Connected hb sw \<Longrightarrow> hb \<le> d_now d \<Longrightarrow>
    driver_step W d (step_on (on_heartbeat W d))"
| sweep: "d_phase d = Connected hb sw \<Longrightarrow> sw \<le> d_now d \<Longrightarrow> driver_step W d (step_on (on_sweep d))"
| wake: "d_phase d = Sleeping b until \<Longrightarrow> until \<le> d_now d \<Longrightarrow>
    driver_step W d (d\<lparr>d_phase := Attempting b\<rparr>)"
| command_asleep: "d_phase d = Sleeping b until \<Longrightarrow> recv_command d = Some (c, d') \<Longrightarrow>
    driver_step W d (command_while_down c d')"
| command_attempting: "d_phase d = Attempting b \<Longrightarrow> recv_command d = Some (c, d') \<Longrightarrow>
    driver_step W d (command_while_down c d')"
| attempted: "d_phase d = Attempting b \<Longrightarrow>
    establish W (C :: unit connector) (sc_account_name (d_config d)) (sc_refresh_token (d_config d))
      (sc_proxy (d_config d)) = outcome \<Longrightarrow>
    driver_step W d (on_attempt b outcome d)"
| closed: "d_phase d = Closing result until \<Longrightarrow> driver_step W d (publish_end result (write_close d))"
| close_expired: "d_phase d = Closing result until \<Longrightarrow> until \<le> d_now d \<Longrightarrow>
    driver_step W d (publish_end result d)"

inductive_cases driver_stepE: "driver_step W d d'"

text \<open>The states in which the task starts.\<close>

definition driver_start :: "wire \<Rightarrow> driver \<Rightarrow> bool" where
  "driver_start W d \<longleftrightarrow>
     (\<exists>(C :: nat \<Rightarrow> unit connector) now config. spawn_session W C now config = Inr d)"

end
