(* ===== verification/Driver_Inv.thy ===== *)
theory Driver_Inv
  imports Driver
begin

text \<open>
  The invariant of the session driver and what follows from it: the bookkeeping of the channels (a
  command is answered exactly once), the published state, the backoff, the snapshot cache.
\<close>

section \<open>The job table\<close>

text \<open>What the driver relies on from its table of in-flight requests.\<close>

locale job_table =
  fixes lookup :: "'t \<Rightarrow> 'k \<Rightarrow> 'v option"
    and insert_job :: "'k \<Rightarrow> 'v \<Rightarrow> 't \<Rightarrow> 'v option \<times> 't"
    and take_job :: "'k \<Rightarrow> 't \<Rightarrow> 'v option \<times> 't"
    and table_inv :: "'t \<Rightarrow> bool"
    and entries :: "'t \<Rightarrow> 'v multiset"
  assumes take_fst: "fst (take_job k t) = lookup t k"
    and take_lookup: "table_inv t \<Longrightarrow> lookup (snd (take_job k t)) = (lookup t)(k := None)"
    and take_inv: "table_inv t \<Longrightarrow> table_inv (snd (take_job k t))"
    and take_entries: "table_inv t \<Longrightarrow>
      entries t = entries (snd (take_job k t)) + (case lookup t k of None \<Rightarrow> {#} | Some v \<Rightarrow> {#v#})"
    and insert_fst: "fst (insert_job k v t) = lookup t k"
    and insert_snd: "table_inv t \<Longrightarrow>
      lookup (snd (insert_job k v t)) = (lookup t)(k \<mapsto> v)"
    and insert_inv: "table_inv t \<Longrightarrow> table_inv (snd (insert_job k v t))"
    and insert_entries: "table_inv t \<Longrightarrow>
      entries (snd (insert_job k v t)) = add_mset v (entries (snd (take_job k t)))"
begin

text \<open>A request's reply finds the request, and no other is disturbed.\<close>

lemma take_after_insert: "table_inv t \<Longrightarrow> fst (take_job k (snd (insert_job k v t))) = Some v"
  by (simp add: take_fst insert_snd)

lemma take_other: "table_inv t \<Longrightarrow> k' \<noteq> k \<Longrightarrow> lookup (snd (take_job k t)) k' = lookup t k'"
  by (simp add: take_lookup)

text \<open>No entry is lost: what an insert displaces is returned.\<close>

lemma insert_balance:
  "table_inv t \<Longrightarrow>
     add_mset v (entries t) =
       entries (snd (insert_job k v t)) +
         (case fst (insert_job k v t) of None \<Rightarrow> {#} | Some old \<Rightarrow> {#old#})"
  using take_entries [of t k] by (simp add: insert_entries insert_fst)

lemma take_balance:
  "table_inv t \<Longrightarrow>
     entries t = entries (snd (take_job k t)) +
       (case fst (take_job k t) of None \<Rightarrow> {#} | Some v \<Rightarrow> {#v#})"
  by (simp add: take_fst take_entries)

end

definition keys_distinct :: "(u64 \<times> pending) list \<Rightarrow> bool" where
  "keys_distinct ps \<longleftrightarrow> distinct (map fst ps)"

definition waiting :: "(u64 \<times> pending) list \<Rightarrow> pending multiset" where
  "waiting ps = mset (map snd ps)"

lemma filter_key_entries:
  "distinct (map fst ps) \<Longrightarrow>
     mset (map snd ps) = mset (map snd (filter (\<lambda>(j, _). j \<noteq> k) ps)) +
       (case map_of ps k of None \<Rightarrow> {#} | Some v \<Rightarrow> {#v#})"
proof (induction ps)
  case (Cons p ps)
  show ?case
  proof (cases "fst p = k")
    case True
    with Cons.prems have "k \<notin> fst ` set ps" by auto
    then have "filter (\<lambda>(j, _). j \<noteq> k) ps = ps" "map_of ps k = None"
      by (force simp: filter_id_conv map_of_eq_None_iff)+
    with True show ?thesis by (cases p) simp
  next
    case False
    with Cons show ?thesis by (cases p) auto
  qed
qed simp

lemma map_of_filter_key: "map_of (filter (\<lambda>(j, _). j \<noteq> k) ps) = (map_of ps)(k := None)"
  by (induction ps) (auto simp: fun_eq_iff)

lemma distinct_filter_key: "distinct (map fst ps) \<Longrightarrow> distinct (map fst (filter P ps))"
  by (induction ps) auto

interpretation jobs: job_table map_of insert_pending take_pending keys_distinct waiting
proof unfold_locales
  fix k v and t :: "(u64 \<times> pending) list"
  show "fst (take_pending k t) = map_of t k" by (simp add: take_pending_def)
  show "fst (insert_pending k v t) = map_of t k" by (simp add: insert_pending_def)
  assume "keys_distinct t"
  then have d: "distinct (map fst t)" by (simp add: keys_distinct_def)
  show "map_of (snd (take_pending k t)) = (map_of t)(k := None)"
    by (simp add: take_pending_def map_of_filter_key)
  show "keys_distinct (snd (take_pending k t))"
    using d by (simp add: take_pending_def keys_distinct_def distinct_filter_key)
  show "waiting t = waiting (snd (take_pending k t)) + (case map_of t k of None \<Rightarrow> {#} | Some v \<Rightarrow> {#v#})"
    using filter_key_entries [OF d, of k] by (simp add: take_pending_def waiting_def)
  show "map_of (snd (insert_pending k v t)) = (map_of t)(k \<mapsto> v)"
    by (simp add: insert_pending_def map_of_filter_key)
  show "keys_distinct (snd (insert_pending k v t))"
    using d by (auto simp: insert_pending_def keys_distinct_def distinct_filter_key)
  show "waiting (snd (insert_pending k v t)) = add_mset v (waiting (snd (take_pending k t)))"
    by (simp add: insert_pending_def take_pending_def waiting_def)
qed

section \<open>Bookkeeping of channels\<close>

text \<open>Where the channels handed to the driver are: in the queue, waiting for a reply, or settled.\<close>

definition book :: "driver \<Rightarrow> channel multiset" where
  "book d = mset (map channel_of (d_commands d)) + image_mset pd_reply (waiting (d_pending d)) +
     mset (map fst (d_answers d))"

definition book_inv :: "driver \<Rightarrow> bool" where
  "book_inv d \<longleftrightarrow> book d = mset [0..<d_next_channel d] \<and> keys_distinct (d_pending d)"

lemma book_tell [simp]: "book (tell ch a d) = add_mset ch (book d)"
  by (simp add: book_def tell_def)

lemma tell_simps [simp]:
  "d_pending (tell ch a d) = d_pending d" "d_commands (tell ch a d) = d_commands d"
  "d_next_channel (tell ch a d) = d_next_channel d" "d_phase (tell ch a d) = d_phase d"
  "d_state (tell ch a d) = d_state d" "d_steam_id (tell ch a d) = d_steam_id d"
  "d_next_jobid (tell ch a d) = d_next_jobid d" "d_snapshots (tell ch a d) = d_snapshots d"
  "d_events (tell ch a d) = d_events d" "d_now (tell ch a d) = d_now d"
  "d_answers (tell ch a d) = d_answers d @ [(ch, a)]" "d_write (tell ch a d) = d_write d"
  "d_config (tell ch a d) = d_config d" "d_inbox (tell ch a d) = d_inbox d"
  by (simp_all add: tell_def)

lemma book_fail_all [simp]: "book (fail_all_pending reason d) = book d"
  by (simp add: book_def fail_all_pending_def waiting_def comp_def case_prod_beta multiset.map_comp)

lemma fail_all_simps [simp]:
  "d_pending (fail_all_pending r d) = []" "d_commands (fail_all_pending r d) = d_commands d"
  "d_next_channel (fail_all_pending r d) = d_next_channel d"
  "d_phase (fail_all_pending r d) = d_phase d" "d_state (fail_all_pending r d) = d_state d"
  "d_snapshots (fail_all_pending r d) = d_snapshots d"
  "d_next_jobid (fail_all_pending r d) = d_next_jobid d"
  by (simp_all add: fail_all_pending_def)

lemma mset_partition: "mset xs = mset (filter P xs) + mset (filter (\<lambda>x. \<not> P x) xs)"
  by (induction xs) auto

lemma book_sweep [simp]: "book (sweep_pending d) = book d"
proof -
  let ?P = "\<lambda>e. sweep_entry (d_closed d) (d_now d) (snd e) = None"
  have "mset (d_pending d) = mset (filter ?P (d_pending d)) + mset (filter (\<lambda>e. \<not> ?P e) (d_pending d))"
    by (rule mset_partition)
  then have "image_mset (\<lambda>e. pd_reply (snd e)) (mset (d_pending d)) =
      image_mset (\<lambda>e. pd_reply (snd e)) (mset (filter ?P (d_pending d))) +
      image_mset (\<lambda>e. pd_reply (snd e)) (mset (filter (\<lambda>e. \<not> ?P e) (d_pending d)))"
    by (metis image_mset_union)
  then show ?thesis
    by (simp add: book_def sweep_pending_def waiting_def Let_def comp_def case_prod_beta
        multiset.map_comp)
qed

lemma sweep_keys: "keys_distinct (d_pending d) \<Longrightarrow> keys_distinct (d_pending (sweep_pending d))"
  by (simp add: sweep_pending_def keys_distinct_def distinct_filter_key Let_def)

lemma sweep_simps [simp]:
  "d_commands (sweep_pending d) = d_commands d"
  "d_next_channel (sweep_pending d) = d_next_channel d"
  "d_phase (sweep_pending d) = d_phase d" "d_state (sweep_pending d) = d_state d"
  "d_steam_id (sweep_pending d) = d_steam_id d" "d_snapshots (sweep_pending d) = d_snapshots d"
  "d_next_jobid (sweep_pending d) = d_next_jobid d"
  by (simp_all add: sweep_pending_def Let_def)

text \<open>The two outcomes of \<^const>\<open>dispatch\<close>.\<close>

definition routed :: "driver \<Rightarrow> steam_message \<Rightarrow> u64 \<Rightarrow> pending \<Rightarrow> bool" where
  "routed d msg j e \<longleftrightarrow> hdr_jobid_target (sm_header msg) = Some j \<and> j \<noteq> 0 \<and> j \<noteq> u64_max \<and>
     map_of (d_pending d) j = Some e"

definition publish :: "driver \<Rightarrow> steam_message \<Rightarrow> driver" where
  "publish d msg =
     d\<lparr>d_events := d_events d @ [msg],
       d_snapshots :=
         (if sm_emsg msg \<in> set POST_LOGIN_SNAPSHOT_EMSGS \<and> d_snapshots d (sm_emsg msg) = None
          then (d_snapshots d)(sm_emsg msg \<mapsto> sm_body msg) else d_snapshots d)\<rparr>"

lemma dispatch_routed:
  "routed d msg j e \<Longrightarrow>
     dispatch d msg =
       tell (pd_reply e) (Reply (Inr msg)) (d\<lparr>d_pending := snd (take_pending j (d_pending d))\<rparr>)"
  by (simp add: routed_def dispatch_def take_pending_def)

lemma dispatch_unrouted: "(\<nexists>j e. routed d msg j e) \<Longrightarrow> dispatch d msg = publish d msg"
  by (cases "opt_filter (\<lambda>j. j \<noteq> 0 \<and> j \<noteq> u64_max) (hdr_jobid_target (sm_header msg))")
    (auto simp: routed_def dispatch_def publish_def take_pending_def opt_filter_Some_iff Let_def
      split: option.splits)

lemma dispatch_cases:
  obtains (routed) j e where "routed d msg j e"
    "dispatch d msg =
       tell (pd_reply e) (Reply (Inr msg)) (d\<lparr>d_pending := snd (take_pending j (d_pending d))\<rparr>)"
  | (published) "\<nexists>j e. routed d msg j e" "dispatch d msg = publish d msg"
  using dispatch_routed dispatch_unrouted by blast

lemma publish_simps [simp]:
  "d_pending (publish d m) = d_pending d" "d_commands (publish d m) = d_commands d"
  "d_next_channel (publish d m) = d_next_channel d" "d_phase (publish d m) = d_phase d"
  "d_state (publish d m) = d_state d" "d_steam_id (publish d m) = d_steam_id d"
  "d_next_jobid (publish d m) = d_next_jobid d" "d_answers (publish d m) = d_answers d"
  "d_now (publish d m) = d_now d"
  by (simp_all add: publish_def)

lemma book_publish [simp]: "book (publish d m) = book d"
  by (simp add: book_def)

lemma dispatch_simps [simp]:
  "d_commands (dispatch d m) = d_commands d" "d_next_channel (dispatch d m) = d_next_channel d"
  "d_phase (dispatch d m) = d_phase d" "d_state (dispatch d m) = d_state d"
  "d_steam_id (dispatch d m) = d_steam_id d" "d_next_jobid (dispatch d m) = d_next_jobid d"
  "d_now (dispatch d m) = d_now d"
  by (cases rule: dispatch_cases [of d m]; simp)+

lemma dispatch_book:
  assumes "keys_distinct (d_pending d)"
  shows "book (dispatch d m) = book d" "keys_distinct (d_pending (dispatch d m))"
proof -
  show "book (dispatch d m) = book d"
  proof (cases rule: dispatch_cases [of d m])
    case (routed j e)
    then show ?thesis
      using jobs.take_balance [OF assms, of j]
      by (simp add: book_def routed_def jobs.take_fst tell_def)
  qed simp
  show "keys_distinct (d_pending (dispatch d m))"
    by (cases rule: dispatch_cases [of d m]) (simp_all add: assms jobs.take_inv)
qed

lemma dispatch_all_simps [simp]:
  "d_commands (foldl dispatch d ms) = d_commands d"
  "d_next_channel (foldl dispatch d ms) = d_next_channel d"
  "d_phase (foldl dispatch d ms) = d_phase d" "d_state (foldl dispatch d ms) = d_state d"
  "d_steam_id (foldl dispatch d ms) = d_steam_id d"
  "d_next_jobid (foldl dispatch d ms) = d_next_jobid d"
  "d_now (foldl dispatch d ms) = d_now d"
  by (induction ms arbitrary: d; simp)+

lemma dispatch_all_book:
  "keys_distinct (d_pending d) \<Longrightarrow>
     book (foldl dispatch d ms) = book d \<and> keys_distinct (d_pending (foldl dispatch d ms))"
  by (induction ms arbitrary: d) (simp_all add: dispatch_book)

lemma send_frame_frame:
  assumes "send_frame W d emsg j body = (r, d')"
  shows "\<exists>k. d' = d\<lparr>d_write := k\<rparr>"
  using assms by (auto simp: send_frame_def Let_def split: prod.splits)

lemma finish_book [simp]: "book (finish r d) = book d"
proof -
  have "book (finish r d) = book (fail_all_pending ''session driver stopped'' d)"
    by (simp add: finish_def Let_def book_def)
  then show ?thesis by simp
qed

lemma finish_simps [simp]:
  "d_pending (finish r d) = []" "d_commands (finish r d) = d_commands d"
  "d_next_channel (finish r d) = d_next_channel d" "d_next_jobid (finish r d) = d_next_jobid d"
  "d_snapshots (finish r d) = d_snapshots d" "d_state (finish r d) = d_state d"
  "d_steam_id (finish r d) = d_steam_id d" "d_now (finish r d) = d_now d"
  "d_phase (finish r d) = Closing r (d_now d + CLOSE_TIMEOUT)"
  by (simp_all add: finish_def Let_def fail_all_pending_def)

lemma publish_end_book [simp]: "book (publish_end r d) = book d" "book (write_close d) = book d"
  by (simp_all add: publish_end_def write_close_def Let_def book_def comp_def multiset.map_comp split: sum.split)

lemma publish_end_simps [simp]:
  "d_pending (publish_end r d) = d_pending d" "d_commands (publish_end r d) = []"
  "d_next_channel (publish_end r d) = d_next_channel d" "d_next_jobid (publish_end r d) = d_next_jobid d"
  "d_snapshots (publish_end r d) = d_snapshots d" "d_events (publish_end r d) = d_events d"
  "d_phase (publish_end r d) = Ended (map_sum id (\<lambda>_. ()) r)"
  by (simp_all add: publish_end_def Let_def split: sum.split)

lemma write_close_simps [simp]:
  "d_pending (write_close d) = d_pending d" "d_commands (write_close d) = d_commands d"
  "d_next_channel (write_close d) = d_next_channel d" "d_next_jobid (write_close d) = d_next_jobid d"
  "d_snapshots (write_close d) = d_snapshots d" "d_events (write_close d) = d_events d"
  "d_answers (write_close d) = d_answers d" "d_now (write_close d) = d_now d"
  by (simp_all add: write_close_def)

lemma keys_distinct_Nil [simp]: "keys_distinct []"
  by (simp add: keys_distinct_def)

lemma after_exit_book:
  assumes "keys_distinct (d_pending d)"
  shows "book (after_exit x d) = book d" "keys_distinct (d_pending (after_exit x d))"
    "d_next_channel (after_exit x d) = d_next_channel d"
proof -
  let ?d = "foldl dispatch (d\<lparr>d_inbox := []\<rparr>) (d_inbox d)"
  have "book ?d = book (d\<lparr>d_inbox := []\<rparr>)" using dispatch_all_book [of "d\<lparr>d_inbox := []\<rparr>"] assms by simp
  also have "\<dots> = book d" by (simp add: book_def)
  finally have b: "book (fail_all_pending r ?d) = book d" for r by simp
  then have "book (fail_all_pending r ?d\<lparr>d_state := s, d_phase := p\<rparr>) = book d" for r s p
    by (simp add: book_def)
  then show "book (after_exit x d) = book d" by (cases x) (simp_all add: after_exit_def Let_def)
  show "keys_distinct (d_pending (after_exit x d))"
    "d_next_channel (after_exit x d) = d_next_channel d"
    by (cases x; simp add: after_exit_def Let_def)+
qed

lemma step_on_book:
  assumes "keys_distinct (d_pending (snd r))"
  shows "book (step_on r) = book (snd r)" "keys_distinct (d_pending (step_on r))"
    "d_next_channel (step_on r) = d_next_channel (snd r)"
  using assms after_exit_book by (cases r; cases "fst r"; simp add: step_on_def)+

lemma mset_balance:
  fixes X A B C old :: "'a multiset"
  assumes "X + A = B + C" "add_mset r A = C + old"
  shows "X + old = add_mset r B"
proof -
  have "(X + old) + A = (X + A) + old" by (simp add: ac_simps)
  also have "\<dots> = (B + C) + old" by (simp only: assms(1))
  also have "\<dots> = B + (C + old)" by (simp only: add.assoc)
  also have "\<dots> = add_mset r B + A" by (simp flip: assms(2))
  finally show ?thesis by simp
qed

lemma on_request_book:
  assumes "keys_distinct (d_pending d)"
  shows "book (snd (on_command W d (Some (Request emsg body deadline reply)))) = add_mset reply (book d) \<and>
         keys_distinct (d_pending (snd (on_command W d (Some (Request emsg body deadline reply))))) \<and>
         d_next_channel (snd (on_command W d (Some (Request emsg body deadline reply)))) = d_next_channel d"
proof -
  let ?d = "d\<lparr>d_next_jobid := next_job (d_next_jobid d)\<rparr>"
  let ?p = "\<lparr>pd_reply = reply, pd_deadline = deadline\<rparr>"
  obtain r d1 where s: "send_frame W ?d emsg (Some (d_next_jobid d)) body = (r, d1)" by fastforce
  then obtain k where k: "d1 = ?d\<lparr>d_write := k\<rparr>" using send_frame_frame by blast
  have b: "book (d1\<lparr>d_pending := ps\<rparr>) + image_mset pd_reply (waiting (d_pending d)) =
      book d + image_mset pd_reply (waiting ps)" for ps
    by (simp add: book_def k)
  have b0: "book d1 = book d" by (simp add: book_def k)
  obtain old ps where i: "insert_pending (d_next_jobid d) ?p (d_pending d) = (old, ps)" by fastforce
  have bal: "add_mset ?p (waiting (d_pending d)) = waiting ps + (case old of None \<Rightarrow> {#} | Some e \<Rightarrow> {#e#})"
    using jobs.insert_balance [OF assms, of ?p "d_next_jobid d"] i by simp
  have "add_mset reply (image_mset pd_reply (waiting (d_pending d))) =
      image_mset pd_reply (waiting ps) + image_mset pd_reply (case old of None \<Rightarrow> {#} | Some e \<Rightarrow> {#e#})"
    using arg_cong [OF bal, of "image_mset pd_reply"] by simp
  from mset_balance [OF b this]
  have fin: "book (d1\<lparr>d_pending := ps\<rparr>) + (case old of None \<Rightarrow> {#} | Some e \<Rightarrow> {#pd_reply e#}) =
      add_mset reply (book d)"
    by (cases old) simp_all
  have kd: "keys_distinct ps" using jobs.insert_inv [OF assms, of "d_next_jobid d" ?p] i by simp
  show ?thesis
    using s b0 i fin kd assms k by (cases r; cases old) (simp_all add: Let_def)
qed

lemma on_command_book:
  assumes "keys_distinct (d_pending d)"
  shows "book (snd (on_command W d (Some c))) = add_mset (channel_of c) (book d) \<and>
    keys_distinct (d_pending (snd (on_command W d (Some c)))) \<and>
    d_next_channel (snd (on_command W d (Some c))) = d_next_channel d"
proof (cases c)
  case (Request emsg body deadline reply)
  then show ?thesis using on_request_book [OF assms] by simp
next
  case (Notify emsg body ack)
  obtain r d1 where "send_frame W d emsg None body = (r, d1)" by fastforce
  with assms Notify send_frame_frame [OF this] show ?thesis by (auto simp: book_def)
next
  case (Logoff ack)
  obtain r d1 where "send_frame W d EMSG_CLIENT_LOGOFF None [] = (r, d1)" by fastforce
  with assms Logoff send_frame_frame [OF this] show ?thesis by (auto simp: book_def)
qed

lemma on_message_book:
  assumes "keys_distinct (d_pending d)"
  shows "book (snd (on_message W d r)) = book d \<and> keys_distinct (d_pending (snd (on_message W d r))) \<and>
    d_next_channel (snd (on_message W d r)) = d_next_channel d"
  using assms by (simp add: on_message_def dispatch_book split: sum.split)

lemma on_heartbeat_frame:
  "\<exists>k p. snd (on_heartbeat W d) = d\<lparr>d_write := k, d_phase := p\<rparr> \<and>
     (p = d_phase d \<or> (\<exists>hb sw. d_phase d = Connected hb sw \<and> p = Connected (d_now d + d_heartbeat d) sw))"
proof -
  obtain r d1 where s: "send_frame W d EMSG_CLIENT_HEARTBEAT None [] = (r, d1)" by fastforce
  then obtain k where k: "d1 = d\<lparr>d_write := k\<rparr>" using send_frame_frame by blast
  obtain r' k' where p: "write_ping k = (r', k')" by fastforce
  show ?thesis
  proof (cases r)
    case (Inl e)
    with s k show ?thesis
      by (intro exI [of _ k] exI [of _ "d_phase d"]) (simp add: on_heartbeat_def)
  next
    case (Inr u)
    show ?thesis
    proof (cases r')
      case (Inl e)
      with s k p Inr show ?thesis
        by (intro exI [of _ k'] exI [of _ "d_phase d"]) (simp add: on_heartbeat_def)
    next
      case (Inr u')
      with s k p \<open>r = Inr u\<close> show ?thesis
        by (cases "d_phase d") (auto simp: on_heartbeat_def intro!: exI [of _ k'])
    qed
  qed
qed

lemma on_sweep_cases:
  obtains p where "on_sweep d = (Some DisconnectedExit, d\<lparr>d_phase := p\<rparr>)"
    "p = d_phase d \<or> (\<exists>hb sw. d_phase d = Connected hb sw \<and> p = Connected hb (d_now d + PENDING_SWEEP_INTERVAL))"
  | p where "on_sweep d = (None, sweep_pending (d\<lparr>d_phase := p\<rparr>))"
    "p = d_phase d \<or> (\<exists>hb sw. d_phase d = Connected hb sw \<and> p = Connected hb (d_now d + PENDING_SWEEP_INTERVAL))"
proof -
  let ?p = "case d_phase d of Connected hb _ \<Rightarrow> Connected hb (d_now d + PENDING_SWEEP_INTERVAL) | p \<Rightarrow> p"
  have "?p = d_phase d \<or> (\<exists>hb sw. d_phase d = Connected hb sw \<and> ?p = Connected hb (d_now d + PENDING_SWEEP_INTERVAL))"
    by (cases "d_phase d") auto
  with that [of ?p] show thesis
    by (cases "read_idle_expired (d_now d) (d_liveness d) (d_heartbeat d)") (auto simp: on_sweep_def Let_def)
qed

lemma book_update [simp]:
  "book (d\<lparr>d_phase := p\<rparr>) = book d" "book (d\<lparr>d_write := k\<rparr>) = book d"
  "book (d\<lparr>d_state := s\<rparr>) = book d" "book (d\<lparr>d_now := t\<rparr>) = book d"
  "book (d\<lparr>d_read := rd\<rparr>) = book d" "book (d\<lparr>d_inbox := ms\<rparr>) = book d"
  "book (d\<lparr>d_liveness := l\<rparr>) = book d" "book (d\<lparr>d_closed := cs\<rparr>) = book d"
  "book (d\<lparr>d_handles := h\<rparr>) = book d" "book (d\<lparr>d_snapshots := sn\<rparr>) = book d"
  "book (d\<lparr>d_steam_id := sid\<rparr>) = book d" "book (d\<lparr>d_session_id := sess\<rparr>) = book d"
  "book (d\<lparr>d_heartbeat := hb\<rparr>) = book d" "book (d\<lparr>d_next_channel := n\<rparr>) = book d"
  by (simp_all add: book_def)

lemma book_inv_update [simp]:
  "book_inv (d\<lparr>d_phase := p\<rparr>) = book_inv d" "book_inv (d\<lparr>d_now := t\<rparr>) = book_inv d"
  "book_inv (d\<lparr>d_read := rd\<rparr>) = book_inv d" "book_inv (d\<lparr>d_closed := cs\<rparr>) = book_inv d"
  "book_inv (d\<lparr>d_handles := h\<rparr>) = book_inv d"
  by (simp_all add: book_inv_def)

lemma recv_command_book:
  assumes "recv_command d = Some (Some c, d')"
  shows "book d = add_mset (channel_of c) (book d')" "d_pending d' = d_pending d"
    "d_next_channel d' = d_next_channel d" "d_phase d' = d_phase d" "d_state d' = d_state d"
    "d_steam_id d' = d_steam_id d" "d_next_jobid d' = d_next_jobid d" "d_snapshots d' = d_snapshots d"
  using assms by (auto simp: recv_command_def book_def split: list.splits if_splits)

lemma recv_command_none:
  assumes "recv_command d = Some (None, d')" shows "d' = d"
  using assms by (auto simp: recv_command_def split: list.splits if_splits)

lemma command_book:
  assumes "recv_command d = Some (c, d')" "book_inv d"
  shows "book_inv (step_on (on_command W d' c))" "book_inv (command_while_down c d')"
proof -
  have "book_inv (step_on (on_command W d' c)) \<and> book_inv (command_while_down c d')"
  proof (cases c)
    case None
    with assms recv_command_none have "d' = d" by blast
    with assms None show ?thesis
      using step_on_book [of "(Some Shutdown, d)"]
      by (simp add: book_inv_def command_while_down_def)
  next
    case (Some x)
    note r = recv_command_book [OF assms(1) [unfolded Some]]
    from assms(2) r have k: "keys_distinct (d_pending d')" by (simp add: book_inv_def)
    note s = step_on_book [of "on_command W d' (Some x)"] on_command_book [OF k, of W x]
    from assms(2) r s have "book_inv (step_on (on_command W d' c))"
      by (simp add: book_inv_def Some)
    moreover from assms(2) r have "book_inv (command_while_down c d')"
      by (cases x) (simp_all add: book_inv_def Some command_while_down_def)
    ultimately show ?thesis ..
  qed
  then show "book_inv (step_on (on_command W d' c))" "book_inv (command_while_down c d')" by auto
qed

lemma poll_read_book:
  assumes "book_inv d" shows "book_inv (poll_read W d)"
proof -
  obtain p rd inbox live where r: "read_message W (read_now d) (d_inbox d) (d_liveness d) = (p, rd, inbox, live)"
    by (metis prod_cases4)
  let ?d = "d\<lparr>d_read := rd, d_inbox := inbox, d_liveness := live\<rparr>"
  from assms have "keys_distinct (d_pending ?d)" by (simp add: book_inv_def)
  note m = on_message_book [OF this] step_on_book [of "on_message W ?d _"]
  show ?thesis
    using assms m by (cases p) (simp_all add: poll_read_def r book_inv_def)
qed

lemma enter_connected_simps [simp]:
  "book (enter_connected d) = book d" "d_pending (enter_connected d) = d_pending d"
  "d_next_channel (enter_connected d) = d_next_channel d"
  "d_commands (enter_connected d) = d_commands d" "d_answers (enter_connected d) = d_answers d"
  "d_phase (enter_connected d) = Connected (d_now d + d_heartbeat d) (d_now d + PENDING_SWEEP_INTERVAL)"
  "d_state (enter_connected d) = d_state d" "d_steam_id (enter_connected d) = d_steam_id d"
  "d_next_jobid (enter_connected d) = d_next_jobid d" "d_snapshots (enter_connected d) = d_snapshots d"
  by (simp_all add: enter_connected_def)

lemma on_attempt_book:
  assumes "book_inv d" shows "book_inv (on_attempt b outcome d)"
  using assms by (auto simp: on_attempt_def into_parts_def book_inv_def split: sum.split)

lemma book_step: "driver_step W d d' \<Longrightarrow> book_inv d \<Longrightarrow> book_inv d'"
proof (induction rule: driver_step.induct)
  case (submit d c)
  then show ?case by (simp add: book_inv_def book_def)
next
  case (heartbeat d hb sw)
  obtain k p where h: "snd (on_heartbeat W d) = d\<lparr>d_write := k, d_phase := p\<rparr>"
    using on_heartbeat_frame by blast
  with heartbeat step_on_book [of "on_heartbeat W d"] show ?case by (simp add: book_inv_def)
next
  case (sweep d hb sw)
  with step_on_book [of "on_sweep d"] show ?case
    by (cases rule: on_sweep_cases [of d]) (simp_all add: book_inv_def sweep_keys)
next
  case (closed d result until)
  then show ?case by (simp add: book_inv_def)
next
  case (close_expired d result until)
  then show ?case by (simp add: book_inv_def)
qed (simp_all add: command_book poll_read_book on_attempt_book)

section \<open>Phase and published state\<close>

definition backoff_ok :: "millis \<Rightarrow> bool" where
  "backoff_ok b \<longleftrightarrow> INITIAL_BACKOFF \<le> b \<and> b \<le> MAX_BACKOFF"

definition phase_inv :: "driver \<Rightarrow> bool" where
  "phase_inv d \<longleftrightarrow>
     (case d_phase d of
        Connected _ _ \<Rightarrow> d_state d = LoggedOn (d_steam_id d)
      | Sleeping b _ \<Rightarrow> d_state d = Connecting \<and> d_pending d = [] \<and> backoff_ok b
      | Attempting b \<Rightarrow> d_state d = Connecting \<and> d_pending d = [] \<and> backoff_ok b
      | Closing r _ \<Rightarrow> d_pending d = [] \<and>
          (case r of
             Inr _ \<Rightarrow> d_state d = LoggedOn (d_steam_id d) \<or> d_state d = Connecting
           | Inl e \<Rightarrow> is_auth_rejected e \<and> d_state d = Connecting)
      | Ended r \<Rightarrow> d_pending d = [] \<and> d_commands d = [] \<and>
          (case r of
             Inr _ \<Rightarrow> \<exists>reason. d_state d = LoggedOff reason
           | Inl e \<Rightarrow> is_auth_rejected e \<and> d_state d = Failed (display_error e)))"

lemma phase_inv_update [simp]:
  "phase_inv (d\<lparr>d_now := t\<rparr>) = phase_inv d" "phase_inv (d\<lparr>d_read := rd\<rparr>) = phase_inv d"
  "phase_inv (d\<lparr>d_closed := cs\<rparr>) = phase_inv d" "phase_inv (d\<lparr>d_handles := h\<rparr>) = phase_inv d"
  "phase_inv (d\<lparr>d_answers := as\<rparr>) = phase_inv d"
  by (simp_all add: phase_inv_def split: phase.split sum.split)

lemma phase_connected: "d_phase d = Connected hb sw \<Longrightarrow> phase_inv d \<longleftrightarrow> d_state d = LoggedOn (d_steam_id d)"
  by (simp add: phase_inv_def)

lemma finish_phase:
  "d_state d = LoggedOn (d_steam_id d) \<or> d_state d = Connecting \<Longrightarrow> phase_inv (finish (Inr reason) d)"
  "is_auth_rejected e \<Longrightarrow> d_state d = Connecting \<Longrightarrow> phase_inv (finish (Inl e) d)"
  by (simp_all add: phase_inv_def)

lemma publish_end_phase:
  "phase_inv d \<Longrightarrow> d_phase d = Closing result until \<Longrightarrow> phase_inv (publish_end result d)"
  "phase_inv d \<Longrightarrow> d_phase d = Closing result until \<Longrightarrow> phase_inv (publish_end result (write_close d))"
  by (auto simp: phase_inv_def publish_end_def Let_def split: sum.splits)

lemma backoff_bounds [simp]: "backoff_ok INITIAL_BACKOFF" "backoff_ok b \<Longrightarrow> backoff_ok (next_backoff b)"
  by (auto simp: backoff_ok_def next_backoff_def INITIAL_BACKOFF_def MAX_BACKOFF_def)

lemma after_exit_phase: "d_state d = LoggedOn (d_steam_id d) \<Longrightarrow> phase_inv (after_exit x d)"
proof (cases x)
  case DisconnectedExit
  then show ?thesis by (simp add: after_exit_def Let_def phase_inv_def)
qed (simp_all add: after_exit_def finish_phase)

lemma step_on_phase:
  assumes "phase_inv (snd r)" "d_phase (snd r) = Connected hb sw"
  shows "phase_inv (step_on r)"
  using assms by (cases r; cases "fst r") (simp_all add: step_on_def after_exit_phase phase_connected)

lemma on_command_keeps:
  "d_phase (snd (on_command W d c)) = d_phase d" "d_state (snd (on_command W d c)) = d_state d"
  "d_steam_id (snd (on_command W d c)) = d_steam_id d"
  "d_snapshots (snd (on_command W d c)) = d_snapshots d"
proof -
  have "d_phase (snd (on_command W d c)) = d_phase d \<and> d_state (snd (on_command W d c)) = d_state d \<and>
      d_steam_id (snd (on_command W d c)) = d_steam_id d \<and> d_snapshots (snd (on_command W d c)) = d_snapshots d"
  proof (cases "(W, d, c)" rule: on_command.cases)
    case (2 _ _ emsg body ack)
    obtain r d1 where s: "send_frame W d emsg None body = (r, d1)" by fastforce
    with 2 send_frame_frame [OF s] show ?thesis by auto
  next
    case (3 _ _ ack)
    obtain r d1 where s: "send_frame W d EMSG_CLIENT_LOGOFF None [] = (r, d1)" by fastforce
    with 3 send_frame_frame [OF s] show ?thesis by auto
  next
    case (4 _ _ emsg body deadline reply)
    let ?d = "d\<lparr>d_next_jobid := next_job (d_next_jobid d)\<rparr>"
    obtain r d1 where s: "send_frame W ?d emsg (Some (d_next_jobid d)) body = (r, d1)" by fastforce
    with 4 send_frame_frame [OF s] show ?thesis
      by (auto simp: Let_def split: sum.split option.split prod.split)
  qed auto
  then show "d_phase (snd (on_command W d c)) = d_phase d" "d_state (snd (on_command W d c)) = d_state d"
    "d_steam_id (snd (on_command W d c)) = d_steam_id d"
    "d_snapshots (snd (on_command W d c)) = d_snapshots d" by auto
qed

lemma answer_while_down_keeps:
  "\<exists>as. snd (answer_while_down c d) = d\<lparr>d_answers := as\<rparr>"
proof (cases "(c, d)" rule: answer_while_down.cases)
  case 1
  then have "snd (answer_while_down c d) = d\<lparr>d_answers := d_answers d\<rparr>" by simp
  then show ?thesis ..
qed (auto simp: tell_def)

lemma command_while_down_phase:
  assumes "phase_inv d" "d_state d = Connecting"
  shows "phase_inv (command_while_down c d)"
proof -
  obtain stop d1 where a: "answer_while_down c d = (stop, d1)" by fastforce
  with answer_while_down_keeps [of c d] obtain as where d1: "d1 = d\<lparr>d_answers := as\<rparr>" by auto
  show ?thesis
    using assms by (cases stop) (simp_all add: command_while_down_def a finish_phase d1)
qed

lemma recv_command_keeps:
  assumes "recv_command d = Some (c, d')"
  shows "d_phase d' = d_phase d" "d_state d' = d_state d" "d_steam_id d' = d_steam_id d"
    "d_pending d' = d_pending d" "d_next_jobid d' = d_next_jobid d" "d_snapshots d' = d_snapshots d"
  using assms by (auto simp: recv_command_def split: list.splits if_splits)

lemma on_message_keeps:
  "d_phase (snd (on_message W d r)) = d_phase d" "d_state (snd (on_message W d r)) = d_state d"
  "d_steam_id (snd (on_message W d r)) = d_steam_id d"
  by (simp_all add: on_message_def split: sum.split)

lemma poll_read_phase:
  assumes "phase_inv d" "d_phase d = Connected hb sw"
  shows "phase_inv (poll_read W d)"
proof -
  obtain p rd inbox live where r: "read_message W (read_now d) (d_inbox d) (d_liveness d) = (p, rd, inbox, live)"
    by (metis prod_cases4)
  let ?d = "d\<lparr>d_read := rd, d_inbox := inbox, d_liveness := live\<rparr>"
  have "phase_inv (snd (on_message W ?d x))" "d_phase (snd (on_message W ?d x)) = Connected hb sw" for x
    using assms by (simp_all add: phase_inv_def on_message_keeps)
  then have "phase_inv (step_on (on_message W ?d x))" for x by (rule step_on_phase)
  with assms show ?thesis by (cases p) (simp_all add: poll_read_def r phase_inv_def)
qed

lemma phase_step: "driver_step W d d' \<Longrightarrow> phase_inv d \<Longrightarrow> phase_inv d'"
proof (induction rule: driver_step.induct)
  case (command d hb sw c d')
  then show ?case
    by (intro step_on_phase [of _ hb sw])
      (simp_all add: phase_inv_def on_command_keeps recv_command_keeps [OF command(2)])
next
  case (message d hb sw)
  then show ?case by (simp add: poll_read_phase)
next
  case (heartbeat d hb sw)
  obtain k p where h: "snd (on_heartbeat W d) = d\<lparr>d_write := k, d_phase := p\<rparr>"
    "p = d_phase d \<or> (\<exists>hb sw. d_phase d = Connected hb sw \<and> p = Connected (d_now d + d_heartbeat d) sw)"
    using on_heartbeat_frame by blast
  with heartbeat have "phase_inv (snd (on_heartbeat W d))" "\<exists>hb sw. d_phase (snd (on_heartbeat W d)) = Connected hb sw"
    by (auto simp: phase_inv_def)
  then show ?case by (auto intro: step_on_phase)
next
  case (sweep d hb sw)
  have "phase_inv (snd (on_sweep d))" "\<exists>hb sw. d_phase (snd (on_sweep d)) = Connected hb sw"
    using sweep by (cases rule: on_sweep_cases [of d]; auto simp: phase_inv_def)+
  then show ?case by (auto intro: step_on_phase)
next
  case (command_asleep d b until c d')
  then show ?case
    by (intro command_while_down_phase)
      (simp_all add: phase_inv_def recv_command_keeps [OF command_asleep(2)])
next
  case (command_attempting d b c d')
  then show ?case
    by (intro command_while_down_phase)
      (simp_all add: phase_inv_def recv_command_keeps [OF command_attempting(2)])
next
  case (attempted d b C outcome)
  show ?case
  proof (cases outcome)
    case (Inl e)
    with attempted show ?thesis
      by (cases "is_auth_rejected e") (simp_all add: on_attempt_def finish_phase phase_inv_def)
  next
    case (Inr cl)
    then show ?thesis
      by (cases cl) (simp add: on_attempt_def into_parts_def phase_inv_def)
  qed
next
  case (submit d c)
  then show ?case by (auto simp: phase_inv_def live_phase_def split: phase.splits sum.splits)
next
  case (wake d b until)
  then show ?case by (simp add: phase_inv_def)
next
  case (closed d result until)
  then show ?case by (simp add: publish_end_phase)
next
  case (close_expired d result until)
  then show ?case by (simp add: publish_end_phase)
qed simp_all

section \<open>Job ids and the snapshot cache\<close>

definition job_inv :: "driver \<Rightarrow> bool" where
  "job_inv d \<longleftrightarrow> d_next_jobid d \<noteq> 0 \<and> 0 \<notin> fst ` set (d_pending d) \<and>
     (\<forall>e b. d_snapshots d e = Some b \<longrightarrow>
        e \<in> set POST_LOGIN_SNAPSHOT_EMSGS \<and> (\<exists>m \<in> set (d_events d). sm_emsg m = e \<and> sm_body m = b))"

lemma job_inv_update [simp]:
  "job_inv (d\<lparr>d_now := t\<rparr>) = job_inv d" "job_inv (d\<lparr>d_read := rd\<rparr>) = job_inv d"
  "job_inv (d\<lparr>d_closed := cs\<rparr>) = job_inv d" "job_inv (d\<lparr>d_handles := h\<rparr>) = job_inv d"
  "job_inv (d\<lparr>d_answers := as\<rparr>) = job_inv d" "job_inv (d\<lparr>d_phase := p\<rparr>) = job_inv d"
  "job_inv (d\<lparr>d_write := k\<rparr>) = job_inv d" "job_inv (d\<lparr>d_state := s\<rparr>) = job_inv d"
  "job_inv (d\<lparr>d_inbox := ms\<rparr>) = job_inv d" "job_inv (d\<lparr>d_liveness := l\<rparr>) = job_inv d"
  "job_inv (d\<lparr>d_commands := c\<rparr>) = job_inv d" "job_inv (d\<lparr>d_next_channel := n\<rparr>) = job_inv d"
  "job_inv (tell ch a d) = job_inv d" "job_inv (enter_connected d) = job_inv d"
  by (simp_all add: job_inv_def tell_def enter_connected_def)

lemma job_inv_fewer:
  "job_inv d \<Longrightarrow> set ps \<subseteq> set (d_pending d) \<Longrightarrow> job_inv (d\<lparr>d_pending := ps\<rparr>)"
  by (auto simp: job_inv_def)

lemma job_inv_fail_all: "job_inv d \<Longrightarrow> job_inv (fail_all_pending r d)"
  by (auto simp: job_inv_def fail_all_pending_def)

lemma job_inv_sweep: "job_inv d \<Longrightarrow> job_inv (sweep_pending d)"
  unfolding sweep_pending_def Let_def by (simp add: job_inv_fewer)

lemma job_inv_publish: "job_inv d \<Longrightarrow> job_inv (publish d m)"
  by (auto simp: job_inv_def publish_def)

lemma job_inv_dispatch: "job_inv d \<Longrightarrow> job_inv (dispatch d m)"
  by (cases rule: dispatch_cases [of d m])
    (auto simp: job_inv_publish take_pending_def intro: job_inv_fewer)

lemma job_inv_dispatch_all: "job_inv d \<Longrightarrow> job_inv (foldl dispatch d ms)"
  by (induction ms arbitrary: d) (simp_all add: job_inv_dispatch)

lemma job_inv_finish: "job_inv d \<Longrightarrow> job_inv (finish r d)"
  using job_inv_fail_all [of d] by (simp add: finish_def Let_def)

lemma job_inv_publish_end: "job_inv d \<Longrightarrow> job_inv (publish_end r d)" "job_inv d \<Longrightarrow> job_inv (write_close d)"
  by (simp_all add: publish_end_def write_close_def Let_def split: sum.split)

lemma job_inv_after_exit: "job_inv d \<Longrightarrow> job_inv (after_exit x d)"
  by (cases x) (simp_all add: after_exit_def Let_def job_inv_finish job_inv_fail_all job_inv_dispatch_all)

lemma job_inv_step_on: "job_inv (snd r) \<Longrightarrow> job_inv (step_on r)"
  by (cases r; cases "fst r") (simp_all add: step_on_def job_inv_after_exit)

lemma next_job_nonzero: "next_job j \<noteq> 0"
proof (cases "j = - 1")
  case False
  then have "j + 1 \<noteq> 0" by (metis add.right_inverse add_diff_cancel_right' diff_0)
  then show ?thesis by (simp add: next_job_def)
qed (simp add: next_job_def)

lemma job_inv_command:
  assumes "job_inv d" shows "job_inv (snd (on_command W d c))"
proof (cases "(W, d, c)" rule: on_command.cases)
  case (2 _ _ emsg body ack)
  obtain r d1 where s: "send_frame W d emsg None body = (r, d1)" by fastforce
  with 2 send_frame_frame [OF s] assms show ?thesis by auto
next
  case (3 _ _ ack)
  obtain r d1 where s: "send_frame W d EMSG_CLIENT_LOGOFF None [] = (r, d1)" by fastforce
  with 3 send_frame_frame [OF s] assms show ?thesis by auto
next
  case (4 _ _ emsg body deadline reply)
  let ?d = "d\<lparr>d_next_jobid := next_job (d_next_jobid d)\<rparr>"
  obtain r d1 where s: "send_frame W ?d emsg (Some (d_next_jobid d)) body = (r, d1)" by fastforce
  have "job_inv ?d" using assms by (simp add: job_inv_def next_job_nonzero)
  then have "job_inv d1" "d_pending d1 = d_pending d" "d_next_jobid d \<noteq> 0"
    using send_frame_frame [OF s] assms by (auto simp: job_inv_def)
  then have "job_inv (d1\<lparr>d_pending := snd (insert_pending (d_next_jobid d) p (d_pending d))\<rparr>)" for p
    by (auto simp: job_inv_def insert_pending_def)
  with 4 s \<open>job_inv d1\<close> \<open>d_pending d1 = d_pending d\<close> show ?thesis
    by (auto simp: Let_def insert_pending_def split: sum.split option.split)
qed (use assms in auto)

lemma job_inv_message: "job_inv d \<Longrightarrow> job_inv (snd (on_message W d r))"
  by (simp add: on_message_def job_inv_dispatch split: sum.split)

lemma job_inv_poll: "job_inv d \<Longrightarrow> job_inv (poll_read W d)"
  by (simp add: poll_read_def Let_def job_inv_step_on job_inv_message split: prod.split poll.split)

lemma job_inv_while_down:
  assumes "job_inv d" shows "job_inv (command_while_down c d)"
proof -
  obtain stop d1 where a: "answer_while_down c d = (stop, d1)" by fastforce
  with answer_while_down_keeps [of c d] obtain as where "d1 = d\<lparr>d_answers := as\<rparr>" by auto
  with assms show ?thesis by (cases stop) (simp_all add: command_while_down_def a job_inv_finish)
qed

lemma job_inv_recv: "recv_command d = Some (c, d') \<Longrightarrow> job_inv d \<Longrightarrow> job_inv d'"
  by (auto simp: recv_command_def split: list.splits if_splits)

lemma job_step: "driver_step W d d' \<Longrightarrow> job_inv d \<Longrightarrow> job_inv d'"
proof (induction rule: driver_step.induct)
  case (heartbeat d hb sw)
  obtain k p where "snd (on_heartbeat W d) = d\<lparr>d_write := k, d_phase := p\<rparr>"
    using on_heartbeat_frame by blast
  with heartbeat show ?case by (intro job_inv_step_on) simp
next
  case (sweep d hb sw)
  have "job_inv (snd (on_sweep d))"
    using sweep by (cases rule: on_sweep_cases [of d]) (simp_all add: job_inv_sweep)
  then show ?case by (rule job_inv_step_on)
next
  case (attempted d b C outcome)
  then show ?case
    by (auto simp: on_attempt_def into_parts_def job_inv_finish split: sum.split)
      (auto simp: job_inv_def)
qed (simp_all add: job_inv_step_on job_inv_command job_inv_poll job_inv_while_down job_inv_recv job_inv_publish_end)

section \<open>The invariant\<close>

definition driver_inv :: "driver \<Rightarrow> bool" where
  "driver_inv d \<longleftrightarrow> book_inv d \<and> phase_inv d \<and> job_inv d"

lemma driver_inv_start: "driver_start W d \<Longrightarrow> driver_inv d"
  by (auto simp: driver_start_def spawn_session_def spawn_driver_def into_parts_def and_then_Inr_iff
      driver_inv_def book_inv_def phase_inv_def job_inv_def)
    (simp add: book_def waiting_def enter_connected_def)

interpretation session: invariant "driver_start W" "driver_step W" driver_inv for W
  by unfold_locales
    (auto simp: driver_inv_def intro: book_step phase_step job_step
      dest: driver_inv_start [unfolded driver_inv_def])

end
