(* ===== verification/Session.thy ===== *)
theory Session
  imports Driver_Inv
begin

text \<open>
  What the session driver promises, as theorems about its handlers and about every state it can
  reach.
\<close>

section \<open>Reachable states\<close>

lemma reachable_inv:
  "reachable (driver_start W) (driver_step W) d \<Longrightarrow> book_inv d \<and> phase_inv d \<and> job_inv d"
  using session.inv_reachable [of W d] by (simp add: driver_inv_def)

lemma book_list: "book d = mset (map channel_of (d_commands d) @ map (pd_reply \<circ> snd) (d_pending d) @ map fst (d_answers d))"
  by (simp add: book_def waiting_def multiset.map_comp)

text \<open>C1: no command is lost and none is answered twice.  In every reachable state each channel that
  a handle put on the queue is in exactly one place: still queued, waiting for its reply, or
  settled by one answer; and once the driver has stopped, every one of them is settled.\<close>

theorem every_command_settled_once:
  assumes "reachable (driver_start W) (driver_step W) d"
  defines "places \<equiv> map channel_of (d_commands d) @ map (pd_reply \<circ> snd) (d_pending d) @ map fst (d_answers d)"
  shows "distinct places \<and> set places = {..<d_next_channel d} \<and>
    (\<forall>r. d_phase d = Ended r \<longrightarrow> d_commands d = [] \<and> d_pending d = [] \<and> places = map fst (d_answers d))"
proof -
  note inv = reachable_inv [OF assms(1)]
  then have m: "mset places = mset [0..<d_next_channel d]"
    by (simp only: book_inv_def book_list places_def)
  have "distinct places" using mset_eq_imp_distinct_iff [OF m] by simp
  moreover have "set places = {..<d_next_channel d}" using mset_eq_setD [OF m]
    by (simp only: set_upt lessThan_atLeast0)
  moreover have "d_commands d = [] \<and> d_pending d = []" if "d_phase d = Ended r" for r
    using inv that by (simp add: phase_inv_def)
  ultimately show ?thesis unfolding places_def by simp
qed

text \<open>C7: the published state never lies about the driver.  The two deprecated states are never published.
  In the connected loop the state is \<^verbatim>\<open>LoggedOn\<close> with the SteamID in use, while the driver re-establishes
  it is \<^verbatim>\<open>Connecting\<close>.  Conversely a watcher who sees \<^verbatim>\<open>LoggedOn\<close> knows that the driver is in that loop
  with that SteamID, or has left it and is closing its socket, where the last state stands until the
  close returns or its five seconds are over; one who sees \<^verbatim>\<open>Connecting\<close>, that it re-establishes or is
  closing; one who sees \<^verbatim>\<open>LoggedOff\<close>, that it ended without an error; one who sees \<^verbatim>\<open>Failed\<close>, that it ended
  with a rejected token, whose message it is.\<close>

theorem published_state:
  assumes "reachable (driver_start W) (driver_step W) d"
  shows "d_state d \<noteq> Disconnected \<and> d_state d \<noteq> Authenticating \<and>
    ((\<exists>hb sw. d_phase d = Connected hb sw) \<longrightarrow> d_state d = LoggedOn (d_steam_id d)) \<and>
    ((\<exists>b u. d_phase d = Sleeping b u) \<or> (\<exists>b. d_phase d = Attempting b) \<longrightarrow> d_state d = Connecting) \<and>
    (\<forall>sid. d_state d = LoggedOn sid \<longrightarrow> sid = d_steam_id d \<and>
       ((\<exists>hb sw. d_phase d = Connected hb sw) \<or> (\<exists>reason u. d_phase d = Closing (Inr reason) u))) \<and>
    (d_state d = Connecting \<longrightarrow>
       (\<exists>b u. d_phase d = Sleeping b u) \<or> (\<exists>b. d_phase d = Attempting b) \<or> (\<exists>result u. d_phase d = Closing result u)) \<and>
    ((\<exists>reason. d_state d = LoggedOff reason) \<longleftrightarrow> d_phase d = Ended (Inr ())) \<and>
    (\<forall>text. d_state d = Failed text \<longleftrightarrow>
       (\<exists>e. d_phase d = Ended (Inl e) \<and> is_auth_rejected e \<and> text = display_error e))"
proof -
  have "phase_inv d" using reachable_inv [OF assms] by simp
  then show ?thesis
    unfolding phase_inv_def by (cases "d_phase d") (auto split: sum.splits)
qed

text \<open>A stopped driver stays stopped: whatever happens afterwards, it answers nothing, writes
  nothing, publishes nothing and accepts no command.\<close>

theorem ended_is_final:
  assumes "driver_step W d d'" "d_phase d = Ended r" "phase_inv d"
  shows "d_phase d' = Ended r \<and> d_answers d' = d_answers d \<and> d_write d' = d_write d \<and>
    d_events d' = d_events d \<and> d_state d' = d_state d \<and> d_commands d' = []"
  using assms by (cases rule: driver_step.cases) (auto simp: live_phase_def phase_inv_def)

section \<open>Routing\<close>

text \<open>\<^verbatim>\<open>dispatch\<close>: a message whose target is a pending job goes to that request alone, and is neither
  broadcast nor cached; every other message is broadcast, answers nobody, and is cached exactly when
  it is the first of its kind among the post-logon snapshots.\<close>

theorem dispatch_spec:
  assumes "keys_distinct (d_pending d)"
  shows "(\<forall>j e. hdr_jobid_target (sm_header m) = Some j \<longrightarrow> j \<noteq> 0 \<longrightarrow> j \<noteq> u64_max \<longrightarrow>
            map_of (d_pending d) j = Some e \<longrightarrow>
            d_answers (dispatch d m) = d_answers d @ [(pd_reply e, Reply (Inr m))] \<and>
            map_of (d_pending (dispatch d m)) = (map_of (d_pending d))(j := None) \<and>
            d_events (dispatch d m) = d_events d \<and> d_snapshots (dispatch d m) = d_snapshots d) \<and>
         ((\<forall>j. hdr_jobid_target (sm_header m) = Some j \<longrightarrow>
             j = 0 \<or> j = u64_max \<or> map_of (d_pending d) j = None) \<longrightarrow>
            d_answers (dispatch d m) = d_answers d \<and> d_pending (dispatch d m) = d_pending d \<and>
            d_events (dispatch d m) = d_events d @ [m] \<and>
            d_snapshots (dispatch d m) =
              (if sm_emsg m \<in> {767, 5553, 5587} \<and> d_snapshots d (sm_emsg m) = None
               then (d_snapshots d)(sm_emsg m \<mapsto> sm_body m) else d_snapshots d))"
proof (intro conjI [of "\<forall>j e. _ j e"] allI impI, goal_cases)
  case (1 j e)
  then have "routed d m j e" by (simp add: routed_def)
  from dispatch_routed [OF this] show ?case
    using jobs.take_lookup [OF assms, of j] by simp
next
  case 2
  then have "\<nexists>j e. routed d m j e" by (auto simp: routed_def)
  from dispatch_unrouted [OF this] show ?case
    by (simp add: publish_def POST_LOGIN_SNAPSHOT_EMSGS_def)
qed

lemma request_in_flight:
  assumes "on_command W d (Some (Request emsg body deadline reply)) = (None, d')" "keys_distinct (d_pending d)"
  shows "sk_sent (d_write d') = sk_sent (d_write d) @
           [WsBinary (encode_raw (w_enc_header W) emsg
              (default_header\<lparr>hdr_steamid := Some (d_steam_id d), hdr_client_sessionid := Some (d_session_id d),
                              hdr_jobid_source := Some (d_next_jobid d)\<rparr>) body)]"
    "map_of (d_pending d') = (map_of (d_pending d))(d_next_jobid d \<mapsto> \<lparr>pd_reply = reply, pd_deadline = deadline\<rparr>)"
    "keys_distinct (d_pending d')" "d_next_jobid d' = next_job (d_next_jobid d)"
    "d_snapshots d' = d_snapshots d" "d_events d' = d_events d"
proof -
  let ?d = "d\<lparr>d_next_jobid := next_job (d_next_jobid d)\<rparr>"
  let ?p = "\<lparr>pd_reply = reply, pd_deadline = deadline\<rparr>"
  obtain r d1 where s: "send_frame W ?d emsg (Some (d_next_jobid d)) body = (r, d1)" by fastforce
  with assms(1) have r: "r = Inr ()" by (cases r) simp_all
  from s r obtain k where d1: "d1 = ?d\<lparr>d_write := k\<rparr>" and k: "sk_sent k = sk_sent (d_write d) @
           [WsBinary (encode_raw (w_enc_header W) emsg
              (default_header\<lparr>hdr_steamid := Some (d_steam_id d), hdr_client_sessionid := Some (d_session_id d),
                              hdr_jobid_source := Some (d_next_jobid d)\<rparr>) body)]"
    by (auto simp: send_frame_def write_frame_def dest!: sink_send_cases split: prod.splits)
  obtain old ps where i: "insert_pending (d_next_jobid d) ?p (d_pending d) = (old, ps)" by fastforce
  have c: "snd (on_command W d (Some (Request emsg body deadline reply))) =
      (case old of None \<Rightarrow> d1\<lparr>d_pending := ps\<rparr> | Some e \<Rightarrow> tell (pd_reply e) Dropped (d1\<lparr>d_pending := ps\<rparr>))"
    using s r i by (cases old) (simp_all add: d1 Let_def)
  have d': "d' = (case old of None \<Rightarrow> d1\<lparr>d_pending := ps\<rparr>
      | Some e \<Rightarrow> tell (pd_reply e) Dropped (d1\<lparr>d_pending := ps\<rparr>))"
    using c unfolding assms(1) snd_conv .
  have keep: "d_pending d' = ps" "d_write d' = k" "d_next_jobid d' = next_job (d_next_jobid d)"
    "d_snapshots d' = d_snapshots d" "d_events d' = d_events d"
    unfolding d' d1 by (cases old; simp)+
  show "sk_sent (d_write d') = sk_sent (d_write d) @
           [WsBinary (encode_raw (w_enc_header W) emsg
              (default_header\<lparr>hdr_steamid := Some (d_steam_id d), hdr_client_sessionid := Some (d_session_id d),
                              hdr_jobid_source := Some (d_next_jobid d)\<rparr>) body)]"
    unfolding keep by (rule k)
  show "map_of (d_pending d') = (map_of (d_pending d))(d_next_jobid d \<mapsto> ?p)" "keys_distinct (d_pending d')"
    using jobs.insert_snd [OF assms(2), of "d_next_jobid d" ?p]
      jobs.insert_inv [OF assms(2), of "d_next_jobid d" ?p]
    unfolding keep i snd_conv by simp_all
  show "d_next_jobid d' = next_job (d_next_jobid d)" "d_snapshots d' = d_snapshots d" "d_events d' = d_events d"
    by (fact keep)+
qed

text \<open>C3: a request reaches Steam with the next job id in its header, and a message that targets that
  job id is handed to exactly this request: it is the one answer added, and the other requests in
  flight stay as they are.\<close>

theorem request_correlated:
  assumes "reachable (driver_start W) (driver_step W) d" "d_next_jobid d \<noteq> u64_max"
    and "on_command W d (Some (Request emsg body deadline reply)) = (None, d')"
    and "hdr_jobid_target (sm_header m) = Some (d_next_jobid d)" "sm_emsg m \<noteq> EMSG_CLIENT_LOGGED_OFF"
  shows "sk_sent (d_write d') = sk_sent (d_write d) @
           [WsBinary (encode_raw (w_enc_header W) emsg
              (default_header\<lparr>hdr_steamid := Some (d_steam_id d), hdr_client_sessionid := Some (d_session_id d),
                              hdr_jobid_source := Some (d_next_jobid d)\<rparr>) body)] \<and>
    (\<exists>d''. on_message W d' (Inr m) = (None, d'') \<and>
       d_answers d'' = d_answers d' @ [(reply, Reply (Inr m))] \<and>
       map_of (d_pending d'') = (map_of (d_pending d))(d_next_jobid d := None))"
proof -
  have kd: "keys_distinct (d_pending d)" and j: "d_next_jobid d \<noteq> 0"
    using reachable_inv [OF assms(1)] by (simp_all add: book_inv_def job_inv_def)
  note f = request_in_flight [OF assms(3) kd]
  have r: "routed d' m (d_next_jobid d) \<lparr>pd_reply = reply, pd_deadline = deadline\<rparr>"
    using assms(2, 4) j f(2) by (simp add: routed_def)
  have "on_message W d' (Inr m) = (None, dispatch d' m)"
    using assms(5) by (simp add: on_message_def)
  with dispatch_routed [OF r] jobs.take_lookup [OF f(3), of "d_next_jobid d"] f(1, 2)
  show ?thesis by (simp add: fun_upd_upd)
qed

text \<open>C16: the one job id that cannot be answered.  The counter wraps from the largest 64-bit value to
  1 and so hands out that value, which \<^verbatim>\<open>dispatch\<close> takes for the mark of a message without a target:
  a reply to that request is broadcast, and the request stays in flight until it times out.\<close>

theorem last_job_id_unanswerable:
  assumes "d_next_jobid d = u64_max" "keys_distinct (d_pending d)"
    and "on_command W d (Some (Request emsg body deadline reply)) = (None, d')"
    and "hdr_jobid_target (sm_header m) = Some (d_next_jobid d)" "sm_emsg m \<noteq> EMSG_CLIENT_LOGGED_OFF"
  shows "\<exists>d''. on_message W d' (Inr m) = (None, d'') \<and> d_answers d'' = d_answers d' \<and>
    map_of (d_pending d'') u64_max = Some \<lparr>pd_reply = reply, pd_deadline = deadline\<rparr> \<and>
    d_events d'' = d_events d' @ [m] \<and> d_next_jobid d'' = 1"
proof -
  note f = request_in_flight [OF assms(3, 2)]
  have "dispatch d' m = publish d' m"
    using assms(1, 4) by (intro dispatch_unrouted) (simp add: routed_def)
  then show ?thesis
    using assms(1, 5) f(2, 4) by (simp add: on_message_def publish_def next_job_def)
qed

lemma dispatch_other:
  assumes "keys_distinct (d_pending d)" "hdr_jobid_target (sm_header m) \<noteq> Some j"
  shows "map_of (d_pending (dispatch d m)) j = map_of (d_pending d) j"
proof (cases rule: dispatch_cases [of d m])
  case (routed j' e)
  with assms(2) have "j \<noteq> j'" by (auto simp: routed_def)
  with routed show ?thesis using jobs.take_other [OF assms(1)] by simp
qed simp

lemma dispatch_all_other:
  "keys_distinct (d_pending d) \<Longrightarrow> \<forall>m \<in> set ms. hdr_jobid_target (sm_header m) \<noteq> Some j \<Longrightarrow>
     map_of (d_pending (foldl dispatch d ms)) j = map_of (d_pending d) j"
  by (induction ms arbitrary: d) (simp_all add: dispatch_other dispatch_book)

lemma dispatch_answers: "set (d_answers d) \<subseteq> set (d_answers (dispatch d m))"
  by (cases rule: dispatch_cases [of d m]) auto

lemma dispatch_all_answers: "set (d_answers d) \<subseteq> set (d_answers (foldl dispatch d ms))"
  by (induction ms arbitrary: d) (simp, use dispatch_answers in fastforce)

text \<open>C12: messages already unpacked when a connection is lost are still delivered: the reply to a
  pending job that is in the buffer answers its request, and only what is left is failed with the
  reconnect error.\<close>

theorem disconnect_delivers_buffer:
  assumes "keys_distinct (d_pending d)" "d_inbox d = ms @ m # ms'"
    and "hdr_jobid_target (sm_header m) = Some j" "j \<noteq> 0" "j \<noteq> u64_max"
    and "map_of (d_pending d) j = Some e"
    and "\<forall>x \<in> set ms. hdr_jobid_target (sm_header x) \<noteq> Some j"
  shows "(pd_reply e, Reply (Inr m)) \<in> set (d_answers (after_exit DisconnectedExit d)) \<and>
    d_pending (after_exit DisconnectedExit d) = [] \<and> d_state (after_exit DisconnectedExit d) = Connecting"
proof -
  let ?d = "d\<lparr>d_inbox := []\<rparr>"
  let ?d1 = "foldl dispatch ?d ms"
  have "map_of (d_pending ?d1) j = Some e"
    using dispatch_all_other [of ?d ms j] assms(1, 6, 7) by simp
  then have "routed ?d1 m j e" using assms(3-5) by (simp add: routed_def)
  then have "(pd_reply e, Reply (Inr m)) \<in> set (d_answers (dispatch ?d1 m))"
    by (simp add: dispatch_routed)
  then have "(pd_reply e, Reply (Inr m)) \<in> set (d_answers (foldl dispatch ?d (d_inbox d)))"
    using dispatch_all_answers [of "dispatch ?d1 m" ms'] by (auto simp: assms(2))
  then show ?thesis by (simp add: after_exit_def Let_def fail_all_pending_def)
qed

section \<open>Time limits\<close>

text \<open>a sweep settles every request that is due: what stays in flight has a live caller and a
  deadline in the future, a request whose deadline has passed is answered with a timeout, one whose
  caller has gone is reaped silently, and no other request is touched.\<close>

theorem sweep_settles_due_requests:
  assumes "on_sweep d = (None, d')"
  shows "set (d_pending d') = {(j, p) \<in> set (d_pending d). d_now d < pd_deadline p \<and> pd_reply p \<notin> set (d_closed d)} \<and>
    (\<forall>(j, p) \<in> set (d_pending d). pd_reply p \<in> set (d_closed d) \<longrightarrow> (pd_reply p, Abandoned) \<in> set (d_answers d')) \<and>
    (\<forall>(j, p) \<in> set (d_pending d). pd_reply p \<notin> set (d_closed d) \<and> pd_deadline p \<le> d_now d \<longrightarrow>
       (pd_reply p, Reply (Inl (Timeout ''steam request''))) \<in> set (d_answers d'))"
proof -
  obtain q where d': "d' = sweep_pending (d\<lparr>d_phase := q\<rparr>)"
    using assms by (cases rule: on_sweep_cases [of d]) auto
  show ?thesis
    unfolding d' by (force simp: sweep_pending_def Let_def sweep_entry_def split: if_splits)
qed

text \<open>the read-idle watchdog: a sweep tears the connection down exactly when no frame of any kind
  has arrived for six heartbeat intervals, and never within a minute of the last one.\<close>

theorem watchdog_spec:
  "fst (on_sweep d) = Some DisconnectedExit \<longleftrightarrow>
     d_liveness d + 6 * d_heartbeat d \<le> d_now d \<and> d_liveness d + 60000 \<le> d_now d"
  by (auto simp: on_sweep_def Let_def read_idle_expired_def idle_timeout_def idle_for_def
      IDLE_PROBE_MISSES_def MIN_IDLE_TIMEOUT_def max_def)

lemma backoff_iterate: "(next_backoff ^^ n) INITIAL_BACKOFF = min (1000 * 2 ^ n) 60000"
  by (induction n) (auto simp: next_backoff_def INITIAL_BACKOFF_def MAX_BACKOFF_def min_def)

text \<open>The reconnect backoff doubles from one second and is capped at a minute: before the n-th
  consecutive failed attempt it is \<open>min (1000 * 2 ^ n) 60000\<close> milliseconds.\<close>

theorem backoff_schedule: "(next_backoff ^^ n) INITIAL_BACKOFF = min (1000 * 2 ^ n) 60000"
  by (rule backoff_iterate)

lemma command_while_down_snapshots: "d_snapshots (command_while_down c d) = d_snapshots d"
proof -
  obtain stop d1 where a: "answer_while_down c d = (stop, d1)" by fastforce
  with answer_while_down_keeps [of c d] obtain as where "d1 = d\<lparr>d_answers := as\<rparr>" by auto
  then show ?thesis by (cases stop) (simp_all add: command_while_down_def a)
qed

section \<open>Ends of a connection\<close>

text \<open>A server-side logoff is healed by a reconnect exactly for the three transient codes;
  every other code, a missing code (which stands for \<^verbatim>\<open>Fail\<close>) and an undecodable message end the
  session.\<close>

theorem logoff_reconnects_iff:
  "classify_logoff W msg = DisconnectedExit \<longleftrightarrow>
     (\<exists>m. w_dec_logged_off W (sm_body msg) = Inr m \<and> lf_eresult m \<in> Some ` {3, 20, 48})"
proof (cases "w_dec_logged_off W (sm_body msg)")
  case (Inr m)
  then show ?thesis by (cases "lf_eresult m") (auto simp: classify_logoff_def Let_def)
qed (simp add: classify_logoff_def)

section \<open>The initial connection\<close>

lemma resilient_next:
  "fst (resilient_loop try i (Suc n) b last_err) =
     (case try i of
        Inr ok \<Rightarrow> Inr ok
      | Inl e \<Rightarrow> if is_auth_rejected e then Inl e
               else fst (resilient_loop try (Suc i) n (if 0 < n then next_backoff b else b) e))"
  by (auto split: sum.splits prod.splits)

lemma resilient_Inr:
  "fst (resilient_loop try i n b last_err) = Inr r \<longleftrightarrow>
     (\<exists>k < n. try (i + k) = Inr r \<and> (\<forall>j < k. \<exists>e. try (i + j) = Inl e \<and> \<not> is_auth_rejected e))"
proof (induction n arbitrary: i b last_err)
  case (Suc n)
  show ?case unfolding resilient_next
    by (cases "try i") (auto simp: ex_less_Suc_shift all_less_Suc_shift Suc)
qed simp

lemma resilient_rejected:
  "is_auth_rejected x \<Longrightarrow> \<not> is_auth_rejected last_err \<Longrightarrow>
   fst (resilient_loop try i n b last_err) = Inl x \<longleftrightarrow>
     (\<exists>k < n. try (i + k) = Inl x \<and> (\<forall>j < k. \<exists>e. try (i + j) = Inl e \<and> \<not> is_auth_rejected e))"
proof (induction n arbitrary: i b last_err)
  case (Suc n)
  show ?case unfolding resilient_next
    using Suc.prems by (cases "try i") (auto simp: ex_less_Suc_shift all_less_Suc_shift Suc.IH)
qed auto

lemma resilient_exhausted:
  "\<forall>j < Suc n. \<exists>e. try (i + j) = Inl e \<and> \<not> is_auth_rejected e \<Longrightarrow>
     fst (resilient_loop try i (Suc n) b last_err) = try (i + n)"
proof (induction n arbitrary: i b last_err)
  case 0
  then show ?case by auto
next
  case (Suc n)
  from Suc.prems obtain e where e: "try i = Inl e" "\<not> is_auth_rejected e" by force
  then have "fst (resilient_loop try i (Suc (Suc n)) b last_err) =
      fst (resilient_loop try (Suc i) (Suc n) (next_backoff b) e)"
    unfolding resilient_next by simp
  also have "\<dots> = try (Suc i + n)"
    using Suc.prems by (intro Suc.IH) (auto simp: all_less_Suc_shift [of "Suc n"])
  finally show ?case by simp
qed

lemma resilient_sleeps:
  defines "retried \<equiv> \<lambda>try i. \<exists>e. try i = Inl e \<and> \<not> is_auth_rejected e"
  shows "\<exists>k \<le> n. snd (resilient_loop try i (Suc n) b last_err) = map (\<lambda>j. (next_backoff ^^ j) b) [0..<k] \<and>
     (\<forall>j < k. retried try (i + j)) \<and> (k = n \<or> \<not> retried try (i + k))"
proof (induction n arbitrary: i b last_err)
  case 0
  show ?case by (auto split: sum.splits)
next
  case (Suc n)
  show ?case
  proof (cases "retried try i")
    case False
    then have "snd (resilient_loop try i (Suc (Suc n)) b last_err) = []"
      by (auto simp: retried_def split: sum.splits)
    with False show ?thesis by (intro exI [of _ 0]) simp
  next
    case True
    then obtain e where e: "try i = Inl e" "\<not> is_auth_rejected e" by (auto simp: retried_def)
    from Suc.IH [of "Suc i" "next_backoff b" e] obtain k where k: "k \<le> n"
      "snd (resilient_loop try (Suc i) (Suc n) (next_backoff b) e) =
         map (\<lambda>j. (next_backoff ^^ j) (next_backoff b)) [0..<k]"
      "\<forall>j < k. retried try (Suc i + j)" "k = n \<or> \<not> retried try (Suc i + k)" by blast
    have "snd (resilient_loop try i (Suc (Suc n)) b last_err) =
        b # snd (resilient_loop try (Suc i) (Suc n) (next_backoff b) e)"
      by (subst resilient_loop.simps) (simp add: e split: prod.splits)
    also have "\<dots> = map (\<lambda>j. (next_backoff ^^ j) b) [0..<Suc k]"
      unfolding k(2) by (simp only: map_upt_Suc funpow_swap1 funpow.simps o_apply id_apply)
    finally show ?thesis using k True
      by (intro exI [of _ "Suc k"]) (auto simp: all_less_Suc_shift)
  qed
qed

lemma sleep_times:
  assumes "k \<le> 3"
  shows "map (\<lambda>j. (next_backoff ^^ j) INITIAL_BACKOFF) [0..<k] = take k [1000, 2000, 4000]"
proof -
  have "[0..<3] = [0, 1, 2 :: nat]" by (simp add: numeral_3_eq_3)
  then have three: "map (\<lambda>j. (next_backoff ^^ j) INITIAL_BACKOFF) [0..<3] = [1000, 2000, 4000]"
    by (simp only: backoff_iterate list.map) simp
  show ?thesis unfolding three [symmetric] take_map using assms by simp
qed

text \<open>the initial connection is tried at most four times: it succeeds with the first attempt that
  does if none before was rejected, it reports an auth rejection exactly when an attempt did and none
  before it succeeded or was rejected, and when all four fail otherwise it reports the fourth error.
  Between the attempts it sleeps one, two and four seconds, and never after the last.\<close>

theorem establish_resilient_spec:
  fixes W C config
  defines "try \<equiv> \<lambda>i :: nat. establish W (C i :: unit connector) (sc_account_name config)
    (sc_refresh_token config) (sc_proxy config)"
  defines "retried \<equiv> \<lambda>i. \<exists>e. try i = Inl e \<and> \<not> is_auth_rejected e"
  defines "outcome \<equiv> fst (establish_resilient W C config)"
  shows "(outcome = Inr r \<longleftrightarrow> (\<exists>k < 4. try k = Inr r \<and> (\<forall>j < k. retried j))) \<and>
         (outcome = Inl (AuthRejected t) \<longleftrightarrow>
            (\<exists>k < 4. try k = Inl (AuthRejected t) \<and> (\<forall>j < k. retried j))) \<and>
         ((\<forall>j < 4. retried j) \<longrightarrow> outcome = try 3) \<and>
         (\<exists>k \<le> 3. snd (establish_resilient W C config) = take k [1000, 2000, 4000] \<and>
            (\<forall>j < k. retried j) \<and> (k = 3 \<or> \<not> retried k))"
proof -
  let ?last = "Network ''no connect attempt ran''"
  have e: "establish_resilient W C config = resilient_loop try 0 (Suc 3) INITIAL_BACKOFF ?last"
    by (simp add: establish_resilient_def INITIAL_CONNECT_ATTEMPTS_def try_def)
  have four: "Suc 3 = 4" by simp
  from resilient_sleeps [of 3 "try" 0 INITIAL_BACKOFF ?last] obtain k where k: "k \<le> 3"
    "snd (establish_resilient W C config) = map (\<lambda>j. (next_backoff ^^ j) INITIAL_BACKOFF) [0..<k]"
    "\<forall>j < k. retried j" "k = 3 \<or> \<not> retried k"
    unfolding e retried_def add_0 by blast
  then have "\<exists>k \<le> 3. snd (establish_resilient W C config) = take k [1000, 2000, 4000] \<and>
            (\<forall>j < k. retried j) \<and> (k = 3 \<or> \<not> retried k)"
    unfolding k(2) sleep_times [OF k(1)] by blast
  then show ?thesis
    using resilient_Inr [of "try" 0 4 INITIAL_BACKOFF ?last r]
      resilient_rejected [of "AuthRejected t" ?last "try" 0 4 INITIAL_BACKOFF]
      resilient_exhausted [of 3 "try" 0 INITIAL_BACKOFF ?last]
    unfolding outcome_def e four retried_def add_0 is_auth_rejected.simps by blast
qed

section \<open>Witnesses\<close>

definition good_connector :: "unit connector" where
  "good_connector =
     \<lparr>cn_discover = (\<lambda>_. Inr [\<lparr>cs_endpoint = ''a'', cs_datacenter = None, cs_load = None\<rparr>]),
      cn_dial = (\<lambda>_ _ _. Ready (Inr \<lparr>ws_read = sample_answer 1, ws_write = \<lparr>sk_sent = [], sk_faults = []\<rparr>\<rparr>)),
      cn_now = (\<lambda>_. 3)\<rparr>"

definition sample_config :: session_config where
  "sample_config = \<lparr>sc_account_name = ''acc'', sc_refresh_token = ''tok'', sc_proxy = None\<rparr>"

definition sample_session :: "cm_connection \<times> logged_on" where
  "sample_session =
     (sample_conn []\<lparr>cc_write := sample_sink, cc_liveness := 4\<rparr>,
      \<lparr>lo_steam_id = LOGON_HEADER_STEAMID, lo_session_id = 0, lo_heartbeat_interval = 9000\<rparr>)"

definition sample_driver :: driver where
  "sample_driver = spawn_driver sample_config 9 sample_session"

lemma sample_establish: "establish sample_wire good_connector ''acc'' ''tok'' proxy = Inr sample_session"
proof -
  have "connect good_connector 0 url proxy = Ready (Inr (sample_conn (sample_answer 1)))" for url
    by (simp add: connect_def good_connector_def sample_conn_def)
  then have "attempt sample_wire good_connector 0 ''acc'' ''tok'' proxy server = Ready (Inr sample_session)"
    for server
    by (simp add: attempt_def sample_logon sample_session_def)
  then show ?thesis
    by (simp add: establish_def good_connector_def MAX_CONNECT_ATTEMPTS_def)
qed

lemma sample_start: "driver_start sample_wire sample_driver"
proof -
  have "fst (establish_resilient sample_wire (\<lambda>_. good_connector) sample_config) = Inr sample_session"
    by (simp add: establish_resilient_def INITIAL_CONNECT_ATTEMPTS_def sample_config_def sample_establish
        numeral_eq_Suc)
  then have "spawn_session sample_wire (\<lambda>_. good_connector) 9 sample_config = Inr sample_driver"
    by (simp add: spawn_session_def sample_driver_def)
  then show ?thesis unfolding driver_start_def by blast
qed

lemma sample_reachable: "reachable (driver_start sample_wire) (driver_step sample_wire) sample_driver"
  by (rule reach_init) (rule sample_start)

lemma sample_driver_simps [simp]:
  "d_phase sample_driver = Connected 9009 1009" "d_handles sample_driver" "d_commands sample_driver = []"
  "d_next_channel sample_driver = 0" "d_next_jobid sample_driver = 1" "d_pending sample_driver = []"
  "d_write sample_driver = sample_sink" "d_snapshots sample_driver = (\<lambda>_. None)" "d_inbox sample_driver = []"
  "d_answers sample_driver = []" "d_state sample_driver = LoggedOn LOGON_HEADER_STEAMID"
  "d_steam_id sample_driver = LOGON_HEADER_STEAMID" "d_now sample_driver = 9" "d_events sample_driver = []"
  "d_liveness sample_driver = 9" "d_heartbeat sample_driver = 9000" "d_closed sample_driver = []"
  by (simp_all add: sample_driver_def spawn_driver_def sample_session_def into_parts_def sample_conn_def
      enter_connected_def PENDING_SWEEP_INTERVAL_def touch_def)

text \<open>A session that is told to log off.\<close>

definition logoff_queued :: driver where
  "logoff_queued = sample_driver\<lparr>d_commands := [Logoff 0], d_next_channel := 1\<rparr>"

definition closing_driver :: driver where
  "closing_driver =
     step_on (on_command sample_wire (logoff_queued\<lparr>d_commands := []\<rparr>) (Some (Logoff 0)))"

definition logged_off_driver :: driver where
  "logged_off_driver = publish_end (Inr ''session closed'') (write_close closing_driver)"

lemma closing_simps:
  "d_phase closing_driver = Closing (Inr ''session closed'') 5009" "d_next_channel closing_driver = 1"
  "d_state closing_driver = LoggedOn LOGON_HEADER_STEAMID"
  by (simp_all add: closing_driver_def step_on_def after_exit_def logoff_queued_def CLOSE_TIMEOUT_def
      send_frame_def split: prod.split)

lemma logged_off_reachable:
  "reachable (driver_start sample_wire) (driver_step sample_wire) closing_driver"
  "reachable (driver_start sample_wire) (driver_step sample_wire) logged_off_driver"
proof -
  have "driver_step sample_wire sample_driver logoff_queued"
    using submit [of sample_driver "Logoff 0" sample_wire]
    by (simp add: logoff_queued_def live_phase_def COMMAND_CAPACITY_def)
  moreover have "driver_step sample_wire logoff_queued closing_driver"
    unfolding closing_driver_def
    by (rule command) (simp_all add: logoff_queued_def recv_command_def)
  ultimately show r: "reachable (driver_start sample_wire) (driver_step sample_wire) closing_driver"
    using sample_reachable by (metis reach_step)
  show "reachable (driver_start sample_wire) (driver_step sample_wire) logged_off_driver"
    unfolding logged_off_driver_def using r closed [OF closing_simps(1)] by (rule reach_step)
qed

lemma logged_off_ended: "d_phase logged_off_driver = Ended (Inr ())" "d_next_channel logged_off_driver = 1"
  by (simp_all add: logged_off_driver_def closing_simps)

lemma distinct_singleton_list: "distinct xs \<Longrightarrow> set xs = {a} \<Longrightarrow> xs = [a]"
proof -
  assume "distinct xs" "set xs = {a}"
  then have "length xs = 1" using distinct_card [of xs] by simp
  with \<open>set xs = {a}\<close> show ?thesis by (cases xs) simp_all
qed

theorem every_command_settled_once_witness:
  "reachable (driver_start sample_wire) (driver_step sample_wire) logged_off_driver \<and>
   map fst (d_answers logged_off_driver) = [0]"
proof -
  note c = every_command_settled_once [OF logged_off_reachable(2)]
  from c logged_off_ended(1) have p: "d_commands logged_off_driver = []" "d_pending logged_off_driver = []"
    by blast+
  have "map fst (d_answers logged_off_driver) = [0]"
    by (rule distinct_singleton_list)
      (use c in \<open>simp_all only: p list.map append_Nil logged_off_ended(2) lessThan_Suc One_nat_def lessThan_0\<close>)
  then show ?thesis using logged_off_reachable(2) by simp
qed

theorem published_state_witness:
  "d_state sample_driver = LoggedOn LOGON_HEADER_STEAMID \<and> (\<exists>hb sw. d_phase sample_driver = Connected hb sw) \<and>
   d_state closing_driver = LoggedOn LOGON_HEADER_STEAMID \<and> d_steam_id closing_driver = LOGON_HEADER_STEAMID \<and>
   (\<exists>reason. d_state logged_off_driver = LoggedOff reason)"
  using published_state [OF sample_reachable] published_state [OF logged_off_reachable(1)]
    published_state [OF logged_off_reachable(2)] logged_off_ended closing_simps
  by simp

theorem ended_is_final_witness:
  "d_answers (logged_off_driver\<lparr>d_handles := False\<rparr>) = d_answers logged_off_driver"
  using ended_is_final [OF drop_handles [of sample_wire logged_off_driver] logged_off_ended(1)]
    reachable_inv [OF logged_off_reachable(2)] by blast

definition waiting_driver :: driver where
  "waiting_driver = sample_driver\<lparr>d_pending := [(1, \<lparr>pd_reply = 0, pd_deadline = 5\<rparr>)]\<rparr>"

definition sample_reply_to :: "u64 \<Rightarrow> steam_message" where
  "sample_reply_to j =
     \<lparr>sm_emsg = 147, sm_header = default_header\<lparr>hdr_jobid_target := Some j\<rparr>, sm_body = [1]\<rparr>"

lemma waiting_keys: "keys_distinct (d_pending waiting_driver)" "keys_distinct (d_pending sample_driver)"
  by (simp_all add: waiting_driver_def keys_distinct_def)

theorem dispatch_spec_witness:
  "d_answers (dispatch waiting_driver (sample_reply_to 1)) = [(0, Reply (Inr (sample_reply_to 1)))] \<and>
   d_events (dispatch waiting_driver (sample_reply_to 2)) = [sample_reply_to 2]"
proof -
  have 1: "d_answers waiting_driver = []" "d_events waiting_driver = []"
    "map_of (d_pending waiting_driver) 1 = Some \<lparr>pd_reply = 0, pd_deadline = 5\<rparr>"
    "map_of (d_pending waiting_driver) 2 = None"
    "hdr_jobid_target (sm_header (sample_reply_to j)) = Some j" for j
    by (simp_all add: waiting_driver_def sample_reply_to_def)
  have "d_answers (dispatch waiting_driver (sample_reply_to 1)) =
      d_answers waiting_driver @ [(0, Reply (Inr (sample_reply_to 1)))]"
    using dispatch_spec [OF waiting_keys(1), of "sample_reply_to 1", THEN conjunct1, rule_format, OF 1(5)] 1(3)
    by simp
  moreover have "d_events (dispatch waiting_driver (sample_reply_to 2)) = d_events waiting_driver @ [sample_reply_to 2]"
    using dispatch_spec [OF waiting_keys(1), of "sample_reply_to 2", THEN conjunct2] 1(4, 5) by simp
  ultimately show ?thesis by (simp add: 1)
qed

lemma sample_request:
  "\<exists>d'. on_command sample_wire sample_driver (Some (Request 146 [] 99 5)) = (None, d')"
  by (simp add: send_frame_def write_frame_def sink_send_def sample_sink_def insert_pending_def Let_def)

theorem request_correlated_witness:
  "\<exists>d' d''. on_command sample_wire sample_driver (Some (Request 146 [] 99 5)) = (None, d') \<and>
     on_message sample_wire d' (Inr (sample_reply_to 1)) = (None, d'') \<and>
     d_answers d'' = d_answers d' @ [(5, Reply (Inr (sample_reply_to 1)))]"
proof -
  obtain d' where d': "on_command sample_wire sample_driver (Some (Request 146 [] 99 5)) = (None, d')"
    using sample_request by blast
  have "hdr_jobid_target (sm_header (sample_reply_to 1)) = Some (d_next_jobid sample_driver)"
    "sm_emsg (sample_reply_to 1) \<noteq> EMSG_CLIENT_LOGGED_OFF" "d_next_jobid sample_driver \<noteq> u64_max"
    by (simp_all add: sample_reply_to_def)
  with request_correlated [OF sample_reachable _ d'] d' show ?thesis by blast
qed

theorem last_job_id_unanswerable_witness:
  "\<exists>d' d''. on_command sample_wire (sample_driver\<lparr>d_next_jobid := u64_max\<rparr>) (Some (Request 146 [] 99 5)) = (None, d') \<and>
     on_message sample_wire d' (Inr (sample_reply_to u64_max)) = (None, d'') \<and> d_answers d'' = d_answers d'"
proof -
  let ?d = "sample_driver\<lparr>d_next_jobid := u64_max\<rparr>"
  obtain d' where d': "on_command sample_wire ?d (Some (Request 146 [] 99 5)) = (None, d')"
    by (simp add: send_frame_def write_frame_def sink_send_def sample_sink_def insert_pending_def Let_def)
  have "hdr_jobid_target (sm_header (sample_reply_to u64_max)) = Some (d_next_jobid ?d)"
    "sm_emsg (sample_reply_to u64_max) \<noteq> EMSG_CLIENT_LOGGED_OFF" "d_next_jobid ?d = u64_max"
    "keys_distinct (d_pending ?d)"
    by (simp_all add: sample_reply_to_def)
  with last_job_id_unanswerable [OF _ _ d'] d' show ?thesis by blast
qed

theorem disconnect_delivers_buffer_witness:
  "(0, Reply (Inr (sample_reply_to 1))) \<in>
     set (d_answers (after_exit DisconnectedExit (waiting_driver\<lparr>d_inbox := [sample_reply_to 1]\<rparr>)))"
  using disconnect_delivers_buffer [of "waiting_driver\<lparr>d_inbox := [sample_reply_to 1]\<rparr>" "[]"
      "sample_reply_to 1" "[]" 1 "\<lparr>pd_reply = 0, pd_deadline = 5\<rparr>"] waiting_keys(1)
  by (simp add: waiting_driver_def sample_reply_to_def)

theorem sweep_settles_due_requests_witness:
  "(0, Reply (Inl (Timeout ''steam request''))) \<in> set (d_answers (snd (on_sweep waiting_driver)))"
proof -
  have "on_sweep waiting_driver = (None, snd (on_sweep waiting_driver))"
    by (simp add: on_sweep_def waiting_driver_def read_idle_expired_def idle_for_def idle_timeout_def
        IDLE_PROBE_MISSES_def MIN_IDLE_TIMEOUT_def)
  from sweep_settles_due_requests [OF this] show ?thesis by (simp add: waiting_driver_def)
qed

definition arrived_driver :: driver where
  "arrived_driver =
     sample_driver\<lparr>d_read := d_read sample_driver @ [(d_now sample_driver, WsItem (WsBinary (frame 767 [] [9])))]\<rparr>"

lemma arrived_read:
  "read_message sample_wire (read_now arrived_driver) (d_inbox arrived_driver) (d_liveness arrived_driver) =
      (Ready (Inr \<lparr>sm_emsg = 767, sm_header = default_header, sm_body = [9]\<rparr>), [], [], 9)"
proof -
  have r: "d_read sample_driver = []"
    by (simp add: sample_driver_def spawn_driver_def sample_session_def into_parts_def sample_conn_def
        enter_connected_def)
  have "try_decode (w_dec_header sample_wire) (frame 767 [] [9]) =
      Inr (Some \<lparr>sm_emsg = 767, sm_header = default_header, sm_body = [9]\<rparr>)"
    using try_decode_frame [where hb = "[]" and dec = "w_dec_header sample_wire" and m = 767]
    by (simp add: EMSG_MASK_def PROTO_MASK_def)
  then show ?thesis
    by (simp add: arrived_driver_def read_now_def r read_message.simps [of _ _ "[]"] touch_def)
qed

theorem establish_resilient_spec_witness:
  "fst (establish_resilient sample_wire (\<lambda>_. good_connector) sample_config) = Inr sample_session"
proof -
  have "establish sample_wire good_connector (sc_account_name sample_config) (sc_refresh_token sample_config)
      (sc_proxy sample_config) = Inr sample_session"
    by (simp add: sample_config_def sample_establish)
  then show ?thesis
    using establish_resilient_spec [of sample_wire "\<lambda>_. good_connector" sample_config sample_session]
    by (metis not_less0 zero_less_numeral)
qed

end
