(* ===== verification/Handle.thy ===== *)
theory Handle
  imports Driver
begin

text \<open>
  The client side of a session: \<^verbatim>\<open>SessionHandle\<close> of \<^verbatim>\<open>src/session/driver.rs\<close>, on which the friends,
  persona and game-coordinator modules ride.

  An operation passes the handle's state along: the clock, the commands put on the queue, the number
  of the next \<^verbatim>\<open>oneshot\<close> channel and of the next look at what the driver shares, a subscription to its
  broadcast or a read of its cache.  What the outside world does is the record \<open>env\<close>: whether the driver
  still takes commands, what it sends into each channel and how long after, what a subscription made at
  the n-th look receives and when, what the snapshot cache holds at the n-th look, and what the state
  watch holds at a time.
\<close>

section \<open>The handle and its environment\<close>

text \<open>What \<^verbatim>\<open>broadcast::Receiver::recv\<close> returns.\<close>

datatype 'm received =
    RecvOk 'm
  | Lagged u64
  | Closed

type_synonym 'm receiver = "(millis \<times> 'm received) list"

record handle =
  h_steam_id :: u64
  h_now :: millis
  h_sent :: "command list"
  h_next :: channel
  h_looks :: nat

record env =
  en_running :: "channel \<Rightarrow> bool"
  en_answers :: "channel \<Rightarrow> (millis \<times> answer) option"
  en_events :: "nat \<Rightarrow> steam_message receiver"
  en_snapshots :: "nat \<Rightarrow> u32 \<Rightarrow> bytes option"
  en_state :: "millis \<Rightarrow> session_state"

definition DEFAULT_REQUEST_TIMEOUT :: millis where
  [timeout_defs]: "DEFAULT_REQUEST_TIMEOUT = secs 30"

section \<open>Operations\<close>

definition steam_id :: "handle \<Rightarrow> u64" where
  "steam_id h = h_steam_id h"

definition state :: "env \<Rightarrow> handle \<Rightarrow> session_state" where
  "state E h = en_state E (h_now h)"

definition subscribe :: "env \<Rightarrow> handle \<Rightarrow> steam_message receiver \<times> handle" where
  "subscribe E h = (en_events E (h_looks h), h\<lparr>h_looks := Suc (h_looks h)\<rparr>)"

definition cached_snapshot :: "env \<Rightarrow> handle \<Rightarrow> u32 \<Rightarrow> bytes option \<times> handle" where
  "cached_snapshot E h emsg = (en_snapshots E (h_looks h) emsg, h\<lparr>h_looks := Suc (h_looks h)\<rparr>)"

text \<open>A fresh channel and \<^verbatim>\<open>commands.send(..)\<close>, which fails once the driver has dropped its end.\<close>

definition queue_command :: "env \<Rightarrow> handle \<Rightarrow> (channel \<Rightarrow> command) \<Rightarrow> channel result \<times> handle" where
  "queue_command E h command =
     (let ch = h_next h; h = h\<lparr>h_next := Suc ch\<rparr>
      in if en_running E ch then (Inr ch, h\<lparr>h_sent := h_sent h @ [command ch]\<rparr>)
         else (Inl (WebSocket ''session driver stopped''), h))"

text \<open>A request up to its raw reply: queued with a deadline, then awaited under the same budget.\<close>

definition round_trip :: "env \<Rightarrow> handle \<Rightarrow> u32 \<Rightarrow> bytes \<Rightarrow> millis \<Rightarrow> steam_message result \<times> handle" where
  "round_trip E h emsg body budget =
     (case queue_command E h (Request emsg body (h_now h + budget)) of
        (Inl e, h) \<Rightarrow> (Inl e, h)
      | (Inr rx, h) \<Rightarrow>
          (case opt_filter (\<lambda>(t, _). t \<le> budget) (en_answers E rx) of
             None \<Rightarrow> (Inl (Timeout ''steam request''), h\<lparr>h_now := h_now h + budget\<rparr>)
           | Some (t, a) \<Rightarrow>
               (case a of
                  Reply r \<Rightarrow> r
                | _ \<Rightarrow> Inl (WebSocket ''session driver dropped the request''),
                h\<lparr>h_now := h_now h + t\<rparr>)))"

definition check_reply_eresult :: "steam_message \<Rightarrow> unit result" where
  "check_reply_eresult msg =
     (case opt_filter (\<lambda>er. er \<noteq> OK) (hdr_eresult (sm_header msg)) of
        None \<Rightarrow> Inr ()
      | Some er \<Rightarrow>
          let what = ''emsg '' @ show_word (sm_emsg msg) @ '': eresult '' @ show_int er
          in Inl (Remote (case opt_filter (\<lambda>text. text \<noteq> []) (hdr_error_message (sm_header msg)) of
                    Some text \<Rightarrow> what @ '': '' @ text
                  | None \<Rightarrow> what)))"

text \<open>How a reply is judged: its header first when asked to, then its body.\<close>

definition judge_reply :: "bool \<Rightarrow> (bytes \<Rightarrow> string + 'r) \<Rightarrow> steam_message \<Rightarrow> 'r result" where
  "judge_reply check_eresult dec msg =
     and_then (if check_eresult then check_reply_eresult msg else Inr ()) (\<lambda>_.
       map_err (\<lambda>e. Codec (''decode response: '' @ e)) (dec (sm_body msg)))"

definition dispatch_request ::
    "env \<Rightarrow> handle \<Rightarrow> u32 \<Rightarrow> bytes \<Rightarrow> millis \<Rightarrow> bool \<Rightarrow> (bytes \<Rightarrow> string + 'r) \<Rightarrow> 'r result \<times> handle" where
  "dispatch_request E h emsg body budget check_eresult dec =
     (case round_trip E h emsg body budget of
        (msg, h) \<Rightarrow> (and_then msg (judge_reply check_eresult dec), h))"

definition request_with_timeout ::
    "env \<Rightarrow> handle \<Rightarrow> u32 \<Rightarrow> bytes \<Rightarrow> millis \<Rightarrow> (bytes \<Rightarrow> string + 'r) \<Rightarrow> 'r result \<times> handle" where
  "request_with_timeout E h emsg body budget dec = dispatch_request E h emsg body budget True dec"

definition request :: "env \<Rightarrow> handle \<Rightarrow> u32 \<Rightarrow> bytes \<Rightarrow> (bytes \<Rightarrow> string + 'r) \<Rightarrow> 'r result \<times> handle" where
  "request E h emsg body dec = request_with_timeout E h emsg body DEFAULT_REQUEST_TIMEOUT dec"

definition request_ignoring_eresult ::
    "env \<Rightarrow> handle \<Rightarrow> u32 \<Rightarrow> bytes \<Rightarrow> (bytes \<Rightarrow> string + 'r) \<Rightarrow> 'r result \<times> handle" where
  "request_ignoring_eresult E h emsg body dec =
     dispatch_request E h emsg body DEFAULT_REQUEST_TIMEOUT False dec"

text \<open>A notification waits for the write without a timer of its own.\<close>

definition notify :: "env \<Rightarrow> handle \<Rightarrow> u32 \<Rightarrow> bytes \<Rightarrow> unit result poll \<times> handle" where
  "notify E h emsg body =
     (case queue_command E h (Notify emsg body) of
        (Inl e, h) \<Rightarrow> (Ready (Inl e), h)
      | (Inr rx, h) \<Rightarrow>
          (case en_answers E rx of
             None \<Rightarrow> (Pending, h)
           | Some (t, a) \<Rightarrow>
               (Ready (case a of
                  Ack r \<Rightarrow> r
                | _ \<Rightarrow> Inl (WebSocket ''session driver dropped the notification'')),
                h\<lparr>h_now := h_now h + t\<rparr>)))"

definition logoff :: "env \<Rightarrow> handle \<Rightarrow> unit result poll \<times> handle" where
  "logoff E h =
     (case queue_command E h Logoff of
        (Inl e, h) \<Rightarrow> (Ready (Inl e), h)
      | (Inr rx, h) \<Rightarrow>
          (case en_answers E rx of
             None \<Rightarrow> (Pending, h)
           | Some (t, _) \<Rightarrow> (Ready (Inr ()), h\<lparr>h_now := h_now h + t\<rparr>)))"

text \<open>The loop every subscriber of the crate runs under a timer: it takes what is received until one
  message decides, the channel closes, or the deadline passes; with the time at which it ends.\<close>

fun wait_event ::
    "('m \<Rightarrow> 'r result option) \<Rightarrow> error \<Rightarrow> error \<Rightarrow> millis \<Rightarrow> millis \<Rightarrow> 'm receiver \<Rightarrow> 'r result \<times> millis" where
  "wait_event decide closed late now deadline [] = (Inl late, deadline)"
| "wait_event decide closed late now deadline ((t, ev) # rx) =
     (if deadline < t then (Inl late, deadline)
      else case ev of
        RecvOk msg \<Rightarrow>
          (case decide msg of
             Some r \<Rightarrow> (r, max now t)
           | None \<Rightarrow> wait_event decide closed late (max now t) deadline rx)
      | Lagged _ \<Rightarrow> wait_event decide closed late (max now t) deadline rx
      | Closed \<Rightarrow> (Inl closed, max now t))"

section \<open>Lemmas\<close>

text \<open>The reply that reached the handle's next channel in time.\<close>

definition replied :: "env \<Rightarrow> handle \<Rightarrow> millis \<Rightarrow> steam_message \<Rightarrow> bool" where
  "replied E h budget m \<longleftrightarrow>
     en_running E (h_next h) \<and> (\<exists>t \<le> budget. en_answers E (h_next h) = Some (t, Reply (Inr m)))"

lemma round_trip_ok_iff: "fst (round_trip E h emsg body budget) = Inr m \<longleftrightarrow> replied E h budget m"
  by (cases "en_answers E (h_next h)")
    (auto simp: round_trip_def queue_command_def replied_def Let_def split: answer.splits)

lemma round_trip_keeps:
  "h_next (snd (round_trip E h emsg body budget)) = Suc (h_next h)"
  "h_sent (snd (round_trip E h emsg body budget)) =
     h_sent h @ (if en_running E (h_next h) then [Request emsg body (h_now h + budget) (h_next h)] else [])"
  "h_looks (snd (round_trip E h emsg body budget)) = h_looks h"
  "h_steam_id (snd (round_trip E h emsg body budget)) = h_steam_id h"
  by (auto simp: round_trip_def queue_command_def Let_def split: option.splits answer.splits)

lemma round_trip_time:
  "h_now h \<le> h_now (snd (round_trip E h emsg body budget))"
  "h_now (snd (round_trip E h emsg body budget)) \<le> h_now h + budget"
  by (auto simp: round_trip_def queue_command_def Let_def opt_filter_Some_iff
      split: option.splits answer.splits)

lemma round_trip_silent:
  assumes "en_running E (h_next h)" "\<And>t a. en_answers E (h_next h) = Some (t, a) \<Longrightarrow> budget < t"
  shows "fst (round_trip E h emsg body budget) = Inl (Timeout ''steam request'')"
proof -
  have "opt_filter (\<lambda>(t, _). t \<le> budget) (en_answers E (h_next h)) = None"
    using assms(2) by (cases "en_answers E (h_next h)") force+
  then show ?thesis using assms(1) by (simp add: round_trip_def queue_command_def Let_def)
qed

lemma check_reply_ok_iff:
  "check_reply_eresult m = Inr () \<longleftrightarrow> hdr_eresult (sm_header m) \<in> {None, Some OK}"
  by (cases "hdr_eresult (sm_header m)") (auto simp: check_reply_eresult_def Let_def)

lemma judge_reply_ok_iff:
  "judge_reply c dec m = Inr r \<longleftrightarrow>
     (c \<longrightarrow> hdr_eresult (sm_header m) \<in> {None, Some OK}) \<and> dec (sm_body m) = Inr r"
  using check_reply_ok_iff [of m]
  by (cases c) (auto simp: judge_reply_def and_then_Inr_iff)

text \<open>The frame a queued command stands for.\<close>

fun command_frame :: "command \<Rightarrow> u32 \<times> bytes" where
  "command_frame (Request emsg body _ _) = (emsg, body)"
| "command_frame (Notify emsg body _) = (emsg, body)"
| "command_frame (Logoff _) = (EMSG_CLIENT_LOGOFF, [])"

section \<open>Broadcast channels\<close>

text \<open>What a receiver of a broadcast channel gets of the messages sent since it subscribed: each of them in
  turn, except that when more than the channel holds wait for it, it is told so and goes on with a
  later one.\<close>

inductive delivers :: "nat \<Rightarrow> 'm list \<Rightarrow> 'm received list \<Rightarrow> bool" for capacity where
  caught_up: "delivers capacity [] []"
| one: "delivers capacity ms rs \<Longrightarrow> delivers capacity (m # ms) (RecvOk m # rs)"
| lags: "0 < k \<Longrightarrow> capacity + k \<le> length ms \<Longrightarrow> delivers capacity (drop k ms) rs \<Longrightarrow>
    delivers capacity ms (Lagged (of_nat k) # rs)"

lemma delivers_all: "delivers capacity ms (map RecvOk ms)"
  by (induction ms) (auto intro: delivers.intros)

lemma delivers_within:
  assumes "delivers capacity ms rs" "length ms \<le> capacity"
  shows "rs = map RecvOk ms"
  using assms by (induction rule: delivers.induct) auto

text \<open>The receiver takes all that was sent by the time \<open>t\<close>, and more afterwards.\<close>

definition receives :: "nat \<Rightarrow> 'm list \<Rightarrow> millis \<Rightarrow> 'm receiver \<Rightarrow> bool" where
  "receives capacity ms t rx \<longleftrightarrow>
     (\<exists>now later. rx = now @ later \<and> delivers capacity ms (map snd now) \<and> (\<forall>(u, _) \<in> set now. u \<le> t))"

section \<open>A remote call\<close>

text \<open>The contract the job-correlated operations of the crate share: one request, and a judgement of
  its raw reply.  What follows for every one of them is proved here once.\<close>

locale remote_call =
  fixes op :: "env \<Rightarrow> handle \<Rightarrow> 'r result \<times> handle"
    and emsg :: u32
    and body :: bytes
    and judge :: "steam_message \<Rightarrow> 'r result"
  assumes op_round_trip:
    "op E h = (case round_trip E h emsg body DEFAULT_REQUEST_TIMEOUT of (r, h') \<Rightarrow> (and_then r judge, h'))"
begin

lemma op_ok_iff:
  "fst (op E h) = Inr x \<longleftrightarrow> (\<exists>m. replied E h DEFAULT_REQUEST_TIMEOUT m \<and> judge m = Inr x)"
  by (simp add: op_round_trip and_then_Inr_iff round_trip_ok_iff [symmetric, where emsg = emsg and body = body] case_prod_beta)

lemma op_sent:
  "h_sent (snd (op E h)) =
     h_sent h @ (if en_running E (h_next h)
                 then [Request emsg body (h_now h + DEFAULT_REQUEST_TIMEOUT) (h_next h)] else [])"
  using round_trip_keeps(2) [of E h emsg body DEFAULT_REQUEST_TIMEOUT]
  by (simp add: op_round_trip case_prod_beta)

lemma op_next: "h_next (snd (op E h)) = Suc (h_next h)"
  using round_trip_keeps(1) [of E h emsg body DEFAULT_REQUEST_TIMEOUT]
  by (simp add: op_round_trip case_prod_beta)

lemma op_ends: "h_now (snd (op E h)) \<le> h_now h + DEFAULT_REQUEST_TIMEOUT"
  using round_trip_time(2) [of E h emsg body DEFAULT_REQUEST_TIMEOUT]
  by (simp add: op_round_trip case_prod_beta)

lemma op_silent:
  assumes "en_running E (h_next h)" "en_answers E (h_next h) = None"
  shows "fst (op E h) = Inl (Timeout ''steam request'')"
  using round_trip_silent [of E h DEFAULT_REQUEST_TIMEOUT emsg body] assms
  by (simp add: op_round_trip case_prod_beta)

end

interpretation plain_request: remote_call "\<lambda>E h. request E h emsg body dec" emsg body "judge_reply True dec"
  for emsg body dec
  by unfold_locales (simp add: request_def request_with_timeout_def dispatch_request_def)

interpretation lenient_request:
  remote_call "\<lambda>E h. request_ignoring_eresult E h emsg body dec" emsg body "judge_reply False dec"
  for emsg body dec
  by unfold_locales (simp add: request_ignoring_eresult_def dispatch_request_def)

text \<open>A call whose reply is judged further is still one remote call.\<close>

lemma remote_call_then:
  assumes "remote_call op emsg body judge"
  shows "remote_call (\<lambda>E h. case op E h of (r, h') \<Rightarrow> (and_then r f, h')) emsg body (\<lambda>m. and_then (judge m) f)"
proof
  fix E h
  have "and_then (and_then r judge) f = and_then r (\<lambda>m. and_then (judge m) f)" for r
    by (cases r) simp_all
  then show "(case op E h of (r, h') \<Rightarrow> (and_then r f, h')) =
      (case round_trip E h emsg body DEFAULT_REQUEST_TIMEOUT of (r, h') \<Rightarrow>
        (and_then r (\<lambda>m. and_then (judge m) f), h'))"
    by (simp add: remote_call.op_round_trip [OF assms] split: prod.splits)
qed

section \<open>The waiting loop\<close>

text \<open>The messages of a receiver that arrive before it is closed and by the deadline.\<close>

fun heard :: "millis \<Rightarrow> 'm receiver \<Rightarrow> 'm list" where
  "heard deadline [] = []"
| "heard deadline ((t, ev) # rx) =
     (if deadline < t then []
      else case ev of RecvOk m \<Rightarrow> m # heard deadline rx | Lagged _ \<Rightarrow> heard deadline rx | Closed \<Rightarrow> [])"

text \<open>Whether the receiver learns by the deadline that its channel is closed.\<close>

fun hung_up :: "millis \<Rightarrow> 'm receiver \<Rightarrow> bool" where
  "hung_up deadline [] \<longleftrightarrow> False"
| "hung_up deadline ((t, ev) # rx) \<longleftrightarrow> t \<le> deadline \<and> (ev = Closed \<or> hung_up deadline rx)"

lemma wait_event_ok_iff:
  "fst (wait_event decide closed late now deadline rx) = Inr r \<longleftrightarrow>
     List.map_filter decide (heard deadline rx) \<noteq> [] \<and>
     hd (List.map_filter decide (heard deadline rx)) = Inr r"
  by (induction decide closed late now deadline rx rule: wait_event.induct)
    (auto simp: List.map_filter_simps split: received.splits option.splits)

lemma wait_event_decided:
  "List.map_filter decide (heard deadline rx) = r # rs \<Longrightarrow>
     fst (wait_event decide closed late now deadline rx) = r"
  by (induction decide closed late now deadline rx rule: wait_event.induct)
    (auto simp: List.map_filter_simps split: received.splits option.splits if_splits)

lemma wait_event_undecided:
  "List.map_filter decide (heard deadline rx) = [] \<Longrightarrow>
     fst (wait_event decide closed late now deadline rx) = Inl (if hung_up deadline rx then closed else late)"
  by (induction decide closed late now deadline rx rule: wait_event.induct)
    (auto simp: List.map_filter_simps split: received.splits option.splits if_splits)

lemma wait_event_ends: "now \<le> deadline \<Longrightarrow> snd (wait_event decide closed late now deadline rx) \<le> deadline"
  by (induction decide closed late now deadline rx rule: wait_event.induct)
    (auto split: received.splits option.splits)

lemma wait_event_starts: "now \<le> deadline \<Longrightarrow> now \<le> snd (wait_event decide closed late now deadline rx)"
proof (induction decide closed late now deadline rx rule: wait_event.induct)
  case (2 decide closed late now deadline t ev rx)
  then show ?case by (fastforce split: received.split option.split)
qed simp

lemma wait_event_spec:
  "case List.map_filter decide (heard deadline rx) of
     d # _ \<Rightarrow> fst (wait_event decide closed late now deadline rx) = d
   | [] \<Rightarrow> fst (wait_event decide closed late now deadline rx) = Inl (if hung_up deadline rx then closed else late)"
  using wait_event_decided [of decide deadline rx] wait_event_undecided [of decide deadline rx]
  by (auto split: list.split)

text \<open>The loop returns what it makes of the first message that decides.\<close>

lemma wait_event_find:
  assumes "\<And>m. decide m = (if P m then Some (f m) else None)"
  shows "fst (wait_event decide closed late now deadline rx) =
    (case find P (heard deadline rx) of
       Some m \<Rightarrow> f m
     | None \<Rightarrow> Inl (if hung_up deadline rx then closed else late))"
  using assms
  by (induction decide closed late now deadline rx rule: wait_event.induct)
    (auto split: received.splits)

lemma heard_now:
  assumes "\<forall>(u, _) \<in> set now. u \<le> deadline" "map snd now = map RecvOk ms"
  shows "heard deadline (now @ later) = ms @ heard deadline later"
  using assms
proof (induction now arbitrary: ms)
  case (Cons x now)
  then show ?case by (cases x; cases ms) auto
qed simp

lemma receives_heard:
  assumes "receives capacity ms t rx" "length ms \<le> capacity" "t \<le> deadline"
  shows "\<exists>later. heard deadline rx = ms @ later"
proof -
  from assms(1) obtain now later where rx: "rx = now @ later" "delivers capacity ms (map snd now)"
    "\<forall>(u, _) \<in> set now. u \<le> t" unfolding receives_def by blast
  have "\<forall>(u, _) \<in> set now. u \<le> deadline" using rx(3) assms(3) by fastforce
  from heard_now [OF this delivers_within [OF rx(2) assms(2)]] show ?thesis unfolding rx(1) by blast
qed

end
