(* ===== verification/Session_Run.thy ===== *)
theory Session_Run
  imports Session Handle
begin

text \<open>
  Runs of the session driver as its clients see them: what a run broadcasts and caches, the environment
  that a driver gives the calls of \<^verbatim>\<open>SessionHandle\<close>, look by look, and how the driver empties its queue and
  closes when the last handle is gone.
\<close>

section \<open>What a run publishes\<close>

text \<open>From \<open>d\<close> to \<open>d'\<close> the messages \<open>evs\<close> were broadcast, and a snapshot not yet cached is the first of its kind
  among them.\<close>

definition publishes :: "driver \<Rightarrow> steam_message list \<Rightarrow> driver \<Rightarrow> bool" where
  "publishes d evs d' \<longleftrightarrow> d_events d' = d_events d @ evs \<and>
     (\<forall>e. d_snapshots d' e =
        (case d_snapshots d e of
           Some b \<Rightarrow> Some b
         | None \<Rightarrow> if e \<in> set POST_LOGIN_SNAPSHOT_EMSGS
                   then map_option sm_body (find (\<lambda>m. sm_emsg m = e) evs) else None))"

lemma find_append:
  "find P (xs @ ys) = (case find P xs of None \<Rightarrow> find P ys | Some x \<Rightarrow> Some x)"
  by (induction xs) simp_all

lemma events_simps [simp]:
  "d_events (fail_all_pending reason d) = d_events d" "d_events (tell ch a d) = d_events d"
  "d_events (sweep_pending d) = d_events d" "d_events (finish result d) = d_events d"
  "d_events (enter_connected d) = d_events d"
  by (simp_all add: fail_all_pending_def tell_def sweep_pending_def finish_def enter_connected_def Let_def)

lemma publishes_nothing:
  assumes "d_events d' = d_events d" "d_snapshots d' = d_snapshots d" shows "publishes d [] d'"
  using assms by (simp add: publishes_def split: option.split)

lemma publishes_trans:
  assumes "publishes d evs d'" "publishes d' evs' d''" shows "publishes d (evs @ evs') d''"
  using assms unfolding publishes_def by (auto simp: find_append split: option.splits)

lemma dispatch_publishes: "\<exists>evs. publishes d evs (dispatch d m)"
proof (cases rule: dispatch_cases [of d m])
  case (routed j e)
  then have "publishes d [] (dispatch d m)" by (intro publishes_nothing) simp_all
  then show ?thesis ..
next
  case published
  then have "publishes d [m] (dispatch d m)" by (auto simp: publishes_def publish_def split: option.split)
  then show ?thesis ..
qed

lemma dispatch_all_publishes: "\<exists>evs. publishes d evs (foldl dispatch d ms)"
proof (induction ms arbitrary: d)
  case (Cons m ms)
  then show ?case using dispatch_publishes publishes_trans by (metis foldl_Cons)
qed (auto intro: publishes_nothing)

lemma after_exit_publishes: "\<exists>evs. publishes d evs (after_exit x d)"
proof (cases x)
  case DisconnectedExit
  obtain evs where "publishes (d\<lparr>d_inbox := []\<rparr>) evs (foldl dispatch (d\<lparr>d_inbox := []\<rparr>) (d_inbox d))"
    using dispatch_all_publishes by blast
  then show ?thesis using DisconnectedExit by (auto simp: after_exit_def Let_def publishes_def)
qed (auto simp: after_exit_def intro!: exI [of _ "[]"] publishes_nothing)

lemma step_on_publishes:
  assumes "publishes d evs (snd r)" shows "\<exists>evs. publishes d evs (step_on r)"
  using assms after_exit_publishes publishes_trans
  by (cases r; cases "fst r") (auto simp: step_on_def; blast)+

lemma on_command_events: "d_events (snd (on_command W d c)) = d_events d"
proof (cases "(W, d, c)" rule: on_command.cases)
  case (2 _ _ emsg body ack)
  obtain r d1 where s: "send_frame W d emsg None body = (r, d1)" by fastforce
  with 2 send_frame_frame [OF s] show ?thesis by auto
next
  case (3 _ _ ack)
  obtain r d1 where s: "send_frame W d EMSG_CLIENT_LOGOFF None [] = (r, d1)" by fastforce
  with 3 send_frame_frame [OF s] show ?thesis by auto
next
  case (4 _ _ emsg body deadline reply)
  let ?d = "d\<lparr>d_next_jobid := next_job (d_next_jobid d)\<rparr>"
  obtain r d1 where s: "send_frame W ?d emsg (Some (d_next_jobid d)) body = (r, d1)" by fastforce
  with 4 send_frame_frame [OF s] show ?thesis by (auto simp: Let_def split: sum.split option.split prod.split)
qed auto

lemma recv_command_events: "recv_command d = Some (c, d') \<Longrightarrow> d_events d' = d_events d"
  by (auto simp: recv_command_def split: list.splits if_splits)

lemma command_while_down_events: "d_events (command_while_down c d) = d_events d"
proof -
  obtain stop d1 where a: "answer_while_down c d = (stop, d1)" by fastforce
  with answer_while_down_keeps [of c d] obtain as where "d1 = d\<lparr>d_answers := as\<rparr>" by auto
  then show ?thesis by (cases stop) (simp_all add: command_while_down_def a)
qed

lemma poll_read_publishes: "\<exists>evs. publishes d evs (poll_read W d)"
proof -
  obtain p rd inbox live where r: "read_message W (read_now d) (d_inbox d) (d_liveness d) = (p, rd, inbox, live)"
    by (metis prod_cases4)
  let ?d = "d\<lparr>d_read := rd, d_inbox := inbox, d_liveness := live\<rparr>"
  have same: "publishes d [] ?d" by (rule publishes_nothing) simp_all
  have "\<exists>evs. publishes d evs (snd (on_message W ?d x))" for x
    using same dispatch_publishes [of ?d] publishes_trans [OF same]
    unfolding on_message_def by (cases x) (simp_all, blast+)
  then have "\<exists>evs. publishes d evs (step_on (on_message W ?d x))" for x using step_on_publishes by blast
  with same show ?thesis by (cases p) (auto simp: poll_read_def r)
qed

text \<open>A step of one and the same logon: any step but a successful reconnect.\<close>

definition steady_step :: "wire \<Rightarrow> driver \<Rightarrow> driver \<Rightarrow> bool" where
  "steady_step W d d' \<longleftrightarrow> driver_step W d d' \<and>
     \<not> (\<exists>b hb sw. d_phase d = Attempting b \<and> d_phase d' = Connected hb sw)"

lemma steady_step_publishes:
  assumes "steady_step W d d'"
  shows "\<exists>evs. publishes d evs d'"
proof -
  have step: "driver_step W d d'" and no: "\<And>b hb sw. d_phase d = Attempting b \<Longrightarrow> d_phase d' \<noteq> Connected hb sw"
    using assms by (auto simp: steady_step_def)
  from step show ?thesis
  proof (cases rule: driver_step.cases)
    case (command hb sw c d1)
    have "publishes d [] (snd (on_command W d1 c))"
      by (rule publishes_nothing)
        (simp_all add: on_command_events on_command_keeps recv_command_events [OF command(3)] recv_command_keeps [OF command(3)])
    then show ?thesis using command step_on_publishes by blast
  next
    case (message hb sw)
    then show ?thesis using poll_read_publishes by simp
  next
    case (heartbeat hb sw)
    obtain k p where "snd (on_heartbeat W d) = d\<lparr>d_write := k, d_phase := p\<rparr>"
      using on_heartbeat_frame by blast
    then have "publishes d [] (snd (on_heartbeat W d))" by (intro publishes_nothing) simp_all
    then show ?thesis using heartbeat step_on_publishes by blast
  next
    case (sweep hb sw)
    have "publishes d [] (snd (on_sweep d))"
      by (rule publishes_nothing) (cases rule: on_sweep_cases [of d]; simp)+
    then show ?thesis using sweep step_on_publishes by blast
  next
    case (command_asleep k u c d1)
    have "publishes d [] d'"
      by (rule publishes_nothing) (simp_all add: command_asleep(1) command_while_down_events
          command_while_down_snapshots recv_command_events [OF command_asleep(3)] recv_command_keeps [OF command_asleep(3)])
    then show ?thesis ..
  next
    case (command_attempting k c d1)
    have "publishes d [] d'"
      by (rule publishes_nothing) (simp_all add: command_attempting(1) command_while_down_events
          command_while_down_snapshots recv_command_events [OF command_attempting(3)] recv_command_keeps [OF command_attempting(3)])
    then show ?thesis ..
  next
    case (attempted b C outcome)
    have "publishes d [] d'"
    proof (cases outcome)
      case (Inl e)
      then show ?thesis using attempted by (intro publishes_nothing) (auto simp: on_attempt_def)
    next
      case (Inr cl)
      then have "\<exists>hb sw. d_phase d' = Connected hb sw"
        using attempted by (auto simp: on_attempt_def enter_connected_def split: prod.split)
      then show ?thesis using no attempted by blast
    qed
    then show ?thesis ..
  qed (auto intro!: publishes_nothing exI [of _ "[]"])
qed

lemma steady_run_publishes:
  assumes "(steady_step W)\<^sup>*\<^sup>* d d'"
  shows "\<exists>evs. publishes d evs d'"
  using assms
proof (induction rule: rtranclp_induct)
  case base
  then show ?case by (auto intro: publishes_nothing)
next
  case (step y z)
  then show ?case using steady_step_publishes publishes_trans by blast
qed

lemma logon_clears_cache:
  assumes "driver_start W d0 \<or>
    (\<exists>d b hb sw. driver_step W d d0 \<and> d_phase d = Attempting b \<and> d_phase d0 = Connected hb sw)"
  shows "d_snapshots d0 = (\<lambda>_. None)"
  using assms
proof (elim disjE exE conjE)
  assume "driver_start W d0"
  then show ?thesis
    by (auto simp: driver_start_def spawn_session_def spawn_driver_def into_parts_def and_then_Inr_iff)
next
  fix d b hb sw
  assume step: "driver_step W d d0" "d_phase d = Attempting b" "d_phase d0 = Connected hb sw"
  from step(1) show ?thesis
  proof (cases rule: driver_step.cases)
    case (command_attempting k c d1)
    obtain stop d2 where a: "answer_while_down c d1 = (stop, d2)" by fastforce
    with answer_while_down_keeps [of c d1] obtain as where "d2 = d1\<lparr>d_answers := as\<rparr>" by auto
    then show ?thesis using command_attempting a step recv_command_keeps [of d c d1]
      by (cases stop) (auto simp: command_while_down_def)
  next
    case (attempted k C outcome)
    then show ?thesis using step(3)
      by (auto simp: on_attempt_def into_parts_def split: sum.splits if_splits)
  qed (use step in \<open>simp_all\<close>)
qed

text \<open>C11: the cache holds the first list of its logon.  From a state in which the driver has just logged on,
  for the first time or again, and until it logs on again, the cache holds for each of the three lists
  that Steam pushes after a logon the body of the first message of that kind broadcast since then, and
  nothing as long as there was none; it holds nothing else.  What an earlier logon left is gone.\<close>

theorem snapshot_first_wins:
  assumes "driver_start W d0 \<or>
      (\<exists>d b hb sw. driver_step W d d0 \<and> d_phase d = Attempting b \<and> d_phase d0 = Connected hb sw)"
    and "(steady_step W)\<^sup>*\<^sup>* d0 d"
  shows "d_snapshots d e =
    (if e \<in> {767, 5553, 5587}
     then map_option sm_body (find (\<lambda>m. sm_emsg m = e) (drop (length (d_events d0)) (d_events d)))
     else None)"
  using steady_run_publishes [OF assms(2)] logon_clears_cache [OF assms(1)]
  by (auto simp: publishes_def POST_LOGIN_SNAPSHOT_EMSGS_def)

section \<open>The environment a run gives to a handle\<close>

text \<open>Calls served until the state \<open>d'\<close>: the answers the driver has logged by then, at the latest when \<open>d'\<close> is
  reached; \<open>look n\<close> is the state of the driver at the handle's n-th look at what it shares, and \<open>rx n\<close> what a
  subscription made then receives.\<close>

definition session_env ::
    "driver \<Rightarrow> (nat \<Rightarrow> driver) \<Rightarrow> (nat \<Rightarrow> steam_message receiver) \<Rightarrow> driver \<Rightarrow> env" where
  "session_env d look rx d' =
     \<lparr>en_running = (\<lambda>ch. ch < d_next_channel d'),
      en_answers = (\<lambda>ch. map_option (\<lambda>a. (d_now d' - d_now d, a)) (map_of (d_answers d') ch)),
      en_events = rx,
      en_snapshots = (\<lambda>n. d_snapshots (look n)),
      en_state = (\<lambda>_. d_state d')\<rparr>"

text \<open>The looks come one after the other within one logon, and each subscription receives what is
  broadcast after it, as far as the channel holds it.\<close>

definition looks_on ::
    "wire \<Rightarrow> (nat \<Rightarrow> driver) \<Rightarrow> (nat \<Rightarrow> steam_message receiver) \<Rightarrow> driver \<Rightarrow> bool" where
  "looks_on W look rx d' \<longleftrightarrow>
     (\<forall>n. (steady_step W)\<^sup>*\<^sup>* (look n) (look (Suc n)) \<and> (steady_step W)\<^sup>*\<^sup>* (look n) d' \<and>
        receives EVENT_CAPACITY (drop (length (d_events (look n))) (d_events d')) (d_now d') (rx n))"

lemma ended_answers:
  assumes "reachable (driver_start W) (driver_step W) d" "d_phase d = Ended r"
  shows "distinct (map fst (d_answers d))" "set (map fst (d_answers d)) = {..<d_next_channel d}"
proof -
  have "d_commands d = [] \<and> d_pending d = []" using reachable_inv [OF assms(1)] assms(2) by (simp add: phase_inv_def)
  then have m: "mset (map fst (d_answers d)) = mset [0..<d_next_channel d]"
    using reachable_inv [OF assms(1)] by (simp add: book_inv_def book_list)
  show "distinct (map fst (d_answers d))" using mset_eq_imp_distinct_iff [OF m] by simp
  show "set (map fst (d_answers d)) = {..<d_next_channel d}" using mset_eq_setD [OF m] by (simp add: lessThan_atLeast0)
qed

section \<open>Emptying the queue\<close>

lemma dispatch_handles: "d_handles (dispatch d m) = d_handles d"
  by (cases rule: dispatch_cases [of d m]) (simp_all add: publish_def tell_def)

lemma dispatch_all_handles: "d_handles (foldl dispatch d ms) = d_handles d"
  by (induction ms arbitrary: d) (simp_all add: dispatch_handles)

definition queue_of :: "driver \<Rightarrow> bool \<times> command list \<times> channel" where
  "queue_of d = (d_handles d, d_commands d, d_next_channel d)"

lemma on_command_queue: "queue_of (snd (on_command W d c)) = queue_of d"
proof (cases "(W, d, c)" rule: on_command.cases)
  case (2 _ _ emsg body ack)
  obtain r d1 where s: "send_frame W d emsg None body = (r, d1)" by fastforce
  with 2 send_frame_frame [OF s] show ?thesis by (auto simp: queue_of_def tell_def)
next
  case (3 _ _ ack)
  obtain r d1 where s: "send_frame W d EMSG_CLIENT_LOGOFF None [] = (r, d1)" by fastforce
  with 3 send_frame_frame [OF s] show ?thesis by (auto simp: queue_of_def tell_def)
next
  case (4 _ _ emsg body deadline reply)
  let ?d = "d\<lparr>d_next_jobid := next_job (d_next_jobid d)\<rparr>"
  obtain r d1 where s: "send_frame W ?d emsg (Some (d_next_jobid d)) body = (r, d1)" by fastforce
  with 4 send_frame_frame [OF s] show ?thesis
    by (auto simp: queue_of_def tell_def Let_def split: sum.split option.split prod.split)
qed auto

text \<open>Serving one command: the driver is closing, or it goes on with the rest of the queue.\<close>

definition served :: "driver \<Rightarrow> driver \<Rightarrow> bool" where
  "served d d' \<longleftrightarrow> queue_of d' = queue_of d \<and> live_phase (d_phase d')"

lemma finish_queue: "queue_of (finish result d) = queue_of d"
  by (simp add: queue_of_def finish_def fail_all_pending_def Let_def)

lemma after_exit_served: "served d (after_exit x d)"
  by (cases x) (auto simp: served_def after_exit_def Let_def queue_of_def live_phase_def fail_all_pending_def
      dispatch_all_handles finish_queue [unfolded queue_of_def, simplified])

lemma step_on_served: "live_phase (d_phase (snd r)) \<Longrightarrow> served (snd r) (step_on r)"
  using after_exit_served by (cases r; cases "fst r") (auto simp: step_on_def served_def)

lemma while_down_served: "live_phase (d_phase d) \<Longrightarrow> served d (command_while_down c d)"
proof -
  assume live: "live_phase (d_phase d)"
  obtain stop d1 where a: "answer_while_down c d = (stop, d1)" by fastforce
  with answer_while_down_keeps [of c d] obtain as where "d1 = d\<lparr>d_answers := as\<rparr>" by auto
  then show ?thesis
    using live finish_queue [of _ d1]
    by (cases stop) (auto simp: command_while_down_def a served_def queue_of_def live_phase_def)
qed

lemma command_served:
  assumes "recv_command d = Some (c, d1)" "live_phase (d_phase d)" "\<And>r u. d_phase d \<noteq> Closing r u"
  shows "\<exists>d'. driver_step W d d' \<and> served d1 d'"
proof -
  have live: "live_phase (d_phase d1)" using assms recv_command_keeps [OF assms(1)] by simp
  show ?thesis
  proof (cases "d_phase d")
    case (Connected hb sw)
    have "served d1 (step_on (on_command W d1 c))"
      using step_on_served [of "on_command W d1 c"] live on_command_queue [of W d1 c]
      by (auto simp: on_command_keeps served_def queue_of_def)
    then show ?thesis using Connected assms(1) driver_step.command by blast
  next
    case (Sleeping b u)
    then show ?thesis using while_down_served [OF live] assms(1) driver_step.command_asleep by blast
  next
    case (Attempting b)
    then show ?thesis using while_down_served [OF live] assms(1) driver_step.command_attempting by blast
  next
    case (Ended r)
    then show ?thesis using assms(2) by (simp add: live_phase_def)
  qed (use assms(3) in simp)
qed

lemma shutdown_closes:
  assumes "d_commands d = []" "\<not> d_handles d" "live_phase (d_phase d)" "\<And>r u. d_phase d \<noteq> Closing r u"
  shows "\<exists>d' r u. driver_step W d d' \<and> d_phase d' = Closing r u \<and> d_next_channel d' = d_next_channel d"
proof -
  have none: "recv_command d = Some (None, d)" using assms by (simp add: recv_command_def)
  have fin: "step_on (on_command W d None) = finish (Inr ''session closed'') d"
    "command_while_down None d = finish (Inr ''session closed'') d"
    by (simp_all add: step_on_def after_exit_def command_while_down_def)
  have "driver_step W d (finish (Inr ''session closed'') d)"
    using assms(3,4) none fin driver_step.command [of d _ _ None d W] driver_step.command_asleep [of d _ _ None d W]
      driver_step.command_attempting [of d _ None d W]
    by (cases "d_phase d") (auto simp: live_phase_def)
  then show ?thesis by fastforce
qed

lemma closing_ends:
  assumes "d_phase d = Closing result u"
  shows "\<exists>d' r. driver_step W d d' \<and> d_phase d' = Ended r \<and> d_next_channel d' = d_next_channel d"
  using driver_step.closed [OF assms, of W] by fastforce

lemma queue_drained:
  assumes "\<not> d_handles d" "live_phase (d_phase d)"
  shows "\<exists>n d' r. n \<le> length (d_commands d) + 2 \<and> (driver_step W ^^ n) d d' \<and> d_phase d' = Ended r \<and>
    d_next_channel d' = d_next_channel d"
  using assms
proof (induction "length (d_commands d)" arbitrary: d rule: less_induct)
  case less
  show ?case
  proof (cases "\<exists>r u. d_phase d = Closing r u")
    case True
    then obtain d' r where "driver_step W d d'" "d_phase d' = Ended r" "d_next_channel d' = d_next_channel d"
      using closing_ends [of d _ _ W] by metis
    then show ?thesis by (intro exI [of _ 1]) auto
  next
    case up: False
    show ?thesis
    proof (cases "d_commands d")
      case Nil
      obtain d1 r1 u where "driver_step W d d1" "d_phase d1 = Closing r1 u" "d_next_channel d1 = d_next_channel d"
        using shutdown_closes [OF Nil less.prems, of W] up by metis
      moreover from this obtain d' r where "driver_step W d1 d'" "d_phase d' = Ended r" "d_next_channel d' = d_next_channel d"
        using closing_ends [of d1 _ _ W] by metis
      ultimately show ?thesis by (intro exI [of _ 2]) (auto simp: numeral_2_eq_2)
    next
      case (Cons c cs)
      then have "recv_command d = Some (Some c, d\<lparr>d_commands := cs\<rparr>)" by (simp add: recv_command_def)
      from command_served [OF this less.prems(2), of W] up
      obtain d2 where d2: "driver_step W d d2" "served (d\<lparr>d_commands := cs\<rparr>) d2" by blast
      then have "\<not> d_handles d2" "live_phase (d_phase d2)" "d_commands d2 = cs" "d_next_channel d2 = d_next_channel d"
        using less.prems by (auto simp: served_def queue_of_def)
      then obtain n d' r where "n \<le> length cs + 2" "(driver_step W ^^ n) d2 d'" "d_phase d' = Ended r"
        "d_next_channel d' = d_next_channel d" using less.hyps [of d2] Cons by auto
      then show ?thesis using d2(1) Cons relpowp_Suc_I2 [of "driver_step W" d d2 n d']
        by (intro exI [of _ "Suc n"]) auto
    qed
  qed
qed

lemma reachable_run: "reachable init step s \<Longrightarrow> (step ^^ n) s t \<Longrightarrow> reachable init step t"
  by (induction n arbitrary: t) (auto intro: reach_step)

section \<open>Witnesses\<close>

text \<open>A logon whose friends list arrives and is cached.\<close>

definition listed_driver :: driver where
  "listed_driver = poll_read sample_wire arrived_driver"

lemma listed_driver_simps:
  "d_events listed_driver = [\<lparr>sm_emsg = 767, sm_header = default_header, sm_body = [9]\<rparr>]" "d_now listed_driver = 9"
  using arrived_read
  by (simp_all add: listed_driver_def poll_read_def step_on_def on_message_def dispatch_def default_header_def
      Let_def POST_LOGIN_SNAPSHOT_EMSGS_def) (simp_all add: arrived_driver_def)

lemma listed_run: "(steady_step sample_wire)\<^sup>*\<^sup>* sample_driver listed_driver"
proof -
  have "driver_step sample_wire sample_driver arrived_driver"
    unfolding arrived_driver_def by (rule arrive) simp
  then have "steady_step sample_wire sample_driver arrived_driver" by (simp add: steady_step_def)
  moreover have "steady_step sample_wire arrived_driver listed_driver"
    unfolding steady_step_def listed_driver_def by (auto intro: message simp: arrived_driver_def)
  ultimately show ?thesis by (meson rtranclp.rtrancl_into_rtrancl rtranclp.rtrancl_refl)
qed

theorem snapshot_first_wins_witness: "d_snapshots listed_driver 767 = Some [9] \<and> d_snapshots listed_driver 5553 = None"
proof -
  have "driver_start sample_wire sample_driver \<or> (\<exists>d b hb sw. driver_step sample_wire d sample_driver \<and>
      d_phase d = Attempting b \<and> d_phase sample_driver = Connected hb sw)"
    using sample_start by blast
  from snapshot_first_wins [OF this listed_run, of 767] snapshot_first_wins [OF this listed_run, of 5553] show ?thesis
    by (simp add: listed_driver_simps)
qed

end
