(* ===== verification/Session_Calls.thy ===== *)
theory Session_Calls
  imports Session_Run
begin

text \<open>
  The life of one call over every run of the session driver.  A call is a channel; the abstract machine
  \<open>call_step\<close> says how it may move, from the queue to the table of requests in flight to its one answer,
  and with which answers.  The driver of \<^verbatim>\<open>src/session/driver.rs\<close> refines it, whatever the interleaving, and
  so does what a caller of \<^verbatim>\<open>SessionHandle\<close> gets back.
\<close>

section \<open>The abstract machine\<close>

datatype call_status =
    Unissued
  | Queued command
  | InFlight u64 millis
  | Settled answer

text \<open>What a call depends on: the clock, whether its caller has gone, the next job id, where it is.\<close>

record call_view =
  cv_now :: millis
  cv_closed :: bool
  cv_next_jobid :: u64
  cv_status :: call_status

text \<open>How a request in flight can end.\<close>

definition settles :: "millis \<Rightarrow> bool \<Rightarrow> u64 \<Rightarrow> millis \<Rightarrow> answer \<Rightarrow> bool" where
  "settles now closed j deadline a =
     (case a of
        Reply (Inr m) \<Rightarrow> hdr_jobid_target (sm_header m) = Some j
      | Reply (Inl e) \<Rightarrow>
          e = WebSocket ''session reconnecting'' \<or> e = WebSocket ''session driver stopped'' \<or>
          e = Timeout ''steam request'' \<and> deadline \<le> now
      | Abandoned \<Rightarrow> closed
      | _ \<Rightarrow> False)"

text \<open>How a command can end that never went in flight.\<close>

fun refuses :: "command \<Rightarrow> answer \<Rightarrow> bool" where
  "refuses (Request _ _ _ _) a \<longleftrightarrow> a = Reply (Inl (WebSocket ''session reconnecting'')) \<or> a = Dropped"
| "refuses (Notify _ _ _) a \<longleftrightarrow> (\<exists>r. a = Ack r) \<or> a = Dropped"
| "refuses (Logoff _) a \<longleftrightarrow> a = LogoffAck \<or> a = Dropped"

inductive call_moves :: "call_view \<Rightarrow> call_status \<Rightarrow> bool" for v :: call_view where
  stays: "call_moves v (cv_status v)"
| issued: "cv_status v = Unissued \<Longrightarrow> call_moves v (Queued c)"
| sent: "cv_status v = Queued (Request emsg body deadline ch) \<Longrightarrow> call_moves v (InFlight (cv_next_jobid v) deadline)"
| refused: "cv_status v = Queued c \<Longrightarrow> refuses c a \<Longrightarrow> call_moves v (Settled a)"
| settled: "cv_status v = InFlight j deadline \<Longrightarrow> settles (cv_now v) (cv_closed v) j deadline a \<Longrightarrow> call_moves v (Settled a)"
| displaced: "cv_status v = InFlight (cv_next_jobid v) deadline \<Longrightarrow> call_moves v (Settled Dropped)"

inductive_simps call_moves_iff: "call_moves v s"

definition call_step :: "call_view \<Rightarrow> call_view \<Rightarrow> bool" where
  "call_step v v' \<longleftrightarrow> cv_now v \<le> cv_now v' \<and> (cv_closed v \<longrightarrow> cv_closed v') \<and>
     cv_next_jobid v' \<in> {cv_next_jobid v, next_job (cv_next_jobid v)} \<and> call_moves v (cv_status v')"

section \<open>The driver seen from one channel\<close>

definition call_status :: "driver \<Rightarrow> channel \<Rightarrow> call_status" where
  "call_status d ch =
     (case map_of (d_answers d) ch of
        Some a \<Rightarrow> Settled a
      | None \<Rightarrow>
          (case find (\<lambda>(_, p). pd_reply p = ch) (d_pending d) of
             Some (j, p) \<Rightarrow> InFlight j (pd_deadline p)
           | None \<Rightarrow>
               (case find (\<lambda>c. channel_of c = ch) (d_commands d) of
                  Some c \<Rightarrow> Queued c
                | None \<Rightarrow> Unissued)))"

definition view :: "channel \<Rightarrow> driver \<Rightarrow> call_view" where
  "view ch d = \<lparr>cv_now = d_now d, cv_closed = (ch \<in> set (d_closed d)),
     cv_next_jobid = d_next_jobid d, cv_status = call_status d ch\<rparr>"

text \<open>In a state with its books in order a channel is in one place only.\<close>

lemma book_places:
  assumes "book_inv d"
  shows "distinct (map channel_of (d_commands d))" "distinct (map (pd_reply \<circ> snd) (d_pending d))"
    "distinct (map fst (d_answers d))"
    "channel_of ` set (d_commands d) \<inter> (pd_reply \<circ> snd) ` set (d_pending d) = {}"
    "channel_of ` set (d_commands d) \<inter> fst ` set (d_answers d) = {}"
    "(pd_reply \<circ> snd) ` set (d_pending d) \<inter> fst ` set (d_answers d) = {}"
    "channel_of ` set (d_commands d) \<union> (pd_reply \<circ> snd) ` set (d_pending d) \<union> fst ` set (d_answers d) = {..<d_next_channel d}"
proof -
  let ?l = "map channel_of (d_commands d) @ map (pd_reply \<circ> snd) (d_pending d) @ map fst (d_answers d)"
  have m: "mset ?l = mset [0..<d_next_channel d]" using assms by (simp only: book_inv_def book_list)
  have "distinct ?l" using mset_eq_imp_distinct_iff [OF m] by simp
  then show "distinct (map channel_of (d_commands d))" "distinct (map (pd_reply \<circ> snd) (d_pending d))"
    "distinct (map fst (d_answers d))"
    "channel_of ` set (d_commands d) \<inter> (pd_reply \<circ> snd) ` set (d_pending d) = {}"
    "channel_of ` set (d_commands d) \<inter> fst ` set (d_answers d) = {}"
    "(pd_reply \<circ> snd) ` set (d_pending d) \<inter> fst ` set (d_answers d) = {}"
    by (simp_all only: distinct_append set_append set_map Int_Un_distrib Un_empty)
  have "set ?l = {..<d_next_channel d}" using mset_eq_setD [OF m] by (simp only: set_upt lessThan_atLeast0)
  then show "channel_of ` set (d_commands d) \<union> (pd_reply \<circ> snd) ` set (d_pending d) \<union> fst ` set (d_answers d) = {..<d_next_channel d}"
    by (simp only: set_append set_map Un_assoc)
qed

lemma find_unique: "distinct (map f xs) \<Longrightarrow> x \<in> set xs \<Longrightarrow> find (\<lambda>y. f y = f x) xs = Some x"
  by (induction xs) (auto simp: rev_image_eqI)

lemma status_settled: "book_inv d \<Longrightarrow> (ch, a) \<in> set (d_answers d) \<Longrightarrow> call_status d ch = Settled a"
  by (simp add: call_status_def book_places)

lemma status_in_flight:
  assumes "book_inv d" "(j, p) \<in> set (d_pending d)"
  shows "call_status d (pd_reply p) = InFlight j (pd_deadline p)"
proof -
  have "pd_reply p \<in> (pd_reply \<circ> snd) ` set (d_pending d)" using assms(2) by force
  then have "map_of (d_answers d) (pd_reply p) = None"
    using book_places(6) [OF assms(1)] by (auto simp: map_of_eq_None_iff)
  moreover have "find (\<lambda>(_, q). pd_reply q = pd_reply p) (d_pending d) = Some (j, p)"
    using find_unique [OF book_places(2) [OF assms(1)] assms(2)] by (simp add: case_prod_unfold)
  ultimately show ?thesis by (simp add: call_status_def)
qed

lemma status_queued:
  assumes "book_inv d" "c \<in> set (d_commands d)"
  shows "call_status d (channel_of c) = Queued c"
proof -
  have c: "channel_of c \<in> channel_of ` set (d_commands d)" using assms(2) by simp
  then have "map_of (d_answers d) (channel_of c) = None"
    using book_places(5) [OF assms(1)] by (auto simp: map_of_eq_None_iff)
  moreover have "find (\<lambda>(_, p). pd_reply p = channel_of c) (d_pending d) = None"
    using c book_places(4) [OF assms(1)] unfolding find_None_iff by force
  ultimately show ?thesis using find_unique [OF book_places(1) [OF assms(1)] assms(2)] by (simp add: call_status_def)
qed

lemma status_unissued:
  assumes "book_inv d" "d_next_channel d \<le> ch"
  shows "call_status d ch = Unissued"
proof -
  have "ch \<notin> {..<d_next_channel d}" using assms(2) by simp
  then have "ch \<notin> channel_of ` set (d_commands d)" "ch \<notin> (pd_reply \<circ> snd) ` set (d_pending d)" "ch \<notin> fst ` set (d_answers d)"
    unfolding book_places(7) [OF assms(1), symmetric] by simp_all
  then have "map_of (d_answers d) ch = None" "find (\<lambda>(_, p). pd_reply p = ch) (d_pending d) = None"
    "find (\<lambda>c. channel_of c = ch) (d_commands d) = None"
    unfolding map_of_eq_None_iff find_None_iff by force+
  then show ?thesis by (simp add: call_status_def)
qed

lemma status_cases:
  assumes "book_inv d"
  obtains (unissued) "d_next_channel d \<le> ch" "call_status d ch = Unissued"
  | (queued) c where "c \<in> set (d_commands d)" "channel_of c = ch" "call_status d ch = Queued c"
  | (in_flight) j p where "(j, p) \<in> set (d_pending d)" "pd_reply p = ch" "call_status d ch = InFlight j (pd_deadline p)"
  | (settled) a where "(ch, a) \<in> set (d_answers d)" "call_status d ch = Settled a"
proof (cases "d_next_channel d \<le> ch")
  case True
  then show thesis using status_unissued [OF assms] unissued by blast
next
  case False
  then have "ch \<in> channel_of ` set (d_commands d) \<union> (pd_reply \<circ> snd) ` set (d_pending d) \<union> fst ` set (d_answers d)"
    unfolding book_places(7) [OF assms] by simp
  then consider c where "c \<in> set (d_commands d)" "channel_of c = ch" | j p where "(j, p) \<in> set (d_pending d)" "pd_reply p = ch"
    | a where "(ch, a) \<in> set (d_answers d)" by force
  then show thesis
    by cases (use status_queued [OF assms] status_in_flight [OF assms] status_settled [OF assms] queued in_flight settled in blast)+
qed

section \<open>One step of the driver\<close>

text \<open>What one step does to the books: a request may enter the table under the next job id, a command may enter
  the queue on a fresh channel, and every new answer ends a call that was queued or in flight.\<close>

definition ends_call :: "driver \<Rightarrow> channel \<Rightarrow> answer \<Rightarrow> bool" where
  "ends_call d ch a \<longleftrightarrow>
     (\<exists>(j, p) \<in> set (d_pending d). pd_reply p = ch \<and> settles (d_now d) (ch \<in> set (d_closed d)) j (pd_deadline p) a) \<or>
     (\<exists>c \<in> set (d_commands d). channel_of c = ch \<and> refuses c a)"

definition displaces :: "driver \<Rightarrow> channel \<Rightarrow> answer \<Rightarrow> bool" where
  "displaces d ch a \<longleftrightarrow> a = Dropped \<and> (\<exists>p. (d_next_jobid d, p) \<in> set (d_pending d) \<and> pd_reply p = ch)"

definition moves_on :: "driver \<Rightarrow> driver \<Rightarrow> bool" where
  "moves_on d d' \<longleftrightarrow>
     d_now d \<le> d_now d' \<and> set (d_closed d) \<subseteq> set (d_closed d') \<and>
     d_next_jobid d' \<in> {d_next_jobid d, next_job (d_next_jobid d)} \<and> d_next_channel d \<le> d_next_channel d' \<and>
     set (d_pending d') \<subseteq> set (d_pending d) \<union>
       {(d_next_jobid d, \<lparr>pd_reply = ch, pd_deadline = dl\<rparr>) |emsg body dl ch. Request emsg body dl ch \<in> set (d_commands d)} \<and>
     (\<forall>c \<in> set (d_commands d'). c \<in> set (d_commands d) \<or> d_next_channel d \<le> channel_of c) \<and>
     set (d_answers d) \<subseteq> set (d_answers d') \<and>
     (\<forall>(ch, a) \<in> set (d_answers d') - set (d_answers d). ends_call d ch a \<or> displaces d ch a)"

lemma moves_onD:
  assumes "moves_on d d'"
  shows "d_next_channel d \<le> d_next_channel d'"
    "c \<in> set (d_commands d') \<Longrightarrow> c \<in> set (d_commands d) \<or> d_next_channel d \<le> channel_of c"
    "(j, p) \<in> set (d_pending d') \<Longrightarrow> (j, p) \<in> set (d_pending d) \<or>
       j = d_next_jobid d \<and> (\<exists>emsg body. Request emsg body (pd_deadline p) (pd_reply p) \<in> set (d_commands d))"
    "(ch, a) \<in> set (d_answers d) \<Longrightarrow> (ch, a) \<in> set (d_answers d')"
    "(ch, a) \<in> set (d_answers d') \<Longrightarrow> (ch, a) \<in> set (d_answers d) \<or> ends_call d ch a \<or> displaces d ch a"
proof -
  have p: "set (d_pending d') \<subseteq> set (d_pending d) \<union>
       {(d_next_jobid d, \<lparr>pd_reply = ch, pd_deadline = dl\<rparr>) |emsg body dl ch. Request emsg body dl ch \<in> set (d_commands d)}"
    and a: "\<forall>(ch, a) \<in> set (d_answers d') - set (d_answers d). ends_call d ch a \<or> displaces d ch a"
    using assms by (simp_all add: moves_on_def)
  show "(j, p) \<in> set (d_pending d') \<Longrightarrow> (j, p) \<in> set (d_pending d) \<or>
       j = d_next_jobid d \<and> (\<exists>emsg body. Request emsg body (pd_deadline p) (pd_reply p) \<in> set (d_commands d))"
    by (drule subsetD [OF p], auto) blast
  show "(ch, a) \<in> set (d_answers d') \<Longrightarrow> (ch, a) \<in> set (d_answers d) \<or> ends_call d ch a \<or> displaces d ch a"
    using a by blast
qed (use assms in \<open>auto simp: moves_on_def\<close>)

text \<open>The same for a call that is at a known place before the step.\<close>

lemma status_after:
  assumes "moves_on d d'" "book_inv d" "book_inv d'"
  shows "call_status d' ch = call_status d ch \<or>
    call_status d ch = Unissued \<and> (\<exists>c. call_status d' ch = Queued c) \<or>
    (\<exists>emsg body dl. call_status d ch = Queued (Request emsg body dl ch) \<and> call_status d' ch = InFlight (d_next_jobid d) dl) \<or>
    (\<exists>a. call_status d' ch = Settled a \<and> (ends_call d ch a \<or> displaces d ch a))"
proof (rule status_cases [OF assms(3), of ch], goal_cases)
  case 1
  then show ?case using moves_onD(1) [OF assms(1)] status_unissued [OF assms(2)] by simp
next
  case (2 c)
  then show ?case using moves_onD(2) [OF assms(1) 2(1)] status_queued [OF assms(2)] status_unissued [OF assms(2)] by auto
next
  case (3 j p)
  from moves_onD(3) [OF assms(1) 3(1)] show ?case
  proof (elim disjE conjE exE)
    assume "(j, p) \<in> set (d_pending d)"
    from status_in_flight [OF assms(2) this] 3 show ?case by simp
  next
    fix emsg body assume "j = d_next_jobid d" "Request emsg body (pd_deadline p) (pd_reply p) \<in> set (d_commands d)"
    with status_queued [OF assms(2) this(2)] 3 show ?case by simp
  qed
next
  case (4 a)
  then show ?case using moves_onD(5) [OF assms(1) 4(1)] status_settled [OF assms(2)] by auto
qed

lemma answered_moves:
  assumes "book_inv d" "ends_call d ch a \<or> displaces d ch a"
  shows "call_moves (view ch d) (Settled a)"
proof -
  from assms(2) consider
      j p where "(j, p) \<in> set (d_pending d)" "pd_reply p = ch" "settles (d_now d) (ch \<in> set (d_closed d)) j (pd_deadline p) a"
    | c where "c \<in> set (d_commands d)" "channel_of c = ch" "refuses c a"
    | p where "(d_next_jobid d, p) \<in> set (d_pending d)" "pd_reply p = ch" "a = Dropped"
    unfolding ends_call_def displaces_def by blast
  then show ?thesis
  proof cases
    case (1 j p)
    with status_in_flight [OF assms(1) 1(1)] show ?thesis by (auto simp: call_moves_iff view_def)
  next
    case (2 c)
    with status_queued [OF assms(1) 2(1)] show ?thesis by (auto simp: call_moves_iff view_def)
  next
    case (3 p)
    with status_in_flight [OF assms(1) 3(1)] show ?thesis by (auto simp: call_moves_iff view_def)
  qed
qed

lemma moves_on_view:
  assumes "moves_on d d'" "book_inv d" "book_inv d'"
  shows "call_step (view ch d) (view ch d')"
proof -
  have "call_moves (view ch d) (call_status d' ch)"
    using status_after [OF assms, of ch] answered_moves [OF assms(2), of ch]
    by (elim disjE exE conjE) (simp_all add: call_moves_iff view_def)
  then show ?thesis using assms(1) by (auto simp: call_step_def moves_on_def view_def)
qed

text \<open>Most of what a handler does can only take calls out of the queue and the table.\<close>

definition shrinks :: "driver \<Rightarrow> driver \<Rightarrow> bool" where
  "shrinks d d' \<longleftrightarrow>
     d_now d' = d_now d \<and> d_closed d' = d_closed d \<and> d_next_channel d' = d_next_channel d \<and>
     set (d_pending d') \<subseteq> set (d_pending d) \<and> set (d_commands d') \<subseteq> set (d_commands d) \<and>
     set (d_answers d) \<subseteq> set (d_answers d') \<and>
     (\<forall>(ch, a) \<in> set (d_answers d') - set (d_answers d). ends_call d ch a)"

lemma shrinks_moves_on:
  "shrinks d d' \<Longrightarrow> d_next_jobid d' \<in> {d_next_jobid d, next_job (d_next_jobid d)} \<Longrightarrow> moves_on d d'"
  unfolding shrinks_def moves_on_def by auto

lemma shrinks_refl [simp]: "shrinks d d"
  by (simp add: shrinks_def)

lemma ends_call_mono: "shrinks d d' \<Longrightarrow> ends_call d' ch a \<Longrightarrow> ends_call d ch a"
  unfolding shrinks_def ends_call_def by fastforce

lemma shrinks_trans: "shrinks d d' \<Longrightarrow> shrinks d' d'' \<Longrightarrow> shrinks d d''"
  using ends_call_mono [of d d'] unfolding shrinks_def by (auto, blast)

lemma shrinks_update [simp]:
  "shrinks d (d'\<lparr>d_phase := p\<rparr>) = shrinks d d'" "shrinks d (d'\<lparr>d_write := k\<rparr>) = shrinks d d'"
  "shrinks d (d'\<lparr>d_state := s\<rparr>) = shrinks d d'" "shrinks d (d'\<lparr>d_read := rd\<rparr>) = shrinks d d'"
  "shrinks d (d'\<lparr>d_inbox := ms\<rparr>) = shrinks d d'" "shrinks d (d'\<lparr>d_liveness := l\<rparr>) = shrinks d d'"
  "shrinks d (d'\<lparr>d_handles := h\<rparr>) = shrinks d d'" "shrinks d (d'\<lparr>d_snapshots := sn\<rparr>) = shrinks d d'"
  "shrinks d (d'\<lparr>d_steam_id := sid\<rparr>) = shrinks d d'" "shrinks d (d'\<lparr>d_session_id := sess\<rparr>) = shrinks d d'"
  "shrinks d (d'\<lparr>d_heartbeat := hb\<rparr>) = shrinks d d'" "shrinks d (d'\<lparr>d_next_jobid := n\<rparr>) = shrinks d d'"
  "shrinks d (d'\<lparr>d_events := es\<rparr>) = shrinks d d'" "shrinks d (enter_connected d') = shrinks d d'"
  by (simp_all add: shrinks_def enter_connected_def)

lemma shrinks_tell: "shrinks d d' \<Longrightarrow> ends_call d ch a \<Longrightarrow> shrinks d (tell ch a d')"
  by (auto simp: shrinks_def tell_def)

lemma shrinks_publish [simp]: "shrinks d (publish d' m) = shrinks d d'"
  by (simp add: publish_def)

lemma shrinks_dispatch: "shrinks d (dispatch d m)"
proof (cases rule: dispatch_cases [of d m])
  case (routed j e)
  then have e: "(j, e) \<in> set (d_pending d)" by (auto simp: routed_def dest: map_of_SomeD)
  have "ends_call d (pd_reply e) (Reply (Inr m))"
    using e routed(1) by (auto simp: ends_call_def settles_def routed_def intro!: bexI [of _ "(j, e)"])
  moreover have "shrinks d (d\<lparr>d_pending := snd (take_pending j (d_pending d))\<rparr>)"
    by (auto simp: shrinks_def take_pending_def)
  ultimately show ?thesis unfolding routed(2) by (intro shrinks_tell)
qed simp

lemma shrinks_dispatch_all: "shrinks d (foldl dispatch d ms)"
  by (induction ms arbitrary: d) (auto intro: shrinks_trans shrinks_dispatch)

lemma shrinks_fail_all:
  assumes "reason \<in> {''session reconnecting'', ''session driver stopped''}"
  shows "shrinks d (fail_all_pending reason d)"
proof -
  have "ends_call d (pd_reply p) (Reply (Inl (WebSocket reason)))" if "(j, p) \<in> set (d_pending d)" for j p
    using assms that by (auto simp: ends_call_def settles_def)
  then show ?thesis by (auto simp: shrinks_def fail_all_pending_def)
qed

lemma refuses_dropped [simp]: "refuses c Dropped"
  by (cases c) simp_all

lemma shrinks_drop_queue:
  "shrinks d (d\<lparr>d_answers := d_answers d @ map (\<lambda>c. (channel_of c, Dropped)) (d_commands d), d_commands := []\<rparr>)"
proof -
  have "ends_call d (channel_of c) Dropped" if "c \<in> set (d_commands d)" for c
    using that by (auto simp: ends_call_def)
  then show ?thesis by (auto simp: shrinks_def)
qed

lemma shrinks_finish: "shrinks d (finish result d)"
  using shrinks_fail_all by (simp add: finish_def Let_def)

lemma shrinks_publish_end: "shrinks d (publish_end result d)" "shrinks d (publish_end result (write_close d))"
proof -
  have "shrinks d d' \<Longrightarrow> shrinks d (publish_end result d')" for d'
    using shrinks_trans [OF _ shrinks_drop_queue] by (cases result) (simp_all add: publish_end_def Let_def)
  then show "shrinks d (publish_end result d)" "shrinks d (publish_end result (write_close d))"
    by (simp_all add: write_close_def)
qed

lemma shrinks_sweep: "shrinks d (sweep_pending d)"
proof -
  have "ends_call d (pd_reply p) a" if "(j, p) \<in> set (d_pending d)" "sweep_entry (d_closed d) (d_now d) p = Some a" for j p a
    using that by (force simp: ends_call_def settles_def sweep_entry_def split: if_splits)
  then show ?thesis by (auto simp: shrinks_def sweep_pending_def Let_def)
qed

lemma shrinks_after_exit: "shrinks d (after_exit x d)"
proof (cases x)
  case DisconnectedExit
  have "shrinks d (foldl dispatch (d\<lparr>d_inbox := []\<rparr>) (d_inbox d))"
    using shrinks_dispatch_all [of "d\<lparr>d_inbox := []\<rparr>"] shrinks_trans [of d "d\<lparr>d_inbox := []\<rparr>"] by simp
  from shrinks_trans [OF this shrinks_fail_all] DisconnectedExit show ?thesis by (simp add: after_exit_def Let_def)
qed (simp_all add: after_exit_def shrinks_finish)

lemma shrinks_step_on: "shrinks d (snd r) \<Longrightarrow> shrinks d (step_on r)"
  using shrinks_trans shrinks_after_exit by (cases r; cases "fst r") (auto simp: step_on_def)

lemma job_kept [simp]:
  "d_next_jobid (after_exit x d) = d_next_jobid d" "d_next_jobid (step_on r) = d_next_jobid (snd r)"
proof -
  show a: "d_next_jobid (after_exit x d) = d_next_jobid d" for x d
    by (cases x) (simp_all add: after_exit_def Let_def)
  show "d_next_jobid (step_on r) = d_next_jobid (snd r)"
    by (cases r; cases "fst r") (simp_all add: step_on_def a)
qed

lemma shrinks_recv: "recv_command d = Some (c, d') \<Longrightarrow> shrinks d d'"
  by (auto simp: recv_command_def shrinks_def split: list.splits if_splits)

lemma recv_command_queued: "recv_command d = Some (Some c, d') \<Longrightarrow> c \<in> set (d_commands d)"
  by (auto simp: recv_command_def split: list.splits if_splits)

lemma shrinks_while_down:
  assumes "recv_command d = Some (c, d')"
  shows "shrinks d (command_while_down c d')" "d_next_jobid (command_while_down c d') = d_next_jobid d"
proof -
  obtain stop d1 where a: "answer_while_down c d' = (stop, d1)" by fastforce
  have "shrinks d d1 \<and> d_next_jobid d1 = d_next_jobid d"
    using a assms shrinks_recv [OF assms] recv_command_queued [of d "the c" d'] recv_command_keeps [OF assms]
    by (cases "(c, d')" rule: answer_while_down.cases) (force intro!: shrinks_tell simp: ends_call_def)+
  then show "shrinks d (command_while_down c d')" "d_next_jobid (command_while_down c d') = d_next_jobid d"
    using shrinks_trans [OF _ shrinks_finish] by (cases stop; auto simp: command_while_down_def a)+
qed

lemma moves_on_insert:
  assumes "shrinks d d'" "Request emsg body deadline reply \<in> set (d_commands d)"
    and "set ps \<subseteq> insert (d_next_jobid d, \<lparr>pd_reply = reply, pd_deadline = deadline\<rparr>) (set (d_pending d))"
  shows "moves_on d (d'\<lparr>d_next_jobid := next_job (d_next_jobid d), d_write := k, d_pending := ps\<rparr>)"
proof -
  have "set ps \<subseteq> set (d_pending d) \<union>
      {(d_next_jobid d, \<lparr>pd_reply = ch, pd_deadline = dl\<rparr>) |emsg body dl ch. Request emsg body dl ch \<in> set (d_commands d)}"
    using assms(2, 3) by blast
  then show ?thesis using assms(1) unfolding moves_on_def shrinks_def by (simp, blast)
qed

lemma moves_on_displace: "moves_on d d' \<Longrightarrow> displaces d ch a \<Longrightarrow> moves_on d (tell ch a d')"
  unfolding moves_on_def by (simp add: tell_def) blast

text \<open>A request that is written enters the table; every other command is settled at once.\<close>

lemma request_moves_on:
  assumes "recv_command d = Some (Some (Request emsg body deadline reply), d')"
  shows "moves_on d (step_on (on_command W d' (Some (Request emsg body deadline reply))))"
proof -
  let ?p = "\<lparr>pd_reply = reply, pd_deadline = deadline\<rparr>"
  let ?d = "d'\<lparr>d_next_jobid := next_job (d_next_jobid d')\<rparr>"
  note rc = shrinks_recv [OF assms] and q = recv_command_queued [OF assms] and j = recv_command_keeps [OF assms]
  obtain r d1 where s: "send_frame W ?d emsg (Some (d_next_jobid d')) body = (r, d1)" by fastforce
  then obtain k where k: "d1 = ?d\<lparr>d_write := k\<rparr>" using send_frame_frame by blast
  show ?thesis
  proof (cases r)
    case (Inl e)
    have "ends_call d reply (Reply (Inl (WebSocket ''session reconnecting'')))"
      using q by (force simp: ends_call_def)
    then have "shrinks d (tell reply (Reply (Inl (WebSocket ''session reconnecting''))) d1)"
      using rc by (intro shrinks_tell) (simp_all add: k)
    from shrinks_trans [OF this shrinks_after_exit] show ?thesis
      using s Inl j by (intro shrinks_moves_on) (simp_all add: step_on_def k Let_def)
  next
    case (Inr u)
    obtain old ps where i: "insert_pending (d_next_jobid d) ?p (d_pending d') = (old, ps)" by fastforce
    have old: "old = Some e \<Longrightarrow> displaces d (pd_reply e) Dropped" for e
      using i rc by (auto simp: insert_pending_def displaces_def shrinks_def dest!: map_of_SomeD)
    have ps: "set ps \<subseteq> insert (d_next_jobid d, ?p) (set (d_pending d))"
      using i rc by (auto simp: insert_pending_def shrinks_def)
    have res: "step_on (on_command W d' (Some (Request emsg body deadline reply))) =
        (case old of None \<Rightarrow> d1\<lparr>d_pending := ps\<rparr> | Some e \<Rightarrow> tell (pd_reply e) Dropped (d1\<lparr>d_pending := ps\<rparr>))"
      using s Inr i j by (cases old) (simp_all add: step_on_def k Let_def)
    show ?thesis
      using moves_on_insert [OF rc q ps, of k] old moves_on_displace unfolding res by (cases old) (simp_all add: k j)
  qed
qed

lemma command_moves_on:
  assumes "recv_command d = Some (c, d')"
  shows "moves_on d (step_on (on_command W d' c))"
proof (cases "(W, d', c)" rule: on_command.cases)
  case (1 _ _)
  then show ?thesis using shrinks_recv [OF assms] recv_command_keeps [OF assms]
    by (intro shrinks_moves_on shrinks_step_on) auto
next
  case (2 _ _ emsg body ack)
  obtain r d1 where s: "send_frame W d' emsg None body = (r, d1)" by fastforce
  have "ends_call d ack (Ack r)" using 2 assms recv_command_queued [of d "the c" d'] by (force simp: ends_call_def)
  with 2 s send_frame_frame [OF s] shrinks_recv [OF assms] recv_command_keeps [OF assms] show ?thesis
    by (intro shrinks_moves_on shrinks_step_on) (auto intro: shrinks_tell)
next
  case (3 _ _ ack)
  obtain r d1 where s: "send_frame W d' EMSG_CLIENT_LOGOFF None [] = (r, d1)" by fastforce
  have "ends_call d ack LogoffAck" using 3 assms recv_command_queued [of d "the c" d'] by (force simp: ends_call_def)
  with 3 s send_frame_frame [OF s] shrinks_recv [OF assms] recv_command_keeps [OF assms] show ?thesis
    by (intro shrinks_moves_on shrinks_step_on) (auto intro: shrinks_tell)
next
  case (4 _ _ emsg body deadline reply)
  then show ?thesis using request_moves_on assms by blast
qed

lemma poll_read_moves_on: "moves_on d (poll_read W d)"
proof -
  obtain p rd inbox live where r: "read_message W (read_now d) (d_inbox d) (d_liveness d) = (p, rd, inbox, live)"
    by (metis prod_cases4)
  let ?d = "d\<lparr>d_read := rd, d_inbox := inbox, d_liveness := live\<rparr>"
  have "shrinks d (dispatch ?d m)" for m using shrinks_trans [OF _ shrinks_dispatch, of d ?d] by simp
  then have "shrinks d (snd (on_message W ?d x))" "d_next_jobid (snd (on_message W ?d x)) = d_next_jobid d" for x
    by (cases x; simp add: on_message_def)+
  then show ?thesis
    by (cases p) (auto simp: poll_read_def r intro!: shrinks_moves_on shrinks_step_on)
qed

lemma on_attempt_moves_on: "moves_on d (on_attempt b outcome d)"
  by (cases outcome) (auto intro!: shrinks_moves_on shrinks_finish simp: on_attempt_def into_parts_def split: prod.split)

lemma step_moves_on: "driver_step W d d' \<Longrightarrow> moves_on d d'"
proof (induction rule: driver_step.induct)
  case (heartbeat d hb sw)
  obtain k p where "snd (on_heartbeat W d) = d\<lparr>d_write := k, d_phase := p\<rparr>" using on_heartbeat_frame by blast
  then show ?case by (intro shrinks_moves_on shrinks_step_on) simp_all
next
  case (sweep d hb sw)
  have "shrinks d (snd (on_sweep d)) \<and> d_next_jobid (snd (on_sweep d)) = d_next_jobid d"
    using shrinks_trans [OF _ shrinks_sweep, of d] by (cases rule: on_sweep_cases [of d]) simp_all
  then show ?case by (intro shrinks_moves_on shrinks_step_on) simp_all
next
  case (submit d c)
  then show ?case by (auto simp: moves_on_def)
next
  case (command_asleep d b until c d')
  then show ?case by (intro shrinks_moves_on) (simp_all add: shrinks_while_down)
next
  case (command_attempting d b c d')
  then show ?case by (intro shrinks_moves_on) (simp_all add: shrinks_while_down)
next
  case (command d hb sw c d')
  then show ?case by (intro command_moves_on)
next
  case (message d hb sw)
  show ?case by (rule poll_read_moves_on)
next
  case (attempted d b C outcome)
  show ?case by (rule on_attempt_moves_on)
next
  case (closed d result until)
  show ?case by (intro shrinks_moves_on shrinks_publish_end) simp
next
  case (close_expired d result until)
  show ?case by (intro shrinks_moves_on shrinks_publish_end) simp
qed (auto simp: moves_on_def)

interpretation call: simulation "driver_start W" "driver_step W" driver_inv "view ch" call_step for W ch
proof
  fix d d' assume "driver_inv d" "driver_step W d d'"
  then show "call_step (view ch d) (view ch d')"
    using moves_on_view [OF step_moves_on] book_step by (auto simp: driver_inv_def)
qed

section \<open>The life of a request in flight\<close>

text \<open>How many requests have to be sent before a job id is used again.\<close>

definition job_distance :: "u64 \<Rightarrow> u64 \<Rightarrow> nat" where
  "job_distance a j = (if a \<le> j then unat j - unat a else unat j + (2 ^ 64 - 1) - unat a)"

lemma unat_next_job: "a \<noteq> u64_max \<Longrightarrow> unat (next_job a) = Suc (unat a)" "next_job u64_max = 1"
proof -
  assume "a \<noteq> u64_max"
  then have "a + 1 \<noteq> 0" by (metis add.right_inverse add_diff_cancel_right' diff_0)
  with \<open>a \<noteq> u64_max\<close> show "unat (next_job a) = Suc (unat a)" by (simp add: next_job_def unatSuc [of a] add.commute)
qed (simp add: next_job_def)

lemma unat_u64: "unat (u64_max :: u64) = 2 ^ 64 - 1" "unat (j :: u64) \<le> 2 ^ 64 - 1"
  using unsigned_less [of j, where ?'a = nat] by (simp_all add: unsigned_minus_1_eq_mask mask_eq_exp_minus_1)

lemma unat_pos: "(j :: u64) \<noteq> 0 \<Longrightarrow> 0 < unat j"
  by (simp add: unat_gt_0)

lemma job_distance_step:
  assumes "a \<noteq> 0" "j \<noteq> 0"
  shows "job_distance a j \<le> Suc (job_distance (next_job a) j)"
proof (cases "a = u64_max")
  case True
  then show ?thesis using unat_u64(2) [of j] unat_pos [OF assms(2)] unat_u64(1)
    by (simp add: job_distance_def unat_next_job word_le_nat_alt)
next
  case False
  then show ?thesis using unat_u64(2) [of j] unat_u64(2) [of a] unat_next_job(1) [OF False]
    by (auto simp: job_distance_def word_le_nat_alt)
qed

lemma job_distance_fresh: "j \<noteq> 0 \<Longrightarrow> job_distance (next_job j) j = 2 ^ 64 - 2"
  using unat_next_job(1) [of j] unat_next_job(2) unat_u64(1) by (cases "j = u64_max") (simp_all add: job_distance_def word_le_nat_alt)

text \<open>What a run of the abstract machine can make of a request in flight.\<close>

definition flight_outcome :: "nat \<Rightarrow> u64 \<Rightarrow> millis \<Rightarrow> call_view \<Rightarrow> bool" where
  "flight_outcome n j deadline v =
     (case cv_status v of
        InFlight j' deadline' \<Rightarrow> j' = j \<and> deadline' = deadline
      | Settled a \<Rightarrow> settles (cv_now v) (cv_closed v) j deadline a \<or> a = Dropped \<and> 2 ^ 64 - 1 \<le> n
      | _ \<Rightarrow> False)"

lemma settles_later:
  "settles now closed j deadline a \<Longrightarrow> now \<le> now' \<Longrightarrow> (closed \<longrightarrow> closed') \<Longrightarrow> settles now' closed' j deadline a"
  by (auto simp: settles_def split: answer.splits sum.splits)

lemma flight_invariant:
  assumes "(call_step ^^ n) v v'" "cv_status v = InFlight j deadline" "j \<noteq> 0" "cv_next_jobid v = next_job j"
  shows "flight_outcome n j deadline v' \<and> cv_next_jobid v' \<noteq> 0 \<and> 2 ^ 64 - 2 \<le> n + job_distance (cv_next_jobid v') j"
  using assms(1)
proof (induction n arbitrary: v')
  case 0
  with assms(2-) show ?case by (simp add: flight_outcome_def next_job_nonzero job_distance_fresh)
next
  case (Suc n)
  then obtain u where u: "(call_step ^^ n) v u" "call_step u v'" by auto
  note IH = Suc.IH [OF u(1)]
  have jid: "cv_next_jobid v' \<in> {cv_next_jobid u, next_job (cv_next_jobid u)}" and later: "cv_now u \<le> cv_now v'"
    "cv_closed u \<longrightarrow> cv_closed v'" and moves: "call_moves u (cv_status v')"
    using u(2) by (simp_all add: call_step_def)
  have "job_distance (cv_next_jobid u) j \<le> Suc (job_distance (cv_next_jobid v') j)"
    using jid IH job_distance_step [OF _ assms(3), of "cv_next_jobid u"] by auto
  moreover have "cv_next_jobid v' \<noteq> 0" using jid IH by (auto simp: next_job_nonzero)
  moreover have "flight_outcome (Suc n) j deadline v'"
    using moves IH settles_later [OF _ later] by (auto simp: flight_outcome_def call_moves_iff job_distance_def split: call_status.splits)
  ultimately show ?case using IH by simp
qed

section \<open>No request outlives its deadline\<close>

text \<open>The timers of a phase are never set further ahead than their interval.\<close>

definition timers_inv :: "driver \<Rightarrow> bool" where
  "timers_inv d =
     (case d_phase d of
        Connected _ sw \<Rightarrow> sw \<le> d_now d + PENDING_SWEEP_INTERVAL
      | Sleeping b u \<Rightarrow> u \<le> d_now d + b
      | Closing _ u \<Rightarrow> u \<le> d_now d + CLOSE_TIMEOUT
      | _ \<Rightarrow> True)"

lemma timers_kept: "d_phase d' = d_phase d \<Longrightarrow> d_now d' = d_now d \<Longrightarrow> timers_inv d' = timers_inv d"
  by (cases "d_phase d") (simp_all add: timers_inv_def)

lemma timers_update [simp]:
  "timers_inv (d\<lparr>d_read := rd\<rparr>) = timers_inv d" "timers_inv (d\<lparr>d_inbox := ms\<rparr>) = timers_inv d"
  "timers_inv (d\<lparr>d_liveness := l\<rparr>) = timers_inv d" "timers_inv (d\<lparr>d_answers := as\<rparr>) = timers_inv d"
  "timers_inv (d\<lparr>d_closed := cs\<rparr>) = timers_inv d" "timers_inv (d\<lparr>d_handles := h\<rparr>) = timers_inv d"
  "timers_inv (d\<lparr>d_commands := c\<rparr>) = timers_inv d" "timers_inv (d\<lparr>d_next_channel := n\<rparr>) = timers_inv d"
  "timers_inv (dispatch d m) = timers_inv d"
  by (rule timers_kept; simp)+

lemma timers_finish [simp]: "timers_inv (finish result d)"
  by (simp add: timers_inv_def)

lemma timers_publish_end [simp]: "timers_inv (publish_end result d)"
  by (simp add: timers_inv_def)

lemma timers_after_exit: "timers_inv (after_exit x d)"
  by (cases x) (simp_all add: after_exit_def Let_def timers_inv_def [of "_\<lparr>d_state := _, d_phase := _\<rparr>"] fail_all_pending_def)

lemma timers_step_on: "(fst r = None \<Longrightarrow> timers_inv (snd r)) \<Longrightarrow> timers_inv (step_on r)"
  using timers_after_exit by (cases r; cases "fst r") (auto simp: step_on_def)

lemma on_command_now: "d_now (snd (on_command W d c)) = d_now d"
proof (cases "(W, d, c)" rule: on_command.cases)
  case (2 _ _ emsg body ack)
  obtain r d1 where s: "send_frame W d emsg None body = (r, d1)" by fastforce
  with 2 send_frame_frame [OF s] show ?thesis by auto
next
  case (3 _ _ ack)
  obtain r d1 where s: "send_frame W d EMSG_CLIENT_LOGOFF None [] = (r, d1)" by fastforce
  with 3 send_frame_frame [OF s] show ?thesis by auto
next
  case (4 _ _ emsg body deadline reply)
  let ?d = "d\<lparr>d_next_jobid := next_job (d_next_jobid d)\<rparr>"
  obtain r d1 where s: "send_frame W ?d emsg (Some (d_next_jobid d)) body = (r, d1)" by fastforce
  with 4 send_frame_frame [OF s] show ?thesis by (auto simp: Let_def split: sum.split option.split prod.split)
qed auto

lemma timers_while_down:
  assumes "recv_command d = Some (c, d')" "timers_inv d"
  shows "timers_inv (command_while_down c d')"
proof -
  have d': "timers_inv d'"
    using assms(2) timers_kept [OF recv_command_keeps(1) [OF assms(1)]] shrinks_recv [OF assms(1)] by (simp add: shrinks_def)
  obtain stop d1 where a: "answer_while_down c d' = (stop, d1)" by fastforce
  with answer_while_down_keeps [of c d'] obtain as where "d1 = d'\<lparr>d_answers := as\<rparr>" by auto
  with d' show ?thesis by (cases stop) (simp_all add: command_while_down_def a)
qed

lemma timers_poll:
  assumes "timers_inv d" shows "timers_inv (poll_read W d)"
proof -
  obtain p rd inbox live where r: "read_message W (read_now d) (d_inbox d) (d_liveness d) = (p, rd, inbox, live)"
    by (metis prod_cases4)
  let ?d = "d\<lparr>d_read := rd, d_inbox := inbox, d_liveness := live\<rparr>"
  have "timers_inv (snd (on_message W ?d x))" for x
    using assms by (cases x) (simp_all add: on_message_def)
  moreover have "timers_inv ?d" using assms by simp
  ultimately show ?thesis by (cases p) (auto simp: poll_read_def r intro: timers_step_on)
qed

lemma timers_step: "driver_step W d d' \<Longrightarrow> timers_inv d \<Longrightarrow> timers_inv d'"
proof (induction rule: driver_step.induct)
  case (command d hb sw c d')
  have "timers_inv (snd (on_command W d' c))"
    using command recv_command_keeps(1) [OF command(2)] shrinks_recv [OF command(2)]
    by (simp add: timers_inv_def on_command_keeps on_command_now shrinks_def)
  then show ?case by (rule timers_step_on)
next
  case (heartbeat d hb sw)
  obtain k p where h: "snd (on_heartbeat W d) = d\<lparr>d_write := k, d_phase := p\<rparr>"
    "p = d_phase d \<or> (\<exists>hb sw. d_phase d = Connected hb sw \<and> p = Connected (d_now d + d_heartbeat d) sw)"
    using on_heartbeat_frame by blast
  then have "timers_inv (snd (on_heartbeat W d))" using heartbeat by (auto simp: timers_inv_def)
  then show ?case by (rule timers_step_on)
next
  case (sweep d hb sw)
  have "d_now (sweep_pending x) = d_now x" for x using shrinks_sweep [of x] by (simp add: shrinks_def)
  then have "timers_inv (snd (on_sweep d))"
    using sweep by (cases rule: on_sweep_cases [of d]) (auto simp: timers_inv_def)
  then show ?case by (rule timers_step_on)
next
  case (attempted d b C outcome)
  then show ?case
    by (cases outcome) (auto simp: on_attempt_def timers_inv_def [of "_\<lparr>d_phase := _\<rparr>"], simp add: timers_inv_def enter_connected_def split: prod.split)
next
  case (time d t)
  then show ?case by (auto simp: timers_inv_def split: phase.splits)
next
  case (wake d b until)
  show ?case by (simp add: timers_inv_def)
qed (simp_all add: timers_poll timers_while_down)

lemma timers_start: "driver_start W d \<Longrightarrow> timers_inv d"
  by (auto simp: driver_start_def spawn_session_def spawn_driver_def into_parts_def and_then_Inr_iff
      timers_inv_def enter_connected_def)

interpretation timers: invariant "driver_start W" "driver_step W" timers_inv for W
  by unfold_locales (auto intro: timers_start timers_step)

lemma swept_pending: "(j, p) \<in> set (d_pending (step_on (on_sweep d))) \<Longrightarrow> d_now d < pd_deadline p"
  by (cases rule: on_sweep_cases [of d])
    (auto simp: step_on_def after_exit_def Let_def sweep_pending_def sweep_entry_def split: if_splits)

text \<open>C6: a request in flight is released at the latest by the first sweep after its deadline: the next sweep
  is at most a second away, and one that runs at or after the deadline leaves the request settled,
  whether it sweeps the table or finds the connection dead.\<close>

theorem request_released:
  assumes "reachable (driver_start W) (driver_step W) d" "d_phase d = Connected hb sw" "call_status d ch = InFlight j deadline"
  shows "sw \<le> d_now d + 1000 \<and>
    (\<forall>t. d_now d \<le> t \<and> sw \<le> t \<and> deadline \<le> t \<longrightarrow>
       (let due = d\<lparr>d_now := t\<rparr>; swept = step_on (on_sweep due) in
          driver_step W d due \<and> driver_step W due swept \<and> (\<exists>a. call_status swept ch = Settled a)))"
proof (intro conjI allI impI; (elim conjE)?)
  show "sw \<le> d_now d + 1000"
    using timers.inv_reachable [OF assms(1)] assms(2) by (simp add: timers_inv_def PENDING_SWEEP_INTERVAL_def)
next
  fix t assume t: "d_now d \<le> t" "sw \<le> t" "deadline \<le> t"
  let ?due = "d\<lparr>d_now := t\<rparr>"
  have step: "driver_step W d ?due" "driver_step W ?due (step_on (on_sweep ?due))"
    using t assms(2) by (auto intro: driver_step.time driver_step.sweep)
  have inv: "book_inv ?due" "book_inv (step_on (on_sweep ?due))"
    using reachable_inv [OF assms(1)] book_step [OF step(1)] book_step [OF step(2)] by blast+
  have due: "call_status ?due ch = InFlight j deadline"
    using assms(3) by (simp add: call_status_def cong: option.case_cong)
  have "call_status (step_on (on_sweep ?due)) ch \<noteq> InFlight j deadline"
  proof
    assume "call_status (step_on (on_sweep ?due)) ch = InFlight j deadline"
    then obtain p where "(j, p) \<in> set (d_pending (step_on (on_sweep ?due)))" "pd_deadline p = deadline"
      by - (rule status_cases [OF inv(2), of ch], auto)
    with swept_pending t(3) show False by fastforce
  qed
  then have "\<exists>a. call_status (step_on (on_sweep ?due)) ch = Settled a"
    using status_after [OF step_moves_on [OF step(2)] inv, of ch] due by auto
  with step show "let due = ?due; swept = step_on (on_sweep due) in
      driver_step W d due \<and> driver_step W due swept \<and> (\<exists>a. call_status swept ch = Settled a)"
    by (simp add: Let_def)
qed

section \<open>What a caller can rely on\<close>

text \<open>C2: every run of the driver, seen from one channel, is a run of the abstract machine: whatever the
  interleaving of commands, frames, timers, disconnects and reconnects, a call goes from the queue
  to the table to its one answer, never back, and ends only in the ways the machine allows.\<close>

theorem call_refined:
  assumes "reachable (driver_start W) (driver_step W) d" "(driver_step W ^^ n) d d'"
  shows "(call_step ^^ n) (view ch d) (view ch d')"
  by (rule call.run_simulates [OF session.inv_reachable [OF assms(1)] assms(2)])

lemma flight_of_request:
  assumes "reachable (driver_start W) (driver_step W) d" "recv_command d = Some (Some (Request emsg body deadline ch), d1)"
    and "on_command W d1 (Some (Request emsg body deadline ch)) = (None, d2)" "d_phase d = Connected hb sw"
  shows "driver_inv d2" "call_status d2 ch = InFlight (d_next_jobid d) deadline"
    "d_next_jobid d2 = next_job (d_next_jobid d)" "d_next_jobid d \<noteq> 0"
proof -
  note inv = session.inv_reachable [OF assms(1), unfolded driver_inv_def]
  have "keys_distinct (d_pending d1)" using inv recv_command_keeps [OF assms(2)] by (simp add: book_inv_def)
  note f = request_in_flight [OF assms(3) this]
  have d2: "d2 = step_on (on_command W d1 (Some (Request emsg body deadline ch)))" unfolding assms(3) by (simp add: step_on_def)
  have "driver_step W d d2" unfolding d2 by (rule driver_step.command [OF assms(4, 2)])
  then show "driver_inv d2" using session.inv_next [of d W d2] inv by (simp add: driver_inv_def)
  then have "book_inv d2" by (simp add: driver_inv_def)
  show "d_next_jobid d2 = next_job (d_next_jobid d)" "d_next_jobid d \<noteq> 0"
    using f(4) recv_command_keeps [OF assms(2)] inv by (simp_all add: job_inv_def)
  have "(d_next_jobid d, \<lparr>pd_reply = ch, pd_deadline = deadline\<rparr>) \<in> set (d_pending d2)"
    using f(2) recv_command_keeps [OF assms(2)] by (intro map_of_SomeD) simp
  from status_in_flight [OF \<open>book_inv d2\<close> this] show "call_status d2 ch = InFlight (d_next_jobid d) deadline" by simp
qed

text \<open>C4: a request that was written has, in whatever follows, one of these fates: it waits under its own
  job id; it is answered by a message whose header targets that id; it times out, at its deadline or
  later; its session is lost or stopped; its caller is gone.  That another request takes its id,
  because the 64-bit counter came round, takes at least as many steps as there are ids.\<close>

theorem request_fate:
  assumes "reachable (driver_start W) (driver_step W) d" "recv_command d = Some (Some (Request emsg body deadline ch), d1)"
    and "on_command W d1 (Some (Request emsg body deadline ch)) = (None, d2)" "d_phase d = Connected hb sw" "(driver_step W ^^ n) d2 d'"
  shows "case call_status d' ch of
      InFlight j t \<Rightarrow> j = d_next_jobid d \<and> t = deadline
    | Settled (Reply (Inr m)) \<Rightarrow> hdr_jobid_target (sm_header m) = Some (d_next_jobid d)
    | Settled (Reply (Inl e)) \<Rightarrow>
        e = WebSocket ''session reconnecting'' \<or> e = WebSocket ''session driver stopped'' \<or>
        e = Timeout ''steam request'' \<and> deadline \<le> d_now d'
    | Settled Abandoned \<Rightarrow> ch \<in> set (d_closed d')
    | Settled Dropped \<Rightarrow> 2 ^ 64 - 1 \<le> n
    | _ \<Rightarrow> False"
proof -
  note f = flight_of_request [OF assms(1-4)]
  have "flight_outcome n (d_next_jobid d) deadline (view ch d')"
    using flight_invariant [OF call.run_simulates [OF f(1) assms(5)]] f(2-) by (simp add: view_def)
  then show ?thesis by (auto simp: flight_outcome_def settles_def view_def split: call_status.splits answer.splits sum.splits)
qed

text \<open>C5: a caller gets its own answer.  When \<^verbatim>\<open>request\<close> returns a value, the driver has received a message
  whose header targets the job id the request was sent with and carries no failure, and the value is
  the decoded body of that message.\<close>

theorem request_gets_own_reply:
  assumes "reachable (driver_start W) (driver_step W) d" "recv_command d = Some (Some (Request emsg body deadline (h_next h)), d1)"
    and "on_command W d1 (Some (Request emsg body deadline (h_next h))) = (None, d2)" "d_phase d = Connected hb sw" "(driver_step W ^^ n) d2 d'"
    and "fst (request (session_env d0 look rx d') h emsg body dec) = Inr r"
  shows "\<exists>m. (h_next h, Reply (Inr m)) \<in> set (d_answers d') \<and> hdr_jobid_target (sm_header m) = Some (d_next_jobid d) \<and>
    hdr_eresult (sm_header m) \<in> {None, Some OK} \<and> dec (sm_body m) = Inr r"
proof -
  obtain m where m: "replied (session_env d0 look rx d') h DEFAULT_REQUEST_TIMEOUT m" "judge_reply True dec m = Inr r"
    using plain_request.op_ok_iff [THEN iffD1, OF assms(6)] by blast
  then have a: "(h_next h, Reply (Inr m)) \<in> set (d_answers d')"
    by (auto simp: replied_def session_env_def dest: map_of_SomeD)
  note f = flight_of_request [OF assms(1-4)]
  have "book_inv d'" using call.run_inv [OF f(1) assms(5)] by (simp add: driver_inv_def)
  then have "call_status d' (h_next h) = Settled (Reply (Inr m))" using a by (rule status_settled)
  moreover have "flight_outcome n (d_next_jobid d) deadline (view (h_next h) d')"
    using flight_invariant [OF call.run_simulates [OF f(1) assms(5)]] f(2-) by (simp add: view_def)
  ultimately have "hdr_jobid_target (sm_header m) = Some (d_next_jobid d)"
    by (simp add: flight_outcome_def view_def settles_def)
  with a m(2) show ?thesis by (auto simp: judge_reply_ok_iff)
qed

section \<open>Witnesses\<close>

text \<open>A session that is asked something, sends it as job 1 and receives the reply.\<close>

definition asking_driver :: driver where
  "asking_driver = sample_driver\<lparr>d_commands := [Request 146 [] 30009 0], d_next_channel := 1\<rparr>"

definition asked_driver :: driver where
  "asked_driver =
     snd (on_command sample_wire (asking_driver\<lparr>d_commands := []\<rparr>) (Some (Request 146 [] 30009 0)))"

definition replied_driver :: driver where
  "replied_driver =
     poll_read sample_wire (asked_driver\<lparr>d_read := d_read asked_driver @ [(d_now asked_driver, WsItem (WsBinary (frame 147 [1] [7])))]\<rparr>)"

lemma asking_reachable: "reachable (driver_start sample_wire) (driver_step sample_wire) asking_driver"
  using submit [of sample_driver "Request 146 [] 30009 0" sample_wire] sample_reachable
  by (auto simp: asking_driver_def live_phase_def COMMAND_CAPACITY_def intro: reach_step)

lemma asking_recv: "recv_command asking_driver = Some (Some (Request 146 [] 30009 0), asking_driver\<lparr>d_commands := []\<rparr>)"
  by (simp add: asking_driver_def recv_command_def)

lemma asking_simps: "d_next_jobid asking_driver = 1" "d_phase asking_driver = Connected 9009 1009"
  by (simp_all add: asking_driver_def)

lemma asked_simps:
  "on_command sample_wire (asking_driver\<lparr>d_commands := []\<rparr>) (Some (Request 146 [] 30009 0)) = (None, asked_driver)"
  "d_pending asked_driver = [(1, \<lparr>pd_reply = 0, pd_deadline = 30009\<rparr>)]" "d_read asked_driver = []"
  "d_now asked_driver = 9" "d_inbox asked_driver = []" "d_phase asked_driver = Connected 9009 1009"
  "d_answers asked_driver = []" "d_next_channel asked_driver = 1"
  by (simp_all add: asked_driver_def asking_driver_def send_frame_def write_frame_def sink_send_def sample_sink_def
      insert_pending_def Let_def)
    (simp add: sample_driver_def spawn_driver_def sample_session_def into_parts_def sample_conn_def enter_connected_def)

lemma reply_decoded:
  "try_decode (w_dec_header sample_wire) (frame 147 [1] [7]) =
     Inr (Some \<lparr>sm_emsg = 147, sm_header = default_header\<lparr>hdr_jobid_target := Some 1\<rparr>, sm_body = [7]\<rparr>)"
  using try_decode_frame [where hb = "[1]" and dec = "w_dec_header sample_wire" and m = 147]
  by (simp add: EMSG_MASK_def PROTO_MASK_def)

lemma replied_simps:
  "d_answers replied_driver =
     [(0, Reply (Inr \<lparr>sm_emsg = 147, sm_header = default_header\<lparr>hdr_jobid_target := Some 1\<rparr>, sm_body = [7]\<rparr>))]"
  "d_now replied_driver = 9" "d_next_channel replied_driver = 1"
  by (simp_all add: replied_driver_def poll_read_def read_now_def asked_simps read_message.simps [of _ _ "[]"] reply_decoded
      step_on_def on_message_def dispatch_def take_pending_def tell_def Let_def)

lemma replied_run: "(driver_step sample_wire ^^ 2) asked_driver replied_driver"
proof -
  let ?d = "asked_driver\<lparr>d_read := d_read asked_driver @ [(d_now asked_driver, WsItem (WsBinary (frame 147 [1] [7])))]\<rparr>"
  have "driver_step sample_wire asked_driver ?d" by (rule arrive) (simp add: asked_simps)
  moreover have "driver_step sample_wire ?d replied_driver"
    unfolding replied_driver_def by (rule message) (simp add: asked_simps)
  ultimately show ?thesis by (auto simp: numeral_2_eq_2)
qed

lemma asked_step: "driver_step sample_wire asking_driver asked_driver"
  using driver_step.command [OF asking_simps(2) asking_recv, of sample_wire] unfolding asked_simps(1) step_on_def by simp

lemma asked_reachable: "reachable (driver_start sample_wire) (driver_step sample_wire) asked_driver"
  using asking_reachable asked_step by (rule reach_step)

theorem call_refined_witness:
  "(call_step ^^ 2) (view 0 asked_driver) (view 0 replied_driver) \<and>
   cv_status (view 0 asked_driver) = InFlight 1 30009 \<and> (\<exists>m. cv_status (view 0 replied_driver) = Settled (Reply (Inr m)))"
  using call_refined [OF asked_reachable replied_run, of 0]
  by (simp add: view_def call_status_def asked_simps replied_simps)

theorem request_released_witness:
  "\<exists>a. call_status (step_on (on_sweep (asked_driver\<lparr>d_now := 30009\<rparr>))) 0 = Settled a"
proof -
  have "call_status asked_driver 0 = InFlight 1 30009" by (simp add: call_status_def asked_simps)
  from request_released [OF asked_reachable asked_simps(6) this] show ?thesis by (simp add: asked_simps Let_def)
qed

theorem request_fate_witness:
  "call_status replied_driver 0 =
     Settled (Reply (Inr \<lparr>sm_emsg = 147, sm_header = default_header\<lparr>hdr_jobid_target := Some 1\<rparr>, sm_body = [7]\<rparr>)) \<and>
   d_next_jobid asking_driver = 1"
  using request_fate [OF asking_reachable asking_recv asked_simps(1) asking_simps(2) replied_run]
  by (simp add: call_status_def replied_simps asking_simps)

theorem request_gets_own_reply_witness:
  "fst (request (session_env sample_driver (\<lambda>_. sample_driver) (\<lambda>_. []) replied_driver)
     \<lparr>h_steam_id = 7, h_now = 9, h_sent = [], h_next = 0, h_looks = 0\<rparr> 146 [] Inr) = Inr [7] \<and>
   (\<exists>m. (0, Reply (Inr m)) \<in> set (d_answers replied_driver) \<and> hdr_jobid_target (sm_header m) = Some 1 \<and> sm_body m = [7])"
proof -
  let ?h = "\<lparr>h_steam_id = 7, h_now = 9, h_sent = [], h_next = 0, h_looks = 0\<rparr> :: handle"
  have r: "fst (request (session_env sample_driver (\<lambda>_. sample_driver) (\<lambda>_. []) replied_driver) ?h 146 [] Inr) = Inr [7]"
    by (simp add: plain_request.op_ok_iff replied_def session_env_def replied_simps judge_reply_ok_iff default_header_def)
  have "recv_command asking_driver = Some (Some (Request 146 [] 30009 (h_next ?h)), asking_driver\<lparr>d_commands := []\<rparr>)"
    "on_command sample_wire (asking_driver\<lparr>d_commands := []\<rparr>) (Some (Request 146 [] 30009 (h_next ?h))) = (None, asked_driver)"
    using asking_recv asked_simps(1) by (simp_all del: on_command.simps)
  from request_gets_own_reply [OF asking_reachable this asking_simps(2) replied_run r] r
  show ?thesis by (auto simp: asking_simps)
qed

end
