(* ===== verification/Gc_Envelope.thy ===== *)
theory Gc_Envelope
  imports Codec
begin

text \<open>
  The relay envelope of \<^verbatim>\<open>src/gc/envelope.rs\<close> and the message numbers of \<^verbatim>\<open>src/gc/mod.rs\<close>: a game
  coordinator's message is framed by the codec with the coordinator's own header and nested in a
  \<^verbatim>\<open>CMsgGcClient\<close>.  The encoders and decoders of the generated types are arguments.
\<close>

definition EMSG_CLIENT_TO_GC :: u32 where [emsg_defs]: "EMSG_CLIENT_TO_GC = 5452"
definition EMSG_CLIENT_FROM_GC :: u32 where [emsg_defs]: "EMSG_CLIENT_FROM_GC = 5453"
definition GC_CLIENT_WELCOME :: u32 where "GC_CLIENT_WELCOME = 4004"
definition GC_CLIENT_HELLO :: u32 where "GC_CLIENT_HELLO = 4006"
definition GC_CLIENT_CONNECTION_STATUS :: u32 where "GC_CLIENT_CONNECTION_STATUS = 4009"

record gc_header =
  gh_job_id_target :: "u64 option"

definition default_gc_header :: gc_header where
  "default_gc_header = \<lparr>gh_job_id_target = None\<rparr>"

record cmsg_gc_client =
  gc_appid :: "u32 option"
  gc_msgtype :: "u32 option"
  gc_payload :: "bytes option"

record gc_message =
  gm_appid :: u32
  gm_msgtype :: u32
  gm_header :: gc_header
  gm_body :: bytes

definition jobid_target :: "gc_message \<Rightarrow> u64 option" where
  "jobid_target m = opt_filter (\<lambda>j. j \<noteq> 0 \<and> j \<noteq> u64_max) (gh_job_id_target (gm_header m))"

definition wrap :: "(gc_header \<Rightarrow> bytes) \<Rightarrow> u32 \<Rightarrow> u32 \<Rightarrow> gc_header \<Rightarrow> bytes \<Rightarrow> cmsg_gc_client" where
  "wrap enc_header appid msgtype header body =
     (let payload = encode_raw enc_header msgtype header body
      in \<lparr>gc_appid = Some appid, gc_msgtype = Some (msgtype OR PROTO_MASK), gc_payload = Some payload\<rparr>)"

definition unwrap ::
    "(bytes \<Rightarrow> string + cmsg_gc_client) \<Rightarrow> (bytes \<Rightarrow> string + gc_header) \<Rightarrow> steam_message \<Rightarrow>
     gc_message option result" where
  "unwrap dec_client dec_header msg =
     and_then (map_err (\<lambda>e. Codec (''decode CMsgGCClient: '' @ e)) (dec_client (sm_body msg))) (\<lambda>c.
       let appid = unwrap_or 0 (gc_appid c); payload = unwrap_or [] (gc_payload c) in
       and_then (unframe payload) (\<lambda>parts.
         case parts of
           None \<Rightarrow> Inr None
         | Some p \<Rightarrow>
             and_then (map_err (\<lambda>e. Codec (''decode GC header: '' @ e)) (dec_header (fp_header p)))
               (\<lambda>header. Inr (Some \<lparr>gm_appid = appid, gm_msgtype = fp_msg_type p, gm_header = header,
                                     gm_body = fp_body p\<rparr>))))"

section \<open>The envelope through the framing contract\<close>

lemma unwrap_via:
  assumes "dec_client (sm_body msg) = Inr c"
  shows "unwrap dec_client dec_header msg =
    cm_frame.decode_via dec_header (\<lambda>e. ''decode GC header: '' @ e)
      (\<lambda>m h b. \<lparr>gm_appid = unwrap_or 0 (gc_appid c), gm_msgtype = m, gm_header = h, gm_body = b\<rparr>)
      (unwrap_or [] (gc_payload c))"
  by (simp only: unwrap_def assms map_err_simps and_then_simps Let_def cm_frame.decode_via_def)

lemma unwrap_Codec:
  assumes "unwrap dec_client dec_header msg = Inl e"
  shows "\<exists>t. e = Codec t"
proof (cases "dec_client (sm_body msg)")
  case (Inr c)
  from assms show ?thesis
    unfolding unwrap_via [where dec_client = dec_client and msg = msg, OF Inr] by (rule cm_frame.decode_via_Codec)
next
  case (Inl t)
  with assms show ?thesis by (auto simp: unwrap_def)
qed

lemma unwrap_SomeD:
  assumes "unwrap dec_client dec_header msg = Inr (Some m)"
  shows "\<exists>c hb. dec_client (sm_body msg) = Inr c \<and> gc_payload c = Some (frame (gm_msgtype m) hb (gm_body m)) \<and>
    dec_header hb = Inr (gm_header m) \<and> gm_appid m = unwrap_or 0 (gc_appid c)"
proof -
  obtain c where c: "dec_client (sm_body msg) = Inr c"
    using assms by (cases "dec_client (sm_body msg)") (auto simp: unwrap_def)
  from assms [unfolded unwrap_via [where dec_client = dec_client and msg = msg, OF c], THEN cm_frame.decode_via_SomeD]
  obtain t hb h b where "unwrap_or [] (gc_payload c) = frame t hb b" "dec_header hb = Inr h"
    "m = \<lparr>gm_appid = unwrap_or 0 (gc_appid c), gm_msgtype = t, gm_header = h, gm_body = b\<rparr>" by blast
  moreover from this(1) have "gc_payload c = Some (frame t hb b)"
    using length_frame [of t hb b] by (cases "gc_payload c") auto
  ultimately show ?thesis using c by auto
qed

text \<open>unwrapping what was wrapped returns the application, the header, the body and the message
  type without the protobuf bit, for a relay and a header that prost reads back; and whatever
  unwraps to a message is the wrapping of that message's parts.\<close>

theorem unwrap_wrap:
  assumes "\<And>c. dec_client (enc_client c) = Inr c" "dec_header (enc_header header) = Inr header"
    and "length (enc_header header) < 2 ^ 32" "sm_body msg = enc_client (wrap enc_header appid msgtype header body)"
  shows "unwrap dec_client dec_header msg =
      Inr (Some \<lparr>gm_appid = appid, gm_msgtype = msgtype AND EMSG_MASK, gm_header = header, gm_body = body\<rparr>) \<and>
    (\<forall>msg' m. unwrap dec_client dec_header msg' = Inr (Some m) \<longrightarrow>
      (\<exists>c hb. dec_client (sm_body msg') = Inr c \<and> gc_payload c = Some (frame (gm_msgtype m) hb (gm_body m)) \<and>
         dec_header hb = Inr (gm_header m) \<and> gm_appid m = unwrap_or 0 (gc_appid c)))"
proof (intro conjI allI impI)
  have "dec_client (sm_body msg) = Inr (wrap enc_header appid msgtype header body)"
    using assms(1,4) by simp
  from unwrap_via [where dec_client = dec_client and msg = msg, OF this, of dec_header]
  show "unwrap dec_client dec_header msg =
      Inr (Some \<lparr>gm_appid = appid, gm_msgtype = msgtype AND EMSG_MASK, gm_header = header, gm_body = body\<rparr>)"
    using assms(2,3) by (simp add: wrap_def Let_def encode_raw_frame cm_frame.decode_via_frm)
qed (rule unwrap_SomeD)

definition sample_gc_enc :: "gc_header \<Rightarrow> bytes" where
  "sample_gc_enc h = (case gh_job_id_target h of None \<Rightarrow> [] | Some j \<Rightarrow> u32_to_le (ucast j))"

definition sample_gc_dec :: "bytes \<Rightarrow> string + gc_header" where
  "sample_gc_dec b = Inr \<lparr>gh_job_id_target = (if b = [] then None else Some (ucast (u32_from_le b)))\<rparr>"

text \<open>A relay codec for three present fields: two words, then the payload.\<close>

definition sample_relay_enc :: "cmsg_gc_client \<Rightarrow> bytes" where
  "sample_relay_enc c =
     (let field = (\<lambda>v. case v of None \<Rightarrow> [0] | Some w \<Rightarrow> 1 # u32_to_le w)
      in field (gc_appid c) @ field (gc_msgtype c) @
         (case gc_payload c of None \<Rightarrow> [] | Some p \<Rightarrow> 1 # p))"

definition sample_field_dec :: "bytes \<Rightarrow> u32 option \<times> bytes" where
  "sample_field_dec b = (if hd b = 0 then (None, tl b) else (Some (u32_from_le (take 4 (tl b))), drop 4 (tl b)))"

definition sample_relay_dec :: "bytes \<Rightarrow> string + cmsg_gc_client" where
  "sample_relay_dec b =
     (case sample_field_dec b of (appid, b1) \<Rightarrow> case sample_field_dec b1 of (msgtype, b2) \<Rightarrow>
        Inr \<lparr>gc_appid = appid, gc_msgtype = msgtype,
             gc_payload = (case b2 of [] \<Rightarrow> None | _ # p \<Rightarrow> Some p)\<rparr>)"

lemma sample_relay: "sample_relay_dec (sample_relay_enc c) = Inr c"
  by (cases c)
    (auto simp: sample_relay_dec_def sample_relay_enc_def sample_field_dec_def Let_def split: option.split)

theorem unwrap_wrap_witness:
  "unwrap sample_relay_dec sample_gc_dec
     \<lparr>sm_emsg = 5453, sm_header = default_header,
      sm_body = sample_relay_enc (wrap sample_gc_enc 730 9128 \<lparr>gh_job_id_target = Some 7\<rparr> [1, 2])\<rparr> =
   Inr (Some \<lparr>gm_appid = 730, gm_msgtype = 9128 AND EMSG_MASK, gm_header = \<lparr>gh_job_id_target = Some 7\<rparr>,
              gm_body = [1, 2]\<rparr>)"
  using unwrap_wrap [of sample_relay_dec sample_relay_enc sample_gc_dec sample_gc_enc "\<lparr>gh_job_id_target = Some 7\<rparr>"
      "\<lparr>sm_emsg = 5453, sm_header = default_header,
        sm_body = sample_relay_enc (wrap sample_gc_enc 730 9128 \<lparr>gh_job_id_target = Some 7\<rparr> [1, 2])\<rparr>" 730 9128 "[1, 2]"]
  by (simp add: sample_relay sample_gc_enc_def sample_gc_dec_def u32_to_le_def)

end
