(* ===== verification/Coordinator.thy ===== *)
theory Coordinator
  imports Handle Gc_Envelope
begin

text \<open>
  The game coordinator client of \<^verbatim>\<open>src/gc/coordinator.rs\<close>: the requests a caller makes and the
  background pump that relays \<^verbatim>\<open>ClientFromGC\<close> traffic, tracks readiness and repeats the hello.

  The pump is a function of its inputs, one per turn of its \<^verbatim>\<open>select!\<close>; it stops turning when a write
  it awaits never finishes (\<open>pu_blocked\<close>).  What a coordinator's own watch and broadcast receivers
  deliver is the record \<open>gc_env\<close>, indexed by the time the receiver is made.
\<close>

section \<open>Constants and state\<close>

definition EMSG_CLIENT_GAMES_PLAYED :: u32 where [emsg_defs]: "EMSG_CLIENT_GAMES_PLAYED = 742"
definition GC_EVENT_CAPACITY :: nat where "GC_EVENT_CAPACITY = 64"
definition HELLO_RETRY_INTERVAL :: millis where "HELLO_RETRY_INTERVAL = secs 2"
definition MAX_HELLO_ATTEMPTS :: nat where "MAX_HELLO_ATTEMPTS = 20"

record cmsg_client_games_played =
  gp_game_ids :: "u64 option list"

record cmsg_client_hello =
  ch_version :: "u32 option"
  ch_client_session_need :: "u32 option"
  ch_client_launcher :: "u32 option"
  ch_steam_launcher :: "u32 option"

record cmsg_connection_status =
  cn_status :: "i32 option"

record gc_wire =
  gw_enc_header :: "gc_header \<Rightarrow> bytes"
  gw_dec_header :: "bytes \<Rightarrow> string + gc_header"
  gw_enc_client :: "cmsg_gc_client \<Rightarrow> bytes"
  gw_dec_client :: "bytes \<Rightarrow> string + cmsg_gc_client"
  gw_enc_games_played :: "cmsg_client_games_played \<Rightarrow> bytes"
  gw_enc_hello :: "cmsg_client_hello \<Rightarrow> bytes"
  gw_dec_connection_status :: "bytes \<Rightarrow> string + cmsg_connection_status"

record coordinator =
  co_session :: handle
  co_appid :: u32

record gc_env =
  ge_ready :: "millis \<Rightarrow> bool"
  ge_changes :: "millis \<Rightarrow> bool receiver"
  ge_events :: "millis \<Rightarrow> gc_message receiver"

record pump =
  pu_ready :: bool
  pu_hello_attempts :: nat
  pu_next_hello :: millis
  pu_session :: handle
  pu_ready_tx :: bool
  pu_events_out :: "gc_message list"
  pu_running :: bool
  pu_blocked :: bool

section \<open>Announcing the app\<close>

definition send_hello :: "gc_wire \<Rightarrow> env \<Rightarrow> handle \<Rightarrow> u32 \<Rightarrow> u32 \<Rightarrow> unit result poll \<times> handle" where
  "send_hello G E h appid hello_version =
     (let body = \<lparr>ch_version = Some hello_version, ch_client_session_need = Some 0,
                  ch_client_launcher = Some 0, ch_steam_launcher = Some 0\<rparr>;
          hello = wrap (gw_enc_header G) appid GC_CLIENT_HELLO default_gc_header (gw_enc_hello G body)
      in notify E h EMSG_CLIENT_TO_GC (gw_enc_client G hello))"

definition launch :: "gc_wire \<Rightarrow> env \<Rightarrow> handle \<Rightarrow> u32 \<Rightarrow> u32 \<Rightarrow> unit result poll \<times> handle" where
  "launch G E h appid hello_version =
     (let games_played = \<lparr>gp_game_ids = [Some (ucast appid)]\<rparr> in
      case notify E h EMSG_CLIENT_GAMES_PLAYED (gw_enc_games_played G games_played) of
        (Pending, h) \<Rightarrow> (Pending, h)
      | (Ready (Inl e), h) \<Rightarrow> (Ready (Inl e), h)
      | (Ready (Inr _), h) \<Rightarrow> send_hello G E h appid hello_version)"

definition has_gc_session :: "gc_wire \<Rightarrow> bytes \<Rightarrow> bool" where
  "has_gc_session G body =
     (case gw_dec_connection_status G body of
        Inr st \<Rightarrow> (case cn_status st of None \<Rightarrow> True | Some s \<Rightarrow> s = 0)
      | Inl _ \<Rightarrow> False)"

section \<open>The pump\<close>

definition start_pump :: "handle \<Rightarrow> pump" where
  "start_pump h =
     \<lparr>pu_ready = False, pu_hello_attempts = 0, pu_next_hello = h_now h + HELLO_RETRY_INTERVAL,
      pu_session = h, pu_ready_tx = False, pu_events_out = [], pu_running = True, pu_blocked = False\<rparr>"

text \<open>Awaiting a write and dropping its result.\<close>

definition await_write :: "unit result poll \<times> handle \<Rightarrow> pump \<Rightarrow> pump" where
  "await_write w p = (case w of (r, h) \<Rightarrow> p\<lparr>pu_session := h, pu_blocked := (r = Pending)\<rparr>)"

text \<open>Readiness lost: the flag, the published value, a fresh hello budget and a fresh interval.\<close>

definition lose_ready :: "pump \<Rightarrow> pump" where
  "lose_ready p =
     p\<lparr>pu_ready := False, pu_hello_attempts := 0,
       pu_next_hello := h_now (pu_session p) + HELLO_RETRY_INTERVAL, pu_ready_tx := False\<rparr>"

definition on_state_change :: "gc_wire \<Rightarrow> env \<Rightarrow> u32 \<Rightarrow> u32 \<Rightarrow> session_state option \<Rightarrow> pump \<Rightarrow> pump" where
  "on_state_change G E appid hello_version changed p =
     (case changed of
        None \<Rightarrow> p\<lparr>pu_running := False\<rparr>
      | Some st \<Rightarrow>
          let p = lose_ready p
          in if is_ready st then await_write (launch G E (pu_session p) appid hello_version) p else p)"

definition on_tick :: "gc_wire \<Rightarrow> env \<Rightarrow> u32 \<Rightarrow> u32 \<Rightarrow> pump \<Rightarrow> pump" where
  "on_tick G E appid hello_version p =
     (let p = p\<lparr>pu_next_hello := h_now (pu_session p) + HELLO_RETRY_INTERVAL\<rparr>
      in if \<not> pu_ready p \<and> pu_hello_attempts p < MAX_HELLO_ATTEMPTS
         then await_write (send_hello G E (pu_session p) appid hello_version)
                (p\<lparr>pu_hello_attempts := pu_hello_attempts p + 1\<rparr>)
         else p)"

definition on_gc_message :: "gc_wire \<Rightarrow> gc_message \<Rightarrow> pump \<Rightarrow> pump" where
  "on_gc_message G m p =
     (let p = (if gm_msgtype m = GC_CLIENT_WELCOME then p\<lparr>pu_ready := True, pu_ready_tx := True\<rparr>
               else if gm_msgtype m = GC_CLIENT_CONNECTION_STATUS
               then (if \<not> has_gc_session G (gm_body m) then lose_ready p else p)
               else p)
      in p\<lparr>pu_events_out := pu_events_out p @ [m]\<rparr>)"

definition on_received :: "gc_wire \<Rightarrow> u32 \<Rightarrow> steam_message received \<Rightarrow> pump \<Rightarrow> pump" where
  "on_received G appid ev p =
     (case ev of
        RecvOk steam_msg \<Rightarrow>
          if sm_emsg steam_msg \<noteq> EMSG_CLIENT_FROM_GC then p
          else (case unwrap (gw_dec_client G) (gw_dec_header G) steam_msg of
                  Inr (Some m) \<Rightarrow> if gm_appid m = appid then on_gc_message G m p else p
                | _ \<Rightarrow> p)
      | Lagged _ \<Rightarrow> p
      | Closed \<Rightarrow> p\<lparr>pu_running := False\<rparr>)"

text \<open>One turn: the arm that is ready, or time passing.  A tick is ready once its time has come.\<close>

datatype pump_input =
    ClonesDropped
  | StateChanged "session_state option"
  | Tick
  | Received "steam_message received"
  | Elapsed millis

definition pump_step :: "gc_wire \<Rightarrow> env \<Rightarrow> u32 \<Rightarrow> u32 \<Rightarrow> pump \<Rightarrow> pump_input \<Rightarrow> pump" where
  "pump_step G E appid hello_version p i =
     (if \<not> pu_running p \<or> pu_blocked p then p
      else case i of
        ClonesDropped \<Rightarrow> p\<lparr>pu_running := False\<rparr>
      | StateChanged changed \<Rightarrow> on_state_change G E appid hello_version changed p
      | Tick \<Rightarrow> if pu_next_hello p \<le> h_now (pu_session p) then on_tick G E appid hello_version p else p
      | Received ev \<Rightarrow> on_received G appid ev p
      | Elapsed t \<Rightarrow> p\<lparr>pu_session := (pu_session p)\<lparr>h_now := h_now (pu_session p) + t\<rparr>\<rparr>)"

definition run_pump :: "gc_wire \<Rightarrow> env \<Rightarrow> u32 \<Rightarrow> u32 \<Rightarrow> pump \<Rightarrow> pump_input list \<Rightarrow> pump" where
  "run_pump G E appid hello_version p inputs = foldl (pump_step G E appid hello_version) p inputs"

section \<open>The handle\<close>

text \<open>\<^verbatim>\<open>attach\<close> subscribes and spawns the pump before it announces the app; both go with the result.\<close>

definition attach ::
    "gc_wire \<Rightarrow> env \<Rightarrow> handle \<Rightarrow> u32 \<Rightarrow> u32 \<Rightarrow> (coordinator \<times> pump) result poll \<times> handle" where
  "attach G E session appid hello_version =
     (case subscribe E session of
        (_, session) \<Rightarrow>
          (case launch G E session appid hello_version of
             (Pending, h) \<Rightarrow> (Pending, h)
           | (Ready (Inl e), h) \<Rightarrow> (Ready (Inl e), h)
           | (Ready (Inr _), h) \<Rightarrow>
               (Ready (Inr (\<lparr>co_session = h, co_appid = appid\<rparr>, start_pump session)), h)))"

definition at_time :: "coordinator \<Rightarrow> millis" where
  "at_time c = h_now (co_session c)"

definition set_time :: "millis \<Rightarrow> coordinator \<Rightarrow> coordinator" where
  "set_time t c = c\<lparr>co_session := (co_session c)\<lparr>h_now := t\<rparr>\<rparr>"

definition wait_ready :: "gc_env \<Rightarrow> coordinator \<Rightarrow> millis \<Rightarrow> unit result \<times> coordinator" where
  "wait_ready V c deadline =
     (if ge_ready V (at_time c) then (Inr (), c)
      else case wait_event (\<lambda>ready. if ready then Some (Inr ()) else None)
                  (WebSocket ''GC pump stopped'') (Timeout ''GC welcome'')
                  (at_time c) (at_time c + deadline) (ge_changes V (at_time c)) of
             (r, t) \<Rightarrow> (r, set_time t c))"

definition gc_send :: "gc_wire \<Rightarrow> env \<Rightarrow> coordinator \<Rightarrow> u32 \<Rightarrow> bytes \<Rightarrow> unit result poll \<times> coordinator" where
  "gc_send G E c msgtype body =
     (let client = wrap (gw_enc_header G) (co_appid c) msgtype default_gc_header body
      in case notify E (co_session c) EMSG_CLIENT_TO_GC (gw_enc_client G client) of
           (r, h) \<Rightarrow> (r, c\<lparr>co_session := h\<rparr>))"

text \<open>The loop body of \<^verbatim>\<open>request_matching\<close>.\<close>

definition take_matching ::
    "u32 \<Rightarrow> (bytes \<Rightarrow> string + 'r) \<Rightarrow> ('r \<Rightarrow> bool) \<Rightarrow> gc_message \<Rightarrow> 'r result option" where
  "take_matching response_type dec accept m =
     (if gm_msgtype m = response_type
      then case dec (gm_body m) of
             Inl e \<Rightarrow> Some (Inl (Codec (''decode GC response: '' @ e)))
           | Inr decoded \<Rightarrow> if accept decoded then Some (Inr decoded) else None
      else None)"

definition request_matching ::
    "gc_wire \<Rightarrow> env \<Rightarrow> gc_env \<Rightarrow> coordinator \<Rightarrow> u32 \<Rightarrow> bytes \<Rightarrow> u32 \<Rightarrow> millis \<Rightarrow>
     (bytes \<Rightarrow> string + 'r) \<Rightarrow> ('r \<Rightarrow> bool) \<Rightarrow> 'r result poll \<times> coordinator" where
  "request_matching G E V c send_type body response_type deadline dec accept =
     (let started = at_time c in
      case wait_ready V c deadline of
        (Inl e, c) \<Rightarrow> (Ready (Inl e), c)
      | (Inr _, c) \<Rightarrow>
          let budget = deadline - (at_time c - started);
              rx = ge_events V (at_time c)
          in (case gc_send G E c send_type body of
                (Pending, c) \<Rightarrow> (Pending, c)
              | (Ready (Inl e), c) \<Rightarrow> (Ready (Inl e), c)
              | (Ready (Inr _), c) \<Rightarrow>
                  (case wait_event (take_matching response_type dec accept)
                          (WebSocket ''GC pump stopped'') (Timeout ''GC response'')
                          (at_time c) (at_time c + budget) rx of
                     (r, t) \<Rightarrow> (Ready r, set_time t c))))"

definition gc_request ::
    "gc_wire \<Rightarrow> env \<Rightarrow> gc_env \<Rightarrow> coordinator \<Rightarrow> u32 \<Rightarrow> bytes \<Rightarrow> u32 \<Rightarrow> millis \<Rightarrow>
     (bytes \<Rightarrow> string + 'r) \<Rightarrow> 'r result poll \<times> coordinator" where
  "gc_request G E V c send_type body response_type deadline dec =
     request_matching G E V c send_type body response_type deadline dec (\<lambda>_. True)"
section \<open>The pump against its contract\<close>

text \<open>What the pump promises, said of its inputs alone: it follows them up to the first one that ends
  it; it relays the coordinator messages of its app; it is ready when a welcome has arrived since the
  last input that takes readiness away.\<close>

definition ends_pump :: "pump_input \<Rightarrow> bool" where
  "ends_pump i \<longleftrightarrow> i \<in> {ClonesDropped, StateChanged None, Received Closed}"

definition relayed :: "gc_wire \<Rightarrow> u32 \<Rightarrow> pump_input \<Rightarrow> gc_message option" where
  "relayed G appid i =
     (case i of
        Received (RecvOk msg) \<Rightarrow>
          if sm_emsg msg = EMSG_CLIENT_FROM_GC
          then (case unwrap (gw_dec_client G) (gw_dec_header G) msg of
                  Inr v \<Rightarrow> opt_filter (\<lambda>m. gm_appid m = appid) v
                | Inl _ \<Rightarrow> None)
          else None
      | _ \<Rightarrow> None)"

definition welcomes :: "gc_wire \<Rightarrow> u32 \<Rightarrow> pump_input \<Rightarrow> bool" where
  "welcomes G appid i \<longleftrightarrow> (\<exists>m. relayed G appid i = Some m \<and> gm_msgtype m = GC_CLIENT_WELCOME)"

definition unreadies :: "gc_wire \<Rightarrow> u32 \<Rightarrow> pump_input \<Rightarrow> bool" where
  "unreadies G appid i \<longleftrightarrow>
     (\<exists>st. i = StateChanged (Some st)) \<or>
     (\<exists>m. relayed G appid i = Some m \<and> gm_msgtype m = GC_CLIENT_CONNECTION_STATUS \<and>
        \<not> has_gc_session G (gm_body m))"

definition followed :: "pump_input list \<Rightarrow> pump_input list" where
  "followed inputs = takeWhile (\<lambda>i. \<not> ends_pump i) inputs"

definition should_be_ready :: "gc_wire \<Rightarrow> u32 \<Rightarrow> pump_input list \<Rightarrow> bool" where
  "should_be_ready G appid is \<longleftrightarrow>
     (\<exists>before w since. is = before @ w # since \<and> welcomes G appid w \<and> (\<forall>i \<in> set since. \<not> unreadies G appid i))"

text \<open>Every write that is queued is answered: what the driver guarantees of every command.\<close>

definition writes_finish :: "env \<Rightarrow> bool" where
  "writes_finish E \<longleftrightarrow> (\<forall>ch. en_running E ch \<longrightarrow> en_answers E ch \<noteq> None)"

lemma notify_finishes: "writes_finish E \<Longrightarrow> fst (notify E h emsg body) \<noteq> Pending"
  by (auto simp: notify_def queue_command_def writes_finish_def Let_def split: option.splits)

lemma send_hello_finishes: "writes_finish E \<Longrightarrow> fst (send_hello G E h appid v) \<noteq> Pending"
  by (simp add: send_hello_def Let_def notify_finishes)

lemma launch_finishes:
  assumes "writes_finish E"
  shows "fst (launch G E h appid v) \<noteq> Pending"
proof -
  let ?n = "notify E h EMSG_CLIENT_GAMES_PLAYED (gw_enc_games_played G \<lparr>gp_game_ids = [Some (ucast appid)]\<rparr>)"
  obtain r h1 where n: "?n = (r, h1)" by fastforce
  with notify_finishes [OF assms] have "r \<noteq> Pending" by (metis fst_conv)
  then show ?thesis using n send_hello_finishes [OF assms]
    by (cases r) (auto simp: launch_def Let_def split: sum.split)
qed

lemma await_write_keeps [simp]:
  "pu_ready (await_write w p) = pu_ready p" "pu_ready_tx (await_write w p) = pu_ready_tx p"
  "pu_events_out (await_write w p) = pu_events_out p" "pu_running (await_write w p) = pu_running p"
  "pu_hello_attempts (await_write w p) = pu_hello_attempts p"
  "pu_next_hello (await_write w p) = pu_next_hello p"
  "pu_session (await_write w p) = snd w" "pu_blocked (await_write w p) \<longleftrightarrow> fst w = Pending"
  by (simp_all add: await_write_def case_prod_beta)

lemma on_received_relayed:
  "ev \<noteq> Closed \<Longrightarrow> on_received G appid ev p =
     (case relayed G appid (Received ev) of None \<Rightarrow> p | Some m \<Rightarrow> on_gc_message G m p)"
  by (auto simp: on_received_def relayed_def split: received.splits sum.splits option.splits)

lemma on_gc_message_keeps:
  "pu_running (on_gc_message G m p) = pu_running p" "pu_blocked (on_gc_message G m p) = pu_blocked p"
  "pu_session (on_gc_message G m p) = pu_session p"
  "pu_events_out (on_gc_message G m p) = pu_events_out p @ [m]"
  by (simp_all add: on_gc_message_def lose_ready_def Let_def)

text \<open>The view of the pump the contract speaks about.\<close>

definition pump_ok :: "pump \<Rightarrow> bool \<Rightarrow> gc_message list \<Rightarrow> bool \<Rightarrow> bool" where
  "pump_ok p ready out running \<longleftrightarrow>
     pu_ready p = ready \<and> pu_ready_tx p = ready \<and> pu_events_out p = out \<and> pu_running p = running \<and>
     \<not> pu_blocked p"

lemma pump_step_ok:
  assumes "writes_finish E" "pump_ok p ready out True" "\<not> ends_pump i"
  shows "pump_ok (pump_step G E appid v p i)
    (welcomes G appid i \<or> ready \<and> \<not> unreadies G appid i)
    (out @ (case relayed G appid i of None \<Rightarrow> [] | Some m \<Rightarrow> [m])) True"
proof (cases i)
  case (StateChanged changed)
  with assms obtain st where "changed = Some st" by (cases changed) (auto simp: ends_pump_def)
  then show ?thesis using assms StateChanged launch_finishes [OF assms(1)]
    by (auto simp: pump_step_def on_state_change_def pump_ok_def lose_ready_def Let_def welcomes_def
        unreadies_def relayed_def)
next
  case Tick
  then show ?thesis using assms send_hello_finishes [OF assms(1)]
    by (auto simp: pump_step_def on_tick_def pump_ok_def Let_def welcomes_def unreadies_def relayed_def)
next
  case (Received ev)
  then have "ev \<noteq> Closed" using assms(3) by (auto simp: ends_pump_def)
  note step = on_received_relayed [OF this, of G appid p]
  show ?thesis
  proof (cases "relayed G appid i")
    case None
    then show ?thesis using Received assms(2) step
      by (auto simp: pump_step_def pump_ok_def welcomes_def unreadies_def)
  next
    case (Some m)
    then have "pump_step G E appid v p i = on_gc_message G m p"
      using Received assms(2) step by (auto simp: pump_step_def pump_ok_def)
    with Some Received assms(2) show ?thesis
      by (auto simp: pump_ok_def welcomes_def unreadies_def on_gc_message_def lose_ready_def Let_def
          GC_CLIENT_WELCOME_def GC_CLIENT_CONNECTION_STATUS_def)
  qed
qed (use assms in \<open>auto simp: pump_step_def pump_ok_def ends_pump_def welcomes_def unreadies_def relayed_def\<close>)

lemma should_be_ready_snoc:
  "should_be_ready G appid (is @ [i]) \<longleftrightarrow>
     welcomes G appid i \<or> should_be_ready G appid is \<and> \<not> unreadies G appid i"
proof -
  have split: "is @ [i] = before @ w # since \<longleftrightarrow>
      since = [] \<and> before = is \<and> w = i \<or> (\<exists>s. since = s @ [i] \<and> is = before @ w # s)" for before w since
    by (cases since rule: rev_cases) auto
  show ?thesis (is "?l \<longleftrightarrow> ?r")
  proof
    assume ?l then show ?r unfolding should_be_ready_def split by fastforce
  next
    assume ?r
    then consider "welcomes G appid i" | before w s where "is = before @ w # s" "welcomes G appid w"
      "\<forall>i \<in> set s. \<not> unreadies G appid i" "\<not> unreadies G appid i"
      unfolding should_be_ready_def by blast
    then show ?l
    proof cases
      case 1 then show ?thesis unfolding should_be_ready_def by (intro exI [of _ "is"] exI [of _ i] exI [of _ "[]"]) simp
    next
      case 2 then show ?thesis unfolding should_be_ready_def by (intro exI [of _ before] exI [of _ w] exI [of _ "s @ [i]"]) auto
    qed
  qed
qed

lemma map_filter_snoc:
  "List.map_filter f (xs @ [x]) = List.map_filter f xs @ (case f x of None \<Rightarrow> [] | Some y \<Rightarrow> [y])"
  by (induction xs) (auto simp: List.map_filter_simps split: option.split)

lemma pump_step_stopped: "\<not> pu_running p \<Longrightarrow> pump_step G E appid v p i = p"
  by (simp add: pump_step_def)

lemma run_pump_stopped: "\<not> pu_running p \<Longrightarrow> run_pump G E appid v p is = p"
  by (induction "is") (simp_all add: run_pump_def pump_step_stopped)

lemma run_pump_live:
  assumes "writes_finish E" "\<forall>i \<in> set is. \<not> ends_pump i"
  shows "pump_ok (run_pump G E appid v (start_pump h) is) (should_be_ready G appid is)
    (List.map_filter (relayed G appid) is) True"
  using assms(2)
proof (induction "is" rule: rev_induct)
  case Nil
  show ?case by (simp add: run_pump_def start_pump_def pump_ok_def should_be_ready_def List.map_filter_simps)
next
  case (snoc i "is")
  then have "pump_ok (run_pump G E appid v (start_pump h) is) (should_be_ready G appid is)
      (List.map_filter (relayed G appid) is) True" by simp
  from pump_step_ok [OF assms(1) this, of i G appid v] snoc.prems show ?case
    by (simp add: run_pump_def should_be_ready_snoc map_filter_snoc)
qed

lemma pump_step_end:
  "ends_pump i \<Longrightarrow> pump_ok p ready out True \<Longrightarrow> pump_ok (pump_step G E appid v p i) ready out False"
  by (auto simp: ends_pump_def pump_step_def on_state_change_def on_received_def pump_ok_def)


text \<open>C27: the pump refines its contract: after any sequence of inputs it has relayed exactly the
  messages its app's coordinator sent, in order, up to the input that ends it, and it publishes
  readiness exactly when a welcome has come since the session last changed state or the coordinator
  last reported that it holds no session.\<close>

theorem pump_refines_contract:
  fixes G E appid v h
  assumes "writes_finish E"
  defines "p \<equiv> \<lambda>is. run_pump G E appid v (start_pump h) is"
  shows "pu_events_out (p inputs) = List.map_filter (relayed G appid) (followed inputs) \<and>
    (pu_ready_tx (p inputs) \<longleftrightarrow> should_be_ready G appid (followed inputs)) \<and>
    (pu_running (p inputs) \<longleftrightarrow> followed inputs = inputs)"
proof -
  let ?live = "followed inputs" and ?rest = "dropWhile (\<lambda>i. \<not> ends_pump i) inputs"
  have all: "inputs = ?live @ ?rest" unfolding followed_def by simp
  have live: "pump_ok (p ?live) (should_be_ready G appid ?live) (List.map_filter (relayed G appid) ?live) True"
    unfolding p_def by (rule run_pump_live [OF assms(1)]) (auto simp: followed_def dest: set_takeWhileD)
  show ?thesis
  proof (cases ?rest)
    case Nil
    with all have "?live = inputs" by simp
    with live show ?thesis by (simp add: pump_ok_def)
  next
    case (Cons i more)
    then have "ends_pump i" using hd_dropWhile [of "\<lambda>i. \<not> ends_pump i" inputs] by simp
    from pump_step_end [OF this live, of G E appid v]
    have stop: "pump_ok (pump_step G E appid v (p ?live) i) (should_be_ready G appid ?live)
      (List.map_filter (relayed G appid) ?live) False" .
    have "p inputs = run_pump G E appid v (pump_step G E appid v (p ?live) i) more"
      unfolding p_def run_pump_def by (subst all) (simp add: Cons)
    also have "\<dots> = pump_step G E appid v (p ?live) i"
      by (rule run_pump_stopped) (use stop in \<open>simp add: pump_ok_def\<close>)
    finally show ?thesis using stop all Cons by (auto simp: pump_ok_def)
  qed
qed
section \<open>The hello budget\<close>

lemma notify_sent:
  "h_sent (snd (notify E h emsg body)) =
     h_sent h @ (if en_running E (h_next h) then [Notify emsg body (h_next h)] else [])"
  "h_now h \<le> h_now (snd (notify E h emsg body))"
  by (auto simp: notify_def queue_command_def Let_def split: option.split)

lemma launch_time: "h_now h \<le> h_now (snd (launch G E h appid v))"
proof -
  let ?n = "notify E h EMSG_CLIENT_GAMES_PLAYED (gw_enc_games_played G \<lparr>gp_game_ids = [Some (ucast appid)]\<rparr>)"
  obtain r h1 where n: "?n = (r, h1)" by fastforce
  then have "h_now h \<le> h_now h1" using notify_sent(2) [of h E] by (metis snd_conv)
  moreover have "h_now h1 \<le> h_now (snd (send_hello G E h1 appid v))"
    by (simp add: send_hello_def Let_def notify_sent)
  ultimately show ?thesis by (auto simp: launch_def n Let_def split: poll.split sum.split)
qed

text \<open>The frame of a hello.\<close>

definition hello_frame :: "gc_wire \<Rightarrow> u32 \<Rightarrow> u32 \<Rightarrow> u32 \<times> bytes" where
  "hello_frame G appid v =
     (EMSG_CLIENT_TO_GC, gw_enc_client G (wrap (gw_enc_header G) appid GC_CLIENT_HELLO default_gc_header
        (gw_enc_hello G \<lparr>ch_version = Some v, ch_client_session_need = Some 0, ch_client_launcher = Some 0,
                         ch_steam_launcher = Some 0\<rparr>)))"

lemma send_hello_sent:
  "map command_frame (h_sent (snd (send_hello G E h appid v))) =
     map command_frame (h_sent h) @ (if en_running E (h_next h) then [hello_frame G appid v] else [])"
  "h_now h \<le> h_now (snd (send_hello G E h appid v))"
  by (simp_all add: send_hello_def hello_frame_def Let_def notify_sent)

definition sent_frames :: "pump \<Rightarrow> (u32 \<times> bytes) list" where
  "sent_frames p = map command_frame (h_sent (pu_session p))"

text \<open>One turn that does not take readiness away: what it sends it pays for from the budget.\<close>

lemma pump_step_idle:
  assumes "\<not> unreadies G appid i" "i \<noteq> Tick"
  shows "h_sent (pu_session (pump_step G E appid v p i)) = h_sent (pu_session p) \<and>
    pu_hello_attempts (pump_step G E appid v p i) = pu_hello_attempts p"
proof (cases i)
  case (Received ev)
  have "on_gc_message G m p = p\<lparr>pu_events_out := pu_events_out p @ [m]\<rparr> \<or>
      on_gc_message G m p = p\<lparr>pu_ready := True, pu_ready_tx := True, pu_events_out := pu_events_out p @ [m]\<rparr>"
    if "relayed G appid i = Some m" for m
    using that assms(1) by (auto simp: on_gc_message_def unreadies_def Let_def)
  then have m: "h_sent (pu_session (on_gc_message G m p)) = h_sent (pu_session p) \<and>
      pu_hello_attempts (on_gc_message G m p) = pu_hello_attempts p" if "relayed G appid i = Some m" for m
    using that by (metis (no_types, lifting) pump.select_convs pump.surjective pump.update_convs)
  show ?thesis
  proof (cases "ev = Closed")
    case True
    then show ?thesis using Received by (simp add: pump_step_def on_received_def)
  next
    case False
    then show ?thesis using Received m
      by (cases "relayed G appid i") (simp_all add: pump_step_def on_received_relayed)
  qed
next
  case (StateChanged changed)
  with assms(1) have "changed = None" by (cases changed) (auto simp: unreadies_def)
  with StateChanged show ?thesis by (simp add: pump_step_def on_state_change_def)
qed (use assms in \<open>simp_all add: pump_step_def\<close>)

lemma pump_step_budget:
  assumes "\<not> unreadies G appid i" "pu_hello_attempts p \<le> MAX_HELLO_ATTEMPTS"
  shows "\<exists>k. sent_frames (pump_step G E appid v p i) = sent_frames p @ replicate k (hello_frame G appid v) \<and>
    pu_hello_attempts p + k \<le> pu_hello_attempts (pump_step G E appid v p i) \<and>
    pu_hello_attempts (pump_step G E appid v p i) \<le> MAX_HELLO_ATTEMPTS"
proof (cases "i = Tick \<and> pu_running p \<and> \<not> pu_blocked p \<and> pu_next_hello p \<le> h_now (pu_session p) \<and>
    \<not> pu_ready p \<and> pu_hello_attempts p < MAX_HELLO_ATTEMPTS")
  case True
  let ?h = "pu_session p"
  have "pump_step G E appid v p i = await_write (send_hello G E ?h appid v)
      (p\<lparr>pu_next_hello := h_now ?h + HELLO_RETRY_INTERVAL, pu_hello_attempts := pu_hello_attempts p + 1\<rparr>)"
    using True by (simp add: pump_step_def on_tick_def Let_def)
  then show ?thesis using True
    by (intro exI [of _ "if en_running E (h_next ?h) then 1 else 0"]) (simp add: sent_frames_def send_hello_sent)
next
  case False
  then have "h_sent (pu_session (pump_step G E appid v p i)) = h_sent (pu_session p) \<and>
    pu_hello_attempts (pump_step G E appid v p i) = pu_hello_attempts p"
    using pump_step_idle [OF assms(1)]
    by (cases "i = Tick") (auto simp: pump_step_def on_tick_def Let_def)
  then show ?thesis using assms(2) by (intro exI [of _ 0]) (simp add: sent_frames_def)
qed

lemma run_pump_budget:
  assumes "\<forall>i \<in> set is. \<not> unreadies G appid i" "pu_hello_attempts p \<le> MAX_HELLO_ATTEMPTS"
  shows "\<exists>k. sent_frames (run_pump G E appid v p is) = sent_frames p @ replicate k (hello_frame G appid v) \<and>
    pu_hello_attempts p + k \<le> MAX_HELLO_ATTEMPTS"
  using assms
proof (induction "is" arbitrary: p)
  case Nil
  then show ?case by (intro exI [of _ 0]) (simp add: run_pump_def)
next
  case (Cons i "is")
  let ?p = "pump_step G E appid v p i"
  from Cons.prems obtain k where k: "sent_frames ?p = sent_frames p @ replicate k (hello_frame G appid v)"
    "pu_hello_attempts p + k \<le> pu_hello_attempts ?p" "pu_hello_attempts ?p \<le> MAX_HELLO_ATTEMPTS"
    using pump_step_budget [of G appid i p E v] by auto
  with Cons.IH [of ?p] Cons.prems obtain l where
    "sent_frames (run_pump G E appid v ?p is) = sent_frames ?p @ replicate l (hello_frame G appid v)"
    "pu_hello_attempts ?p + l \<le> MAX_HELLO_ATTEMPTS" by auto
  with k show ?case
    by (intro exI [of _ "k + l"]) (auto simp: run_pump_def replicate_add)
qed

text \<open>A coordinator that never welcomes us is not poked forever: however long the pump runs and
  whatever it receives, as long as nothing takes readiness away it sends hellos and nothing else, and
  at most twenty of them.\<close>

theorem hello_budget:
  assumes "\<forall>i \<in> set inputs. \<not> unreadies G appid i"
  shows "\<exists>k \<le> 20. sent_frames (run_pump G E appid v (start_pump h) inputs) =
    map command_frame (h_sent h) @ replicate k (hello_frame G appid v)"
proof -
  have "pu_hello_attempts (start_pump h) \<le> MAX_HELLO_ATTEMPTS" by (simp add: start_pump_def)
  from run_pump_budget [OF assms this, of E v] show ?thesis
    by (auto simp: start_pump_def sent_frames_def MAX_HELLO_ATTEMPTS_def)
qed

text \<open>One retry interval: what is received in it, how long it lasts, and the tick at its end.\<close>

fun retry_round :: "steam_message received list \<times> millis \<Rightarrow> pump_input list" where
  "retry_round (evs, t) = map Received evs @ [Elapsed t, Tick]"

text \<open>Waiting for a welcome after \<open>n\<close> intervals, and welcomed; \<open>sent\<close> is what had been sent before.\<close>

definition awaiting :: "(u32 \<times> bytes) list \<Rightarrow> u32 \<times> bytes \<Rightarrow> nat \<Rightarrow> pump \<Rightarrow> bool" where
  "awaiting sent hello n p \<longleftrightarrow>
     pu_running p \<and> \<not> pu_blocked p \<and> \<not> pu_ready p \<and>
     pu_hello_attempts p = min n MAX_HELLO_ATTEMPTS \<and>
     pu_next_hello p \<le> h_now (pu_session p) + HELLO_RETRY_INTERVAL \<and>
     sent_frames p = sent @ replicate (min n MAX_HELLO_ATTEMPTS) hello"

definition welcomed :: "(u32 \<times> bytes) list \<Rightarrow> pump \<Rightarrow> bool" where
  "welcomed sent p \<longleftrightarrow> pu_running p \<and> \<not> pu_blocked p \<and> pu_ready p \<and> sent_frames p = sent"

lemma gc_message_kept:
  assumes "relayed G appid (Received ev) = Some m" "\<not> unreadies G appid (Received ev)"
  shows "on_gc_message G m p = p\<lparr>pu_ready := pu_ready p \<or> welcomes G appid (Received ev),
    pu_ready_tx := pu_ready_tx p \<or> welcomes G appid (Received ev), pu_events_out := pu_events_out p @ [m]\<rparr>"
  using assms by (auto simp: on_gc_message_def unreadies_def welcomes_def Let_def)

lemma received_kept:
  assumes "pu_running p" "\<not> pu_blocked p" "ev \<noteq> Closed" "\<not> unreadies G appid (Received ev)"
  shows "\<exists>out tx. pump_step G E appid v p (Received ev) =
    p\<lparr>pu_ready := pu_ready p \<or> welcomes G appid (Received ev), pu_ready_tx := tx, pu_events_out := out\<rparr>"
proof (cases "relayed G appid (Received ev)")
  case None
  then have "pump_step G E appid v p (Received ev) =
      p\<lparr>pu_ready := pu_ready p \<or> welcomes G appid (Received ev), pu_ready_tx := pu_ready_tx p, pu_events_out := pu_events_out p\<rparr>"
    using assms by (simp add: pump_step_def on_received_relayed welcomes_def)
  then show ?thesis by blast
next
  case (Some m)
  then show ?thesis
    using assms gc_message_kept [OF Some assms(4), of p] by (auto simp: pump_step_def on_received_relayed)
qed

lemma awaiting_received:
  assumes "awaiting sent hello n p" "ev \<noteq> Closed" "\<not> unreadies G appid (Received ev)"
  shows "if welcomes G appid (Received ev)
    then welcomed (sent @ replicate (min n MAX_HELLO_ATTEMPTS) hello) (pump_step G E appid v p (Received ev))
    else awaiting sent hello n (pump_step G E appid v p (Received ev))"
  using received_kept [OF _ _ assms(2, 3), of p E v] assms(1)
  by (auto simp: awaiting_def welcomed_def sent_frames_def)

lemma welcomed_received:
  assumes "welcomed sent p" "ev \<noteq> Closed" "\<not> unreadies G appid (Received ev)"
  shows "welcomed sent (pump_step G E appid v p (Received ev))"
  using received_kept [OF _ _ assms(2, 3), of p E v] assms(1) by (auto simp: welcomed_def sent_frames_def)

lemma welcomed_all_received:
  assumes "welcomed sent p" "\<forall>ev \<in> set evs. ev \<noteq> Closed \<and> \<not> unreadies G appid (Received ev)"
  shows "welcomed sent (run_pump G E appid v p (map Received evs))"
  using assms
  by (induction evs arbitrary: p) (simp_all add: run_pump_def welcomed_received)

lemma awaiting_all_received:
  assumes "awaiting sent hello n p" "\<forall>ev \<in> set evs. ev \<noteq> Closed \<and> \<not> unreadies G appid (Received ev)"
  shows "if \<forall>ev \<in> set evs. \<not> welcomes G appid (Received ev)
    then awaiting sent hello n (run_pump G E appid v p (map Received evs))
    else welcomed (sent @ replicate (min n MAX_HELLO_ATTEMPTS) hello) (run_pump G E appid v p (map Received evs))"
  using assms
proof (induction evs arbitrary: p)
  case (Cons ev evs)
  let ?p = "pump_step G E appid v p (Received ev)"
  have run: "run_pump G E appid v p (map Received (ev # evs)) = run_pump G E appid v ?p (map Received evs)"
    by (simp add: run_pump_def)
  have next_step: "if welcomes G appid (Received ev)
      then welcomed (sent @ replicate (min n MAX_HELLO_ATTEMPTS) hello) ?p else awaiting sent hello n ?p"
    using Cons.prems by (intro awaiting_received) simp_all
  show ?case
  proof (cases "welcomes G appid (Received ev)")
    case True
    then show ?thesis unfolding run using next_step Cons.prems(2) welcomed_all_received [of _ ?p evs G appid E v] by simp
  next
    case False
    then show ?thesis unfolding run using next_step Cons.prems(2) Cons.IH [of ?p] by simp
  qed
qed (simp add: run_pump_def)

lemma welcomed_round:
  assumes "welcomed sent p"
  shows "welcomed sent (run_pump G E appid v p [Elapsed t, Tick])"
  using assms by (simp add: welcomed_def run_pump_def pump_step_def on_tick_def sent_frames_def Let_def)

lemma awaiting_round:
  assumes "\<forall>ch. en_running E ch" "writes_finish E" "awaiting sent (hello_frame G appid v) n p" "2000 \<le> t"
  shows "awaiting sent (hello_frame G appid v) (Suc n) (run_pump G E appid v p [Elapsed t, Tick])"
proof -
  let ?p = "p\<lparr>pu_session := (pu_session p)\<lparr>h_now := h_now (pu_session p) + t\<rparr>\<rparr>"
  have "pump_step G E appid v p (Elapsed t) = ?p" and due: "pu_next_hello ?p \<le> h_now (pu_session ?p)"
    using assms(3, 4) by (auto simp: awaiting_def pump_step_def HELLO_RETRY_INTERVAL_def)
  then have turn: "run_pump G E appid v p [Elapsed t, Tick] = on_tick G E appid v ?p"
    using assms(3) by (simp add: awaiting_def pump_step_def run_pump_def)
  show ?thesis
  proof (cases "n < MAX_HELLO_ATTEMPTS")
    case True
    have fin: "fst (send_hello G E h' appid v) \<noteq> Pending" for h' by (rule send_hello_finishes [OF assms(2)])
    have "min n MAX_HELLO_ATTEMPTS = n" "min (Suc n) MAX_HELLO_ATTEMPTS = Suc n" using True by simp_all
    then show ?thesis
      unfolding turn awaiting_def
      using True assms(1,3) fin send_hello_sent(2) [of "pu_session ?p" G E appid v]
      by (simp add: awaiting_def on_tick_def sent_frames_def Let_def send_hello_sent(1) replicate_append_same)
  next
    case False
    then have "min n MAX_HELLO_ATTEMPTS = MAX_HELLO_ATTEMPTS" "min (Suc n) MAX_HELLO_ATTEMPTS = MAX_HELLO_ATTEMPTS"
      by simp_all
    then show ?thesis
      unfolding turn awaiting_def using assms(3) by (simp add: awaiting_def on_tick_def sent_frames_def Let_def)
  qed
qed

lemma run_pump_append: "run_pump G E appid v p (is @ js) = run_pump G E appid v (run_pump G E appid v p is) js"
  by (simp add: run_pump_def)

lemma start_sent: "sent_frames (run_pump G E appid v (start_pump h) []) = map command_frame (h_sent h)"
  by (simp add: run_pump_def start_pump_def sent_frames_def)

text \<open>The intervals up to the first in which a welcome comes.\<close>

definition unwelcomed :: "gc_wire \<Rightarrow> u32 \<Rightarrow> (steam_message received list \<times> millis) list \<Rightarrow> nat" where
  "unwelcomed G appid rounds =
     length (takeWhile (\<lambda>(evs, _). \<forall>ev \<in> set evs. \<not> welcomes G appid (Received ev)) rounds)"

definition calm :: "gc_wire \<Rightarrow> u32 \<Rightarrow> (steam_message received list \<times> millis) list \<Rightarrow> bool" where
  "calm G appid rounds \<longleftrightarrow>
     (\<forall>(evs, t) \<in> set rounds. 2000 \<le> t \<and> (\<forall>ev \<in> set evs. ev \<noteq> Closed \<and> \<not> unreadies G appid (Received ev)))"

lemma welcomed_rounds:
  assumes "welcomed sent p" "calm G appid rounds"
  shows "welcomed sent (run_pump G E appid v p (concat (map retry_round rounds)))"
  using assms
proof (induction rounds arbitrary: p)
  case (Cons r rounds)
  obtain evs t where r: "r = (evs, t)" by fastforce
  have "welcomed sent (run_pump G E appid v p (retry_round r))"
    unfolding r retry_round.simps run_pump_append using Cons.prems
    by (intro welcomed_round welcomed_all_received) (auto simp: calm_def r)
  then show ?case using Cons by (simp add: run_pump_append calm_def del: retry_round.simps)
qed (simp add: run_pump_def)

lemma awaiting_rounds:
  assumes "\<forall>ch. en_running E ch" "writes_finish E" "awaiting sent (hello_frame G appid v) n p" "calm G appid rounds"
  shows "sent_frames (run_pump G E appid v p (concat (map retry_round rounds))) =
    sent @ replicate (min (n + unwelcomed G appid rounds) MAX_HELLO_ATTEMPTS) (hello_frame G appid v)"
  using assms(3, 4)
proof (induction rounds arbitrary: p n)
  case Nil
  then show ?case by (simp add: run_pump_def awaiting_def unwelcomed_def)
next
  case (Cons r rounds)
  obtain evs t where r: "r = (evs, t)" by fastforce
  let ?q = "run_pump G E appid v p (map Received evs)" and ?r = "run_pump G E appid v p (retry_round r)"
  have calm: "2000 \<le> t" "\<forall>ev \<in> set evs. ev \<noteq> Closed \<and> \<not> unreadies G appid (Received ev)" "calm G appid rounds"
    using Cons.prems(2) by (auto simp: calm_def r)
  have step: "run_pump G E appid v p (concat (map retry_round (r # rounds))) =
      run_pump G E appid v ?r (concat (map retry_round rounds))"
    "?r = run_pump G E appid v ?q [Elapsed t, Tick]"
    by (simp_all only: list.map concat.simps run_pump_append r retry_round.simps)
  note heard = awaiting_all_received [OF Cons.prems(1) calm(2), of E v]
  show ?case
  proof (cases "\<forall>ev \<in> set evs. \<not> welcomes G appid (Received ev)")
    case True
    then have "awaiting sent (hello_frame G appid v) (Suc n) ?r"
      using heard awaiting_round [OF assms(1, 2) _ calm(1)] unfolding step(2) by simp
    from Cons.IH [OF this calm(3)] True show ?thesis unfolding step(1) by (simp add: unwelcomed_def r)
  next
    case False
    then have "welcomed (sent @ replicate (min n MAX_HELLO_ATTEMPTS) (hello_frame G appid v)) ?r"
      using heard welcomed_round unfolding step(2) by simp
    from welcomed_rounds [OF this calm(3), of E v] False show ?thesis
      unfolding step(1) by (auto simp: unwelcomed_def r welcomed_def)
  qed
qed

lemma unready_awaits:
  assumes "writes_finish E" "pump_ok p ready out True" "\<not> ends_pump i" "unreadies G appid i"
  shows "awaiting (sent_frames (pump_step G E appid v p i)) hello 0 (pump_step G E appid v p i)"
proof -
  let ?p = "pump_step G E appid v p i"
  have ok: "pu_running ?p" "\<not> pu_blocked ?p"
    using pump_step_ok [OF assms(1-3), of G appid v] by (simp_all add: pump_ok_def)
  from assms(4) consider st where "i = StateChanged (Some st)"
    | m where "relayed G appid i = Some m" "gm_msgtype m = GC_CLIENT_CONNECTION_STATUS" "\<not> has_gc_session G (gm_body m)"
    unfolding unreadies_def by blast
  then have "\<not> pu_ready ?p \<and> pu_hello_attempts ?p = 0 \<and> pu_next_hello ?p \<le> h_now (pu_session ?p) + HELLO_RETRY_INTERVAL"
  proof cases
    case 1
    have "h_now h \<le> h_now (snd (launch G E h appid v))" for h by (rule launch_time)
    with 1 assms(2) show ?thesis
      by (simp add: pump_ok_def pump_step_def on_state_change_def lose_ready_def Let_def)
  next
    case 2
    then obtain ev where ev: "i = Received ev" "ev \<noteq> Closed" by (auto simp: relayed_def split: pump_input.splits received.splits)
    with 2 assms(2) show ?thesis
      by (simp add: pump_ok_def pump_step_def on_received_relayed on_gc_message_def lose_ready_def Let_def
          GC_CLIENT_WELCOME_def GC_CLIENT_CONNECTION_STATUS_def)
  qed
  with ok show ?thesis by (simp add: awaiting_def)
qed

text \<open>C35: the pump keeps asking for a welcome, and no longer.  From its start, and again from every input that
  takes readiness away, whatever came before, and with any messages in between: at the end of every
  retry interval it sends one more hello until a welcome comes, at most twenty in all, and none after
  the welcome.\<close>

theorem hello_retried:
  assumes "\<forall>ch. en_running E ch" "writes_finish E"
    and "\<forall>i \<in> set before. \<not> ends_pump i" "before = [] \<or> unreadies G appid (last before)"
    and "calm G appid rounds"
  shows "sent_frames (run_pump G E appid v (start_pump h) (before @ concat (map retry_round rounds))) =
    sent_frames (run_pump G E appid v (start_pump h) before) @
    replicate (min 20 (unwelcomed G appid rounds)) (hello_frame G appid v)"
proof -
  let ?p = "run_pump G E appid v (start_pump h) before"
  have "awaiting (sent_frames ?p) (hello_frame G appid v) 0 ?p"
  proof (cases before rule: rev_cases)
    case Nil
    then show ?thesis by (simp add: awaiting_def run_pump_def start_pump_def)
  next
    case (snoc "is" i)
    have live: "\<forall>i \<in> set is. \<not> ends_pump i" using assms(3) snoc by simp
    have "\<not> ends_pump i" "unreadies G appid i" using assms(3, 4) snoc by auto
    from unready_awaits [OF assms(2) run_pump_live [OF assms(2) live] this, of v] show ?thesis
      unfolding snoc by (simp add: run_pump_def)
  qed
  from awaiting_rounds [OF assms(1, 2) this assms(5)] show ?thesis
    by (simp add: run_pump_append MAX_HELLO_ATTEMPTS_def min.commute)
qed

section \<open>Requests\<close>

lemma set_time_simps [simp]:
  "at_time (set_time t c) = t" "h_sent (co_session (set_time t c)) = h_sent (co_session c)"
  by (simp_all add: at_time_def set_time_def)

lemma wait_ready_keeps:
  assumes "wait_ready V c deadline = (r, c1)"
  shows "\<exists>t. c1 = set_time t c \<and> at_time c \<le> t \<and> t \<le> at_time c + deadline"
proof (cases "ge_ready V (at_time c)")
  case True
  with assms show ?thesis by (intro exI [of _ "at_time c"]) (auto simp: wait_ready_def set_time_def at_time_def)
next
  case False
  let ?w = "wait_event (\<lambda>ready. if ready then Some (Inr ()) else None) (WebSocket ''GC pump stopped'')
    (Timeout ''GC welcome'') (at_time c) (at_time c + deadline) (ge_changes V (at_time c))"
  have "c1 = set_time (snd ?w) c" using assms False by (simp add: wait_ready_def case_prod_beta)
  then show ?thesis by (intro exI [of _ "snd ?w"] conjI wait_event_starts wait_event_ends) simp_all
qed

lemma request_matching_unwelcomed:
  assumes "wait_ready V c deadline = (Inl e, c1)"
  shows "request_matching G E V c send_type body response_type deadline dec accept = (Ready (Inl e), c1) \<and>
    h_sent (co_session c1) = h_sent (co_session c)"
  using wait_ready_keeps [OF assms] assms by (auto simp: request_matching_def Let_def)

text \<open>A request whose write is acknowledged after the time \<open>t\<close> is the waiting loop over what its subscription hears.\<close>

lemma request_matching_written:
  fixes G E V dec accept send_type body response_type
  assumes "wait_ready V c deadline = (Inr (), c1)"
    and "en_running E (h_next (co_session c))" "en_answers E (h_next (co_session c)) = Some (t, Ack (Inr ()))"
  defines "w \<equiv> wait_event (take_matching response_type dec accept) (WebSocket ''GC pump stopped'')
      (Timeout ''GC response'') (at_time c1 + t) (at_time c + deadline + t) (ge_events V (at_time c1))"
  shows "request_matching G E V c send_type body response_type deadline dec accept =
      (Ready (fst w), set_time (snd w) (c\<lparr>co_session := (co_session c)\<lparr>h_now := at_time c1 + t, h_next := Suc (h_next (co_session c)),
         h_sent := h_sent (co_session c) @ [Notify 5452
           (gw_enc_client G (wrap (gw_enc_header G) (co_appid c) send_type default_gc_header body)) (h_next (co_session c))]\<rparr>\<rparr>))"
    "at_time c1 \<le> at_time c + deadline"
proof -
  from wait_ready_keeps [OF assms(1)] obtain u where
    u: "c1 = set_time u c" "at_time c \<le> u" "u \<le> at_time c + deadline" by blast
  let ?frame = "gw_enc_client G (wrap (gw_enc_header G) (co_appid c) send_type default_gc_header body)"
  let ?h = "(co_session c)\<lparr>h_now := u + t, h_next := Suc (h_next (co_session c)),
    h_sent := h_sent (co_session c) @ [Notify 5452 ?frame (h_next (co_session c))]\<rparr>"
  have at: "at_time c1 = u" by (simp add: u at_time_def set_time_def)
  then show "at_time c1 \<le> at_time c + deadline" using u by simp
  have sent: "gc_send G E c1 send_type body = (Ready (Inr ()), c\<lparr>co_session := ?h\<rparr>)"
    using assms(2,3) by (simp add: gc_send_def notify_def queue_command_def Let_def u set_time_def emsg_defs)
  have budget: "u + t + (deadline - (u - at_time c)) = at_time c + deadline + t" using u by simp
  show "request_matching G E V c send_type body response_type deadline dec accept =
      (Ready (fst w), set_time (snd w) (c\<lparr>co_session := (co_session c)\<lparr>h_now := at_time c1 + t, h_next := Suc (h_next (co_session c)),
         h_sent := h_sent (co_session c) @ [Notify 5452 ?frame (h_next (co_session c))]\<rparr>\<rparr>))"
    unfolding request_matching_def assms(1) Let_def w_def
    by (simp add: at sent budget case_prod_beta) (simp add: at_time_def budget [unfolded at_time_def])
qed

lemma take_matching_find:
  "take_matching response_type dec accept m =
     (if gm_msgtype m = response_type \<and> (\<forall>r. dec (gm_body m) = Inr r \<longrightarrow> accept r)
      then Some (case dec (gm_body m) of Inl e \<Rightarrow> Inl (Codec (''decode GC response: '' @ e)) | Inr r \<Rightarrow> Inr r) else None)"
  by (cases "dec (gm_body m)") (simp_all add: take_matching_def)

text \<open>C34: a request to the coordinator.  Once the coordinator has welcomed us it subscribes, sends one frame,
  and waits for that to be written.  Then the first message decides that is of the wanted type and either
  does not decode or is accepted, among all that the subscription hears, those of before the write
  included, until the deadline counted from the start of the call plus the time the write took; the
  documentation promises the bare deadline.  A decision is the decoded reply or the error that it does
  not decode; without one the call fails, because the pump stopped if it hears so in time, and with a
  timeout otherwise.\<close>

theorem request_matching_spec:
  fixes G E V dec accept send_type body response_type
  assumes "wait_ready V c deadline = (Inr (), c1)"
    and "en_running E (h_next (co_session c))" "en_answers E (h_next (co_session c)) = Some (t, Ack (Inr ()))"
  defines "until \<equiv> at_time c + deadline + t" and "rx \<equiv> ge_events V (at_time c1)"
    and "call \<equiv> request_matching G E V c send_type body response_type deadline dec accept"
  shows "fst call = Ready
      (case find (\<lambda>m. gm_msgtype m = response_type \<and> (\<forall>r. dec (gm_body m) = Inr r \<longrightarrow> accept r)) (heard until rx) of
         Some m \<Rightarrow> (case dec (gm_body m) of
             Inl e \<Rightarrow> Inl (Codec (''decode GC response: '' @ e))
           | Inr r \<Rightarrow> Inr r)
       | None \<Rightarrow> Inl (if hung_up until rx then WebSocket ''GC pump stopped'' else Timeout ''GC response'')) \<and>
    map command_frame (h_sent (co_session (snd call))) = map command_frame (h_sent (co_session c)) @
      [(5452, gw_enc_client G (wrap (gw_enc_header G) (co_appid c) send_type default_gc_header body))] \<and>
    at_time (snd call) \<le> until"
proof -
  note w = request_matching_written(1) [OF assms(1-3)] request_matching_written(2) [OF assms(1-3)]
  let ?w = "wait_event (take_matching response_type dec accept) (WebSocket ''GC pump stopped'')
    (Timeout ''GC response'') (at_time c1 + t) (at_time c + deadline + t) (ge_events V (at_time c1))"
  have "snd ?w \<le> at_time c + deadline + t" using w(2) by (intro wait_event_ends) simp
  then show ?thesis by (simp add: call_def until_def rx_def w(1) wait_event_find [OF take_matching_find])
qed

section \<open>Witnesses\<close>

definition sample_gc :: gc_wire where
  "sample_gc =
     \<lparr>gw_enc_header = sample_gc_enc, gw_dec_header = sample_gc_dec,
      gw_enc_client = sample_relay_enc, gw_dec_client = sample_relay_dec,
      gw_enc_games_played = (\<lambda>_. []), gw_enc_hello = (\<lambda>_. []),
      gw_dec_connection_status = (\<lambda>b. Inr \<lparr>cn_status = (case b of [] \<Rightarrow> None | x # _ \<Rightarrow> Some (uint x))\<rparr>)\<rparr>"

definition answering_env :: env where
  "answering_env =
     \<lparr>en_running = (\<lambda>_. True), en_answers = (\<lambda>_. Some (5, Ack (Inr ()))), en_events = (\<lambda>_. []),
      en_snapshots = (\<lambda>_ _. None), en_state = (\<lambda>_. LoggedOn 7)\<rparr>"

definition idle_handle :: handle where
  "idle_handle = \<lparr>h_steam_id = 7, h_now = 0, h_sent = [], h_next = 0, h_looks = 0\<rparr>"

definition from_gc :: "u32 \<Rightarrow> bytes \<Rightarrow> steam_message" where
  "from_gc msgtype body =
     \<lparr>sm_emsg = 5453, sm_header = default_header,
      sm_body = sample_relay_enc (wrap sample_gc_enc 730 msgtype default_gc_header body)\<rparr>"

lemma idle_handle_simps [simp]: "h_sent idle_handle = []" "h_next idle_handle = 0" "h_now idle_handle = 0"
  by (simp_all add: idle_handle_def)

lemma answering_env_writes [simp]: "writes_finish answering_env" "en_running answering_env ch"
  by (simp_all add: writes_finish_def answering_env_def)

lemma relayed_from_gc:
  "relayed sample_gc 730 (Received (RecvOk (from_gc t b))) =
     Some \<lparr>gm_appid = 730, gm_msgtype = t AND EMSG_MASK, gm_header = default_gc_header, gm_body = b\<rparr>"
proof -
  have "unwrap sample_relay_dec sample_gc_dec (from_gc t b) =
      Inr (Some \<lparr>gm_appid = 730, gm_msgtype = t AND EMSG_MASK, gm_header = default_gc_header, gm_body = b\<rparr>)"
    by (subst unwrap_via [where c = "wrap sample_gc_enc 730 t default_gc_header b"])
      (simp_all add: from_gc_def sample_relay wrap_def encode_raw_frame cm_frame.decode_via_frm sample_gc_enc_def
        sample_gc_dec_def default_gc_header_def)
  then show ?thesis
    by (simp add: relayed_def sample_gc_def from_gc_def [of t b, THEN arg_cong [of _ _ sm_emsg]]
        emsg_defs)
qed

text \<open>A welcome, then another message of the app, then the session reconnects.\<close>

theorem pump_refines_contract_witness:
  "let p = run_pump sample_gc answering_env 730 1 (start_pump idle_handle) in
   pu_ready_tx (p [Received (RecvOk (from_gc 4004 []))]) \<and>
   \<not> pu_ready_tx (p [Received (RecvOk (from_gc 4004 [])), StateChanged (Some Connecting)])"
proof -
  let ?w = "Received (RecvOk (from_gc 4004 []))" and ?s = "StateChanged (Some Connecting)"
  have mask: "(4004 :: u32) AND EMSG_MASK = 4004" by (simp add: EMSG_MASK_def PROTO_MASK_def)
  have w: "welcomes sample_gc 730 ?w" by (simp add: welcomes_def relayed_from_gc mask GC_CLIENT_WELCOME_def)
  have s: "\<not> welcomes sample_gc 730 ?s" "unreadies sample_gc 730 ?s"
    by (simp_all add: welcomes_def unreadies_def relayed_def)
  have "should_be_ready sample_gc 730 [?w]" "\<not> should_be_ready sample_gc 730 [?w, ?s]"
    using should_be_ready_snoc [of sample_gc 730 "[]" ?w] should_be_ready_snoc [of sample_gc 730 "[?w]" ?s] w s
    by simp_all
  moreover have "followed [?w] = [?w]" "followed [?w, ?s] = [?w, ?s]"
    by (simp_all add: followed_def ends_pump_def)
  ultimately show ?thesis
    using pump_refines_contract [of answering_env sample_gc 730 1 idle_handle] by (simp add: Let_def)
qed

theorem hello_budget_witness:
  "\<exists>k \<le> 20. sent_frames (run_pump sample_gc answering_env 730 1 (start_pump idle_handle) [Elapsed 2000, Tick, Tick]) =
     replicate k (hello_frame sample_gc 730 1)"
  using hello_budget [of "[Elapsed 2000, Tick, Tick]" sample_gc 730 answering_env 1 idle_handle]
  by (simp add: unreadies_def relayed_def idle_handle_def)

text \<open>Two silent intervals, a third with a welcome, a fourth: two hellos.  Fifty silent ones: twenty.\<close>

theorem hello_retried_witness:
  "sent_frames (run_pump sample_gc answering_env 730 1 (start_pump idle_handle)
     (concat (map retry_round [([], 2000), ([Lagged 3], 2500), ([RecvOk (from_gc 4004 [])], 2000), ([], 9000)]))) =
     replicate 2 (hello_frame sample_gc 730 1) \<and>
   sent_frames (run_pump sample_gc answering_env 730 1 (start_pump idle_handle)
     (concat (map retry_round (replicate 50 ([], 2000))))) = replicate 20 (hello_frame sample_gc 730 1)"
proof -
  let ?rounds = "[([], 2000), ([Lagged 3], 2500), ([RecvOk (from_gc 4004 [])], 2000), ([], 9000)] :: (steam_message received list \<times> millis) list"
  let ?silent = "replicate 50 ([], 2000) :: (steam_message received list \<times> millis) list"
  have mask: "(4004 :: u32) AND EMSG_MASK = 4004" by (simp add: EMSG_MASK_def PROTO_MASK_def)
  have lag: "relayed sample_gc 730 (Received (Lagged 3)) = None" by (simp add: relayed_def)
  have "calm sample_gc 730 ?rounds" "unwelcomed sample_gc 730 ?rounds = 2"
    by (simp_all add: calm_def unwelcomed_def unreadies_def welcomes_def lag relayed_from_gc mask
        GC_CLIENT_WELCOME_def GC_CLIENT_CONNECTION_STATUS_def)
  moreover have "calm sample_gc 730 ?silent" "unwelcomed sample_gc 730 ?silent = 50"
    by (simp_all add: calm_def unwelcomed_def takeWhile_replicate)
  ultimately show ?thesis
    using hello_retried [of answering_env "[]" sample_gc 730 ?rounds 1 idle_handle]
      hello_retried [of answering_env "[]" sample_gc 730 ?silent 1 idle_handle]
    by (simp add: start_sent)
qed

definition reply_gc_env :: gc_env where
  "reply_gc_env =
     \<lparr>ge_ready = (\<lambda>_. False), ge_changes = (\<lambda>_. [(3, RecvOk True)]),
      ge_events = (\<lambda>_. [(9, RecvOk \<lparr>gm_appid = 730, gm_msgtype = 8, gm_header = default_gc_header, gm_body = [1]\<rparr>),
                       (10, RecvOk \<lparr>gm_appid = 730, gm_msgtype = 8, gm_header = default_gc_header, gm_body = [2]\<rparr>)])\<rparr>"

definition idle_coordinator :: coordinator where
  "idle_coordinator = \<lparr>co_session = idle_handle, co_appid = 730\<rparr>"

theorem request_matching_spec_witness:
  "fst (request_matching sample_gc answering_env reply_gc_env idle_coordinator 7 [] 8 100 Inr (\<lambda>b. b = [2])) =
     Ready (Inr [2])"
proof -
  have r: "wait_ready reply_gc_env idle_coordinator 100 = (Inr (), set_time 3 idle_coordinator)"
    by (simp add: wait_ready_def reply_gc_env_def idle_coordinator_def at_time_def idle_handle_def)
  have "en_answers answering_env (h_next (co_session idle_coordinator)) = Some (5, Ack (Inr ()))"
    by (simp add: answering_env_def)
  note spec = request_matching_spec [OF r _ this, where response_type = 8 and dec = Inr and accept = "\<lambda>b. b = [2]"
      and G = sample_gc and send_type = 7 and body = "[]"]
  have "heard (at_time idle_coordinator + 100 + 5) (ge_events reply_gc_env (at_time (set_time 3 idle_coordinator))) =
      [\<lparr>gm_appid = 730, gm_msgtype = 8, gm_header = default_gc_header, gm_body = [1]\<rparr>,
       \<lparr>gm_appid = 730, gm_msgtype = 8, gm_header = default_gc_header, gm_body = [2]\<rparr>]"
    by (simp add: reply_gc_env_def at_time_def idle_coordinator_def idle_handle_def)
  with spec show ?thesis by simp
qed
section \<open>Announcing again\<close>

text \<open>The frame that tells Steam which app is being played, and the inputs after which it is due.\<close>

definition announce_frame :: "gc_wire \<Rightarrow> u32 \<Rightarrow> u32 \<times> bytes" where
  "announce_frame G appid =
     (EMSG_CLIENT_GAMES_PLAYED, gw_enc_games_played G \<lparr>gp_game_ids = [Some (ucast appid)]\<rparr>)"

definition announces :: "u32 \<times> bytes \<Rightarrow> bool" where
  "announces f \<longleftrightarrow> fst f = EMSG_CLIENT_GAMES_PLAYED"

definition relaunches :: "pump_input \<Rightarrow> bool" where
  "relaunches i \<longleftrightarrow> (case i of StateChanged (Some st) \<Rightarrow> is_ready st | _ \<Rightarrow> False)"

text \<open>Whether the write of a channel succeeds; on a session that is reconnecting it does not.\<close>

definition written :: "env \<Rightarrow> channel \<Rightarrow> bool" where
  "written E ch \<longleftrightarrow> (\<exists>t. en_answers E ch = Some (t, Ack (Inr ())))"

lemma launch_sent:
  assumes "\<forall>ch. en_running E ch" "writes_finish E"
  shows "map command_frame (h_sent (snd (launch G E h appid v))) =
    map command_frame (h_sent h) @ announce_frame G appid # (if written E (h_next h) then [hello_frame G appid v] else [])"
proof -
  let ?n = "notify E h EMSG_CLIENT_GAMES_PLAYED (gw_enc_games_played G \<lparr>gp_game_ids = [Some (ucast appid)]\<rparr>)"
  have run: "en_running E ch" for ch using assms(1) by simp
  obtain t a where a: "en_answers E (h_next h) = Some (t, a)" using assms(2) run unfolding writes_finish_def by fastforce
  obtain r h1 where n: "?n = (r, h1)" by fastforce
  have "map command_frame (h_sent h1) = map command_frame (h_sent h) @ [announce_frame G appid]"
    using notify_sent(1) [of E h EMSG_CLIENT_GAMES_PLAYED "snd (announce_frame G appid)"] run n
    by (simp add: announce_frame_def)
  moreover have "x = Inr () \<or> (\<exists>e. x = Inl e)" for x :: "unit result" by (cases x) simp_all
  then have "if written E (h_next h) then r = Ready (Inr ()) else (\<exists>e. r = Ready (Inl e))"
    using n a run by (cases a) (auto simp: notify_def queue_command_def written_def Let_def split: sum.splits)
  ultimately show ?thesis by (auto simp: launch_def n Let_def send_hello_sent run split: if_splits)
qed

lemma pump_step_announces:
  assumes "\<forall>ch. en_running E ch" "writes_finish E" "pu_running p" "\<not> pu_blocked p"
  shows "relaunches i \<Longrightarrow>
      sent_frames (pump_step G E appid v p i) = sent_frames p @
        announce_frame G appid # (if written E (h_next (pu_session p)) then [hello_frame G appid v] else [])"
    and "\<not> relaunches i \<Longrightarrow>
      filter announces (sent_frames (pump_step G E appid v p i)) = filter announces (sent_frames p)"
proof -
  show "sent_frames (pump_step G E appid v p i) = sent_frames p @
      announce_frame G appid # (if written E (h_next (pu_session p)) then [hello_frame G appid v] else [])"
    if "relaunches i"
    using that assms(3, 4) launch_sent [OF assms(1, 2)]
    by (auto simp: relaunches_def pump_step_def on_state_change_def lose_ready_def sent_frames_def Let_def
        split: pump_input.splits option.splits)
  have hello: "\<not> announces (hello_frame G appid v)"
    by (simp add: announces_def hello_frame_def emsg_defs)
  show "filter announces (sent_frames (pump_step G E appid v p i)) = filter announces (sent_frames p)"
    if "\<not> relaunches i"
  proof (cases i)
    case (StateChanged changed)
    then show ?thesis using that assms(3, 4)
      by (auto simp: relaunches_def pump_step_def on_state_change_def lose_ready_def sent_frames_def Let_def
          split: option.split)
  next
    case Tick
    then show ?thesis using assms(3, 4) hello
      by (auto simp: pump_step_def on_tick_def sent_frames_def send_hello_sent Let_def)
  next
    case (Received ev)
    have "pu_session (on_received G appid ev p) = pu_session p"
    proof (cases "ev = Closed")
      case False
      then show ?thesis by (simp add: on_received_relayed on_gc_message_keeps split: option.split)
    qed (simp add: on_received_def)
    then show ?thesis using Received assms(3, 4) by (simp add: pump_step_def sent_frames_def)
  qed (use assms in \<open>simp_all add: pump_step_def sent_frames_def\<close>)
qed

lemma run_pump_announces:
  assumes "\<forall>ch. en_running E ch" "writes_finish E" "\<forall>i \<in> set is. \<not> ends_pump i"
  shows "filter announces (sent_frames (run_pump G E appid v (start_pump h) is)) =
    filter announces (map command_frame (h_sent h)) @ replicate (length (filter relaunches is)) (announce_frame G appid)"
  using assms(3)
proof (induction "is" rule: rev_induct)
  case Nil
  show ?case by (simp add: run_pump_def start_pump_def sent_frames_def)
next
  case (snoc i "is")
  let ?p = "run_pump G E appid v (start_pump h) is"
  have "pu_running ?p" "\<not> pu_blocked ?p"
    using run_pump_live [OF assms(2), of "is" G appid v h] snoc.prems
    by (simp_all add: pump_ok_def)
  moreover have "announces (announce_frame G appid)" "\<not> announces (hello_frame G appid v)"
    by (simp_all add: announces_def announce_frame_def hello_frame_def emsg_defs)
  ultimately show ?case
    using pump_step_announces [OF assms(1, 2), of ?p i G appid v] snoc
    by (cases "relaunches i") (simp_all add: run_pump_def replicate_append_same)
qed

text \<open>C36: Steam forgets the app on every new logon, and the pump tells it again.  As long as the session's driver
  takes commands and answers each of them in some way, also with the failure that it gives while it
  reconnects, the pump announces the app once for each time the session becomes ready and at no other
  time; an announcement that was written is followed at once by a hello, and one whose write failed is
  made again when the session is ready the next time.\<close>

theorem app_reannounced:
  fixes G E appid v h
  assumes "\<forall>ch. en_running E ch" "writes_finish E" "\<forall>i \<in> set inputs. \<not> ends_pump i"
  defines "p \<equiv> \<lambda>is. run_pump G E appid v (start_pump h) is"
  shows "filter announces (sent_frames (p inputs)) =
      filter announces (map command_frame (h_sent h)) @
      replicate (length (filter relaunches inputs)) (announce_frame G appid) \<and>
    (\<forall>st. is_ready st \<longrightarrow>
      sent_frames (p (inputs @ [StateChanged (Some st)])) =
      sent_frames (p inputs) @ announce_frame G appid #
        (if \<exists>t. en_answers E (h_next (pu_session (p inputs))) = Some (t, Ack (Inr ())) then [hello_frame G appid v] else []))"
proof -
  have "pu_running (p inputs)" "\<not> pu_blocked (p inputs)"
    unfolding p_def using run_pump_live [OF assms(2, 3), of G appid v h]
    by (simp_all add: pump_ok_def)
  then have "is_ready st \<Longrightarrow> sent_frames (pump_step G E appid v (p inputs) (StateChanged (Some st))) =
      sent_frames (p inputs) @ announce_frame G appid #
        (if written E (h_next (pu_session (p inputs))) then [hello_frame G appid v] else [])" for st
    by (intro pump_step_announces(1) assms(1, 2)) (simp_all add: relaunches_def)
  then show ?thesis
    using run_pump_announces [OF assms(1-3), of G appid v h] by (simp add: p_def run_pump_def written_def)
qed

text \<open>An environment in which the second write fails, as on a session that reconnects.\<close>

definition reconnecting_env :: env where
  "reconnecting_env = answering_env\<lparr>en_answers := (\<lambda>ch. Some (5, Ack (if ch = 1 then Inl (WebSocket ''session reconnecting'') else Inr ())))\<rparr>"

theorem app_reannounced_witness:
  "filter announces (sent_frames (run_pump sample_gc reconnecting_env 730 1 (start_pump idle_handle)
     [StateChanged (Some Connecting), StateChanged (Some (LoggedOn 7)), Tick, StateChanged (Some (LoggedOn 7))])) =
     replicate 2 (announce_frame sample_gc 730)"
proof -
  have "\<forall>ch. en_running reconnecting_env ch" "writes_finish reconnecting_env"
    by (simp_all add: reconnecting_env_def answering_env_def writes_finish_def)
  from app_reannounced [OF this, of "[StateChanged (Some Connecting), StateChanged (Some (LoggedOn 7)), Tick,
      StateChanged (Some (LoggedOn 7))]" sample_gc 730 1 idle_handle] show ?thesis
    by (simp add: ends_pump_def relaunches_def idle_handle_def numeral_2_eq_2)
qed

end
