(* ===== verification/Cs2.thy ===== *)
theory Cs2
  imports Coordinator
begin

text \<open>
  The CS2 helpers of \<^verbatim>\<open>src/cs2.rs\<close> over the game coordinator: attaching with CS2's app id and hello
  version, and requesting one player's profile, matched on the account id.
\<close>

section \<open>Constants and data\<close>

definition APP_ID :: u32 where "APP_ID = 730"
definition GC_HELLO_VERSION :: u32 where "GC_HELLO_VERSION = 2000244"
definition GC_CLIENT_REQUEST_PLAYERS_PROFILE :: u32 where "GC_CLIENT_REQUEST_PLAYERS_PROFILE = 9127"
definition GC_PLAYERS_PROFILE :: u32 where "GC_PLAYERS_PROFILE = 9128"
definition PROFILE_TIMEOUT :: millis where "PROFILE_TIMEOUT = secs 15"
definition REQUEST_LEVEL :: u32 where "REQUEST_LEVEL = 32"

record player_profile =
  pp_account_id :: u32
  pp_level :: i32
  pp_current_xp :: i32
  pp_competitive_rank :: "u32 option"
  pp_competitive_wins :: "u32 option"
  pp_medals :: "u32 list"
  pp_featured_medal :: "u32 option"

record client_request_players_profile =
  cp_account_id :: "u32 option"
  cp_request_level :: "u32 option"

record player_ranking_info =
  ri_rank_id :: "u32 option"
  ri_wins :: "u32 option"

record player_medals_info =
  mi_display_items_defidx :: "u32 list"
  mi_featured_display_item_defidx :: "u32 option"

record account_profile =
  ap_account_id :: "u32 option"
  ap_player_level :: "i32 option"
  ap_player_cur_xp :: "i32 option"
  ap_ranking :: "player_ranking_info option"
  ap_medals :: "player_medals_info option"

record players_profile =
  pl_account_profiles :: "account_profile list"

section \<open>Operations\<close>

definition cs2_attach :: "gc_wire \<Rightarrow> env \<Rightarrow> handle \<Rightarrow> (coordinator \<times> pump) result poll \<times> handle" where
  "cs2_attach G E session = attach G E session APP_ID GC_HELLO_VERSION"

definition profile_from :: "u32 \<Rightarrow> account_profile \<Rightarrow> player_profile" where
  "profile_from account_id profile =
     (let ranking = ap_ranking profile;
          (medals, featured) = (case ap_medals profile of
             Some m \<Rightarrow> (mi_display_items_defidx m, mi_featured_display_item_defidx m)
           | None \<Rightarrow> ([], None))
      in \<lparr>pp_account_id = account_id,
          pp_level = unwrap_or 0 (ap_player_level profile),
          pp_current_xp = unwrap_or 0 (ap_player_cur_xp profile),
          pp_competitive_rank = Option.bind ranking ri_rank_id,
          pp_competitive_wins = Option.bind ranking ri_wins,
          pp_medals = medals,
          pp_featured_medal = featured\<rparr>)"

definition request_player_profile ::
    "gc_wire \<Rightarrow> env \<Rightarrow> gc_env \<Rightarrow> (client_request_players_profile \<Rightarrow> bytes) \<Rightarrow>
     (bytes \<Rightarrow> string + players_profile) \<Rightarrow> coordinator \<Rightarrow> u32 \<Rightarrow> player_profile result poll \<times> coordinator" where
  "request_player_profile G E V enc dec c account_id =
     (if co_appid c \<noteq> APP_ID
      then (Ready (Inl (InvalidConfig (''GameCoordinator is attached to app '' @ show_word (co_appid c) @
              '', not CS2 ('' @ show_word APP_ID @ '')''))), c)
      else
        let req = \<lparr>cp_account_id = Some account_id, cp_request_level = Some REQUEST_LEVEL\<rparr>;
            mine = (\<lambda>p. ap_account_id p = Some account_id)
        in case request_matching G E V c GC_CLIENT_REQUEST_PLAYERS_PROFILE (enc req) GC_PLAYERS_PROFILE
                  PROFILE_TIMEOUT dec (\<lambda>r. list_ex mine (pl_account_profiles r)) of
             (Pending, c) \<Rightarrow> (Pending, c)
           | (Ready response, c) \<Rightarrow>
               (Ready (and_then response (\<lambda>r.
                  and_then (ok_or (Network (''GC PlayersProfile carried no profile for account '' @
                                     show_word account_id))
                              (find mine (pl_account_profiles r)))
                    (\<lambda>profile. Inr (profile_from account_id profile)))), c))"

definition account_id_from_steam_id :: "u64 \<Rightarrow> u32" where
  "account_id_from_steam_id sid = ucast sid"

section \<open>Properties\<close>

lemma take_matching_ok:
  "take_matching t dec accept m = Some (Inr r) \<Longrightarrow> accept r \<and> dec (gm_body m) = Inr r \<and> gm_msgtype m = t"
  by (auto simp: take_matching_def split: if_splits sum.splits)

lemma request_matching_accepted:
  assumes "fst (request_matching G E V c send_type body t deadline dec accept) = Ready (Inr r)"
  shows "accept r"
proof -
  have wait: "accept r" if "fst (wait_event (take_matching t dec accept) x y now d rx) = Inr r" for x y now d rx
  proof -
    from that have "Inr r \<in> set (List.map_filter (take_matching t dec accept) (heard d rx))"
      unfolding wait_event_ok_iff by (metis hd_in_set)
    then show ?thesis
      using take_matching_ok [of t dec accept] by (fastforce simp: List.map_filter_def)
  qed
  from assms show ?thesis
    by (auto simp: request_matching_def Let_def case_prod_beta split: sum.splits poll.splits
        intro: wait)
qed

lemma find_of_list_ex: "list_ex P xs \<Longrightarrow> \<exists>x. find P xs = Some x \<and> P x \<and> x \<in> set xs"
  by (induction xs) auto

text \<open>a returned CS2 profile is the requested account's own: a coordinator of another app is refused,
  and otherwise a reply the match accepts yields the profile of an entry that carries the account id,
  never the error for a reply without one; whatever else ends the request is passed on.\<close>

theorem request_player_profile_own:
  fixes G E V enc dec c account_id
  defines "call \<equiv> fst (request_matching G E V c 9127
      (enc \<lparr>cp_account_id = Some account_id, cp_request_level = Some 32\<rparr>) 9128 15000 dec
      (\<lambda>r. list_ex (\<lambda>p. ap_account_id p = Some account_id) (pl_account_profiles r)))"
    and "result \<equiv> fst (request_player_profile G E V enc dec c account_id)"
  shows "if co_appid c \<noteq> 730 then \<exists>t. result = Ready (Inl (InvalidConfig t))
    else case call of
      Pending \<Rightarrow> result = Pending
    | Ready (Inl e) \<Rightarrow> result = Ready (Inl e)
    | Ready (Inr r) \<Rightarrow> \<exists>entry. entry \<in> set (pl_account_profiles r) \<and> ap_account_id entry = Some account_id \<and>
        result = Ready (Inr (profile_from account_id entry))"
proof (cases "co_appid c = 730")
  case True
  let ?mine = "\<lambda>p. ap_account_id p = Some account_id"
  have result: "result = (case call of Pending \<Rightarrow> Pending
      | Ready response \<Rightarrow> Ready (and_then response (\<lambda>r.
          and_then (ok_or (Network (''GC PlayersProfile carried no profile for account '' @ show_word account_id))
                      (find ?mine (pl_account_profiles r)))
            (\<lambda>profile. Inr (profile_from account_id profile)))))"
    using True unfolding result_def call_def request_player_profile_def GC_CLIENT_REQUEST_PLAYERS_PROFILE_def
      GC_PLAYERS_PROFILE_def PROFILE_TIMEOUT_def REQUEST_LEVEL_def APP_ID_def
    by (simp add: Let_def split: prod.split poll.split)
  have "\<exists>entry. find ?mine (pl_account_profiles r) = Some entry \<and> ?mine entry \<and> entry \<in> set (pl_account_profiles r)"
    if "call = Ready (Inr r)" for r
    using find_of_list_ex request_matching_accepted [OF that [unfolded call_def]] by blast
  then show ?thesis using True by (fastforce simp: result split: poll.split sum.split)
qed (simp add: result_def request_player_profile_def APP_ID_def)

end
