(* ===== verification/Gc_Run.thy ===== *)
theory Gc_Run
  imports Session_Run Cs2 "HOL-Library.Sublist"
begin

text \<open>
  A game coordinator attached to a running session: the driver of \<^verbatim>\<open>src/session/driver.rs\<close> and the pump
  of \<^verbatim>\<open>src/gc/coordinator.rs\<close> as one system.  The two tasks take their steps in any order; the pump
  reads the driver's broadcast channel at its own pace, follows the watched state, and is told that it
  lags once more messages wait for it than the channel holds; a caller's subscription to the pump has its
  own, smaller channel.  Two things are left open on purpose, so
  that what is shown holds however they go: the watched state may be noticed at any time, and the
  pump's own writes are answered by an arbitrary environment.
\<close>

section \<open>The joint system\<close>

text \<open>The driver, the pump, how much of the broadcast the pump has received, and how many messages it
  has lost to lag.\<close>

record gc_system =
  gs_driver :: driver
  gs_pump :: pump
  gs_received :: nat
  gs_lost :: nat

text \<open>\<^verbatim>\<open>attach\<close> subscribes and spawns the pump.\<close>

definition attached :: "driver \<Rightarrow> handle \<Rightarrow> gc_system" where
  "attached d h = \<lparr>gs_driver = d, gs_pump = start_pump h, gs_received = length (d_events d), gs_lost = 0\<rparr>"

definition polling :: "gc_system \<Rightarrow> bool" where
  "polling s \<longleftrightarrow> pu_running (gs_pump s) \<and> \<not> pu_blocked (gs_pump s)"

inductive gc_step :: "wire \<Rightarrow> gc_wire \<Rightarrow> env \<Rightarrow> u32 \<Rightarrow> u32 \<Rightarrow> gc_system \<Rightarrow> gc_system \<Rightarrow> bool"
  for W G E appid v where
  drive: "driver_step W (gs_driver s) d \<Longrightarrow> gc_step W G E appid v s (s\<lparr>gs_driver := d\<rparr>)"
| relay: "polling s \<Longrightarrow> gs_received s < length (d_events (gs_driver s)) \<Longrightarrow>
    gc_step W G E appid v s
      (s\<lparr>gs_pump := pump_step G E appid v (gs_pump s) (Received (RecvOk (d_events (gs_driver s) ! gs_received s))),
         gs_received := Suc (gs_received s)\<rparr>)"
| lag: "polling s \<Longrightarrow> gs_received s + EVENT_CAPACITY < length (d_events (gs_driver s)) \<Longrightarrow>
    gs_received s < n \<Longrightarrow> n \<le> length (d_events (gs_driver s)) \<Longrightarrow>
    gc_step W G E appid v s
      (s\<lparr>gs_pump := pump_step G E appid v (gs_pump s) (Received (Lagged (of_nat (n - gs_received s)))),
         gs_received := n, gs_lost := gs_lost s + (n - gs_received s)\<rparr>)"
| watch: "polling s \<Longrightarrow>
    gc_step W G E appid v s
      (s\<lparr>gs_pump := pump_step G E appid v (gs_pump s) (StateChanged (Some (d_state (gs_driver s))))\<rparr>)"
| session_gone: "polling s \<Longrightarrow> d_phase (gs_driver s) = Ended r \<Longrightarrow>
    gc_step W G E appid v s (s\<lparr>gs_pump := pump_step G E appid v (gs_pump s) (StateChanged None)\<rparr>)"
| timer: "polling s \<Longrightarrow> gc_step W G E appid v s (s\<lparr>gs_pump := pump_step G E appid v (gs_pump s) Tick\<rparr>)"
| passing: "polling s \<Longrightarrow> gc_step W G E appid v s (s\<lparr>gs_pump := pump_step G E appid v (gs_pump s) (Elapsed t)\<rparr>)"
| detach: "polling s \<Longrightarrow> gc_step W G E appid v s (s\<lparr>gs_pump := pump_step G E appid v (gs_pump s) ClonesDropped\<rparr>)"

inductive_cases gc_stepE: "gc_step W G E appid v s t"

section \<open>What the pump passes on\<close>

definition relay_of :: "gc_wire \<Rightarrow> u32 \<Rightarrow> steam_message \<Rightarrow> gc_message option" where
  "relay_of G appid m = relayed G appid (Received (RecvOk m))"

lemma pump_step_out:
  assumes "pu_running p" "\<not> pu_blocked p"
  shows "pu_events_out (pump_step G E appid v p i) =
    pu_events_out p @ (case relayed G appid i of None \<Rightarrow> [] | Some m \<Rightarrow> [m])"
proof (cases i)
  case (Received ev)
  show ?thesis
  proof (cases "ev = Closed")
    case True
    with Received assms show ?thesis by (simp add: pump_step_def on_received_def relayed_def)
  next
    case False
    with Received assms on_received_relayed [OF False, of G appid p] show ?thesis
      by (auto simp: pump_step_def on_gc_message_keeps split: option.split)
  qed
next
  case (StateChanged st)
  with assms show ?thesis
    by (cases st) (simp_all add: pump_step_def on_state_change_def relayed_def lose_ready_def Let_def)
qed (use assms in \<open>simp_all add: pump_step_def on_tick_def relayed_def Let_def\<close>)

lemma events_grow: "driver_step W d d' \<Longrightarrow> \<exists>evs. d_events d' = d_events d @ evs"
proof -
  assume step: "driver_step W d d'"
  show ?thesis
  proof (cases "steady_step W d d'")
    case True
    then show ?thesis using steady_step_publishes [of W d d'] by (auto simp: publishes_def)
  next
    case False
    with step obtain b where "d_phase d = Attempting b" "\<exists>hb sw. d_phase d' = Connected hb sw" by (auto simp: steady_step_def)
    with step show ?thesis
      by (cases rule: driver_step.cases) (auto simp: on_attempt_def into_parts_def enter_connected_def finish_def Let_def
          command_while_down_events dest: recv_command_events split: sum.splits if_splits prod.splits)
  qed
qed

text \<open>The messages for the app among those broadcast at the positions from \<open>a\<close> up to \<open>b\<close>.\<close>

definition app_messages :: "gc_wire \<Rightarrow> u32 \<Rightarrow> driver \<Rightarrow> nat \<Rightarrow> nat \<Rightarrow> gc_message list" where
  "app_messages G appid d a b = List.map_filter (relay_of G appid) (drop a (take b (d_events d)))"

definition relay_inv :: "gc_wire \<Rightarrow> u32 \<Rightarrow> gc_system \<Rightarrow> gc_system \<Rightarrow> bool" where
  "relay_inv G appid s0 s \<longleftrightarrow>
     gs_received s0 \<le> gs_received s \<and> gs_received s \<le> length (d_events (gs_driver s)) \<and> gs_lost s0 \<le> gs_lost s \<and>
     (\<exists>out. pu_events_out (gs_pump s) = pu_events_out (gs_pump s0) @ out \<and>
        subseq out (app_messages G appid (gs_driver s) (gs_received s0) (gs_received s)) \<and>
        (gs_lost s = gs_lost s0 \<longrightarrow> out = app_messages G appid (gs_driver s) (gs_received s0) (gs_received s)))"

lemma app_messages_grow:
  "b \<le> length (d_events d) \<Longrightarrow> d_events d' = d_events d @ evs \<Longrightarrow> app_messages G appid d' a b = app_messages G appid d a b"
  by (simp add: app_messages_def)

lemma app_messages_Suc:
  assumes "a \<le> b" "b < length (d_events d)"
  shows "app_messages G appid d a (Suc b) =
    app_messages G appid d a b @ (case relay_of G appid (d_events d ! b) of None \<Rightarrow> [] | Some m \<Rightarrow> [m])"
  using assms by (simp add: app_messages_def take_Suc_conv_app_nth map_filter_snoc)

lemma app_messages_more:
  assumes "a \<le> b" "b \<le> c" "c \<le> length (d_events d)"
  shows "app_messages G appid d a c = app_messages G appid d a b @ app_messages G appid d b c"
proof -
  let ?ys = "take c (d_events d)"
  have "take b ?ys = take b (d_events d)" using assms by (simp add: min.absorb1)
  moreover have "drop a ?ys = drop a (take b ?ys) @ drop b ?ys"
    using assms arg_cong [OF append_take_drop_id [of b ?ys, symmetric], of "drop a"] by simp
  ultimately show ?thesis by (simp add: app_messages_def List.map_filter_def)
qed

lemma relay_inv_pump:
  assumes "relay_inv G appid s0 s" "pu_events_out p = pu_events_out (gs_pump s)"
  shows "relay_inv G appid s0 (s\<lparr>gs_pump := p\<rparr>)"
  using assms by (simp add: relay_inv_def)

lemma relay_inv_step:
  assumes "gc_step W G E appid v s t" "relay_inv G appid s0 s"
  shows "relay_inv G appid s0 t"
  using assms(1)
proof (cases rule: gc_step.cases)
  case (drive d)
  obtain evs where "d_events d = d_events (gs_driver s) @ evs" using events_grow [OF drive(2)] by blast
  with assms(2) drive(1) app_messages_grow [OF _ this] show ?thesis by (simp add: relay_inv_def)
next
  case relay
  let ?m = "d_events (gs_driver s) ! gs_received s"
  have "pu_events_out (gs_pump t) =
      pu_events_out (gs_pump s) @ (case relay_of G appid ?m of None \<Rightarrow> [] | Some m \<Rightarrow> [m])"
    using pump_step_out [of "gs_pump s"] relay(1, 2) by (simp add: polling_def relay_of_def)
  with assms(2) relay app_messages_Suc [of "gs_received s0" "gs_received s" "gs_driver s" G appid] show ?thesis
    by (auto simp: relay_inv_def)
next
  case (lag n)
  have "pu_events_out (gs_pump t) = pu_events_out (gs_pump s)"
    using pump_step_out [of "gs_pump s"] lag by (simp add: polling_def relayed_def)
  with assms(2) lag app_messages_more [of "gs_received s0" "gs_received s" n "gs_driver s" G appid] show ?thesis
    by (auto simp: relay_inv_def intro: subseq_rev_drop_many)
next
  case watch
  then show ?thesis using relay_inv_pump [OF assms(2)] pump_step_out [of "gs_pump s"] by (simp add: polling_def relayed_def)
next
  case (session_gone r)
  then show ?thesis using relay_inv_pump [OF assms(2)] pump_step_out [of "gs_pump s"] by (simp add: polling_def relayed_def)
next
  case timer
  then show ?thesis using relay_inv_pump [OF assms(2)] pump_step_out [of "gs_pump s"] by (simp add: polling_def relayed_def)
next
  case (passing n)
  then show ?thesis using relay_inv_pump [OF assms(2)] pump_step_out [of "gs_pump s"] by (simp add: polling_def relayed_def)
next
  case detach
  then show ?thesis using relay_inv_pump [OF assms(2)] pump_step_out [of "gs_pump s"] by (simp add: polling_def relayed_def)
qed

lemma relay_inv_refl: "gs_received s \<le> length (d_events (gs_driver s)) \<Longrightarrow> relay_inv G appid s s"
  by (simp add: relay_inv_def app_messages_def List.map_filter_simps)

interpretation relaying: invariant "(=) s0" "gc_step W G E appid v"
    "\<lambda>s. gs_received s0 \<le> length (d_events (gs_driver s0)) \<longrightarrow> relay_inv G appid s0 s" for s0 W G E appid v
  by unfold_locales (auto intro: relay_inv_refl relay_inv_step)

text \<open>C13: an attached coordinator, however its pump and the driver interleave, passes on the messages that
  the driver has broadcast for its app since it subscribed: in order, none twice and none invented,
  and all that it has received unless it fell more than 256 messages behind.\<close>

theorem relay_faithful:
  assumes "(gc_step W G E appid v)\<^sup>*\<^sup>* (attached d h) s"
  shows "let app = app_messages G appid (gs_driver s) (length (d_events d)) (gs_received s);
      out = pu_events_out (gs_pump s)
    in subseq out app \<and> (gs_lost s = 0 \<longrightarrow> out = app)"
proof -
  have "relay_inv G appid (attached d h) s"
    using relaying.inv_steps [OF _ assms] relay_inv_refl [of "attached d h"] by (simp add: attached_def)
  then show ?thesis by (auto simp: relay_inv_def attached_def start_pump_def Let_def)
qed

section \<open>A profile, from the session to the caller\<close>

text \<open>What a coordinator's clones see between two states of the system: readiness at the first, and what
  a subscription \<open>rx\<close> made at the first receives.\<close>

definition coordinator_env :: "gc_system \<Rightarrow> gc_message receiver \<Rightarrow> gc_system \<Rightarrow> gc_env" where
  "coordinator_env s rx s' =
     \<lparr>ge_ready = (\<lambda>_. pu_ready_tx (gs_pump s)),
      ge_changes = (\<lambda>_. [(d_now (gs_driver s'), RecvOk (pu_ready_tx (gs_pump s')))]),
      ge_events = (\<lambda>_. rx)\<rparr>"

text \<open>The subscription is to a channel of \<^const>\<open>GC_EVENT_CAPACITY\<close> messages, into which the pump puts what it passes
  on; all of this is received by the time of the second state, except for what the channel drops.\<close>

definition subscribed :: "gc_system \<Rightarrow> gc_message receiver \<Rightarrow> gc_system \<Rightarrow> bool" where
  "subscribed s rx s' \<longleftrightarrow>
     receives GC_EVENT_CAPACITY (drop (length (pu_events_out (gs_pump s))) (pu_events_out (gs_pump s')))
       (d_now (gs_driver s')) rx"

lemma passed_on:
  assumes "(gc_step W G E appid v)\<^sup>*\<^sup>* (attached d h) s" "(gc_step W G E appid v)\<^sup>*\<^sup>* s s'" "gs_lost s' = gs_lost s"
  shows "drop (length (pu_events_out (gs_pump s))) (pu_events_out (gs_pump s')) =
    app_messages G appid (gs_driver s') (gs_received s) (gs_received s')"
proof -
  have "relay_inv G appid (attached d h) s"
    using relaying.inv_steps [OF _ assms(1)] relay_inv_refl [of "attached d h"] by (simp add: attached_def)
  then have "gs_received s \<le> length (d_events (gs_driver s))" by (simp add: relay_inv_def)
  then have "relay_inv G appid s s'" using relaying.inv_steps [OF _ assms(2)] relay_inv_refl by blast
  then show ?thesis using assms(3) by (auto simp: relay_inv_def)
qed

lemma matched_over_session:
  fixes dec accept
  assumes "(gc_step W G E appid v)\<^sup>*\<^sup>* (attached d h) s" "(gc_step W G E appid v)\<^sup>*\<^sup>* s s'" "gs_lost s' = gs_lost s"
    and "pu_ready_tx (gs_pump s)" "at_time c = d_now (gs_driver s)" "d_now (gs_driver s') \<le> d_now (gs_driver s) + deadline"
    and "h_next (co_session c) < d_next_channel (gs_driver s')"
    and "map_of (d_answers (gs_driver s')) (h_next (co_session c)) = Some (Ack (Inr ()))"
    and "subscribed s rx s'" "length (app_messages G appid (gs_driver s') (gs_received s) (gs_received s')) \<le> GC_EVENT_CAPACITY"
    and "find (\<lambda>m. gm_msgtype m = t \<and> (\<forall>r. dec (gm_body m) = Inr r \<longrightarrow> accept r))
      (app_messages G appid (gs_driver s') (gs_received s) (gs_received s')) = Some m" "dec (gm_body m) = Inr x"
  shows "fst (request_matching G (session_env (gs_driver s) look ev (gs_driver s')) (coordinator_env s rx s') c send_type body t
    deadline dec accept) = Ready (Inr x)"
proof -
  let ?E = "session_env (gs_driver s) look ev (gs_driver s')" and ?V = "coordinator_env s rx s'"
  let ?t = "d_now (gs_driver s') - d_now (gs_driver s)" and ?ms = "app_messages G appid (gs_driver s') (gs_received s) (gs_received s')"
  have ready: "wait_ready ?V c deadline = (Inr (), c)" using assms(4) by (simp add: wait_ready_def coordinator_env_def)
  have ack: "en_running ?E (h_next (co_session c))" "en_answers ?E (h_next (co_session c)) = Some (?t, Ack (Inr ()))"
    using assms(7, 8) by (simp_all add: session_env_def)
  have "receives GC_EVENT_CAPACITY ?ms (d_now (gs_driver s')) rx"
    using assms(9) unfolding subscribed_def passed_on [OF assms(1-3)] .
  from receives_heard [OF this assms(10), of "at_time c + deadline + ?t"] obtain later where
    "heard (at_time c + deadline + ?t) (ge_events ?V (at_time c)) = ?ms @ later"
    using assms(5, 6) by (auto simp: coordinator_env_def)
  with assms(11, 12) show ?thesis
    unfolding request_matching_written(1) [OF ready ack] wait_event_find [OF take_matching_find]
    by (simp add: find_append)
qed

text \<open>C14: a profile reaches its caller.  If a reply for the account is the first that matches among the
  messages the driver has broadcast since the request subscribed, the pump has received them without
  lag, and it has passed on no more than the 64 messages that the channel to its callers holds, then
  \<^verbatim>\<open>request_player_profile\<close> returns the entry of that account, whatever else the driver and the pump did
  meanwhile.\<close>

theorem profile_over_session:
  assumes "(gc_step W G E 730 v)\<^sup>*\<^sup>* (attached d h) s" "(gc_step W G E 730 v)\<^sup>*\<^sup>* s s'" "gs_lost s' = gs_lost s"
    and "pu_ready_tx (gs_pump s)" "at_time c = d_now (gs_driver s)" "d_now (gs_driver s') \<le> d_now (gs_driver s) + 15000"
    and "co_appid c = 730" "h_next (co_session c) < d_next_channel (gs_driver s')"
    and "map_of (d_answers (gs_driver s')) (h_next (co_session c)) = Some (Ack (Inr ()))"
    and "subscribed s rx s'" "length (app_messages G 730 (gs_driver s') (gs_received s) (gs_received s')) \<le> 64"
    and "find (\<lambda>m. gm_msgtype m = 9128 \<and> (\<forall>r. dec (gm_body m) = Inr r \<longrightarrow>
        (\<exists>p \<in> set (pl_account_profiles r). ap_account_id p = Some account)))
      (app_messages G 730 (gs_driver s') (gs_received s) (gs_received s')) = Some m" "dec (gm_body m) = Inr r"
  shows "\<exists>entry \<in> set (pl_account_profiles r). ap_account_id entry = Some account \<and>
    fst (request_player_profile G (session_env (gs_driver s) look ev (gs_driver s')) (coordinator_env s rx s') enc dec c account) =
      Ready (Inr (profile_from account entry))"
proof -
  have "length (app_messages G 730 (gs_driver s') (gs_received s) (gs_received s')) \<le> GC_EVENT_CAPACITY"
    using assms(11) by (simp add: GC_EVENT_CAPACITY_def)
  note m = matched_over_session [OF assms(1-6, 8-10) this, where accept = "\<lambda>r. list_ex (\<lambda>p. ap_account_id p = Some account)
      (pl_account_profiles r)" and t = 9128 and dec = dec, unfolded list_ex_iff, OF assms(12, 13)]
  show ?thesis
    using request_player_profile_own [of c G "session_env (gs_driver s) look ev (gs_driver s')" "coordinator_env s rx s'" enc dec account] assms(7)
    by (simp add: list_ex_iff m) blast
qed

section \<open>Witnesses\<close>

lemma sample_idle_read: "d_read sample_driver = []"
  by (simp add: sample_driver_def spawn_driver_def sample_session_def into_parts_def sample_conn_def enter_connected_def)

text \<open>A frame from the coordinator that arrives on an idle connection is broadcast.\<close>

definition gc_arrived :: "driver \<Rightarrow> u32 \<Rightarrow> bytes \<Rightarrow> driver" where
  "gc_arrived d t b = publish (d\<lparr>d_liveness := d_now d\<rparr>) (from_gc t b)"

lemma gc_arrived_simps [simp]:
  "d_events (gc_arrived d t b) = d_events d @ [from_gc t b]" "d_phase (gc_arrived d t b) = d_phase d"
  "d_read (gc_arrived d t b) = d_read d" "d_inbox (gc_arrived d t b) = d_inbox d" "d_answers (gc_arrived d t b) = d_answers d"
  "d_next_channel (gc_arrived d t b) = d_next_channel d" "d_now (gc_arrived d t b) = d_now d"
  "d_handles (gc_arrived d t b) = d_handles d" "d_commands (gc_arrived d t b) = d_commands d" "d_write (gc_arrived d t b) = d_write d"
  by (simp_all add: gc_arrived_def publish_def)

lemma gc_arrives:
  assumes "d_phase d = Connected hb sw" "d_read d = []" "d_inbox d = []"
  shows "(driver_step sample_wire)\<^sup>*\<^sup>* d (gc_arrived d t b)"
proof -
  let ?f = "frame 5453 [] (sm_body (from_gc t b))"
  let ?d = "d\<lparr>d_read := d_read d @ [(d_now d, WsItem (WsBinary ?f))]\<rparr>"
  have "try_decode (w_dec_header sample_wire) ?f = Inr (Some (from_gc t b))"
    using try_decode_frame [where hb = "[]" and dec = "w_dec_header sample_wire" and m = 5453]
    by (simp add: EMSG_MASK_def PROTO_MASK_def from_gc_def)
  then have "read_message sample_wire (read_now ?d) (d_inbox ?d) (d_liveness ?d) = (Ready (Inr (from_gc t b)), [], [], d_now d)"
    using assms by (simp add: read_now_def read_message.simps [of _ _ "[]"] touch_def from_gc_def)
  moreover have "d\<lparr>d_read := [], d_inbox := [], d_liveness := l\<rparr> = d\<lparr>d_liveness := l\<rparr>" for l
    using assms(2, 3) by (cases d) simp
  moreover have "dispatch (d\<lparr>d_liveness := d_now d\<rparr>) (from_gc t b) = gc_arrived d t b"
    unfolding gc_arrived_def by (rule dispatch_unrouted) (simp add: routed_def from_gc_def default_header_def)
  moreover have "sm_emsg (from_gc t b) \<noteq> EMSG_CLIENT_LOGGED_OFF" by (simp add: from_gc_def)
  ultimately have "poll_read sample_wire ?d = gc_arrived d t b"
    by (simp add: poll_read_def step_on_def on_message_def)
  moreover have "driver_step sample_wire d ?d" by (rule arrive [OF assms(1)])
  moreover have "driver_step sample_wire ?d (poll_read sample_wire ?d)" by (rule message) (simp add: assms(1))
  ultimately show ?thesis by (metis rtranclp.rtrancl_into_rtrancl rtranclp.rtrancl_refl)
qed

lemma drive_run:
  "(driver_step W)\<^sup>*\<^sup>* (gs_driver s) d \<Longrightarrow> (gc_step W G E appid v)\<^sup>*\<^sup>* s (s\<lparr>gs_driver := d\<rparr>)"
proof (induction rule: rtranclp_induct)
  case base
  show ?case by simp
next
  case (step y z)
  have "gc_step W G E appid v (s\<lparr>gs_driver := y\<rparr>) (s\<lparr>gs_driver := y\<rparr>\<lparr>gs_driver := z\<rparr>)"
    by (rule drive) (simp add: step(2))
  with step(3) show ?case by (simp add: rtranclp.rtrancl_into_rtrancl)
qed

text \<open>A coordinator that is welcomed, and then asked for a profile that arrives.\<close>

definition welcomed_system :: gc_system where
  "welcomed_system =
     \<lparr>gs_driver = gc_arrived sample_driver 4004 [],
      gs_pump = pump_step sample_gc answering_env 730 1 (start_pump idle_handle) (Received (RecvOk (from_gc 4004 []))),
      gs_received = 1, gs_lost = 0\<rparr>"

lemma welcomed_run: "(gc_step sample_wire sample_gc answering_env 730 1)\<^sup>*\<^sup>* (attached sample_driver idle_handle) welcomed_system"
proof -
  let ?s = "attached sample_driver idle_handle"
  have "(gc_step sample_wire sample_gc answering_env 730 1)\<^sup>*\<^sup>* ?s (?s\<lparr>gs_driver := gc_arrived sample_driver 4004 []\<rparr>)"
    using gc_arrives [of sample_driver] sample_idle_read by (intro drive_run) (simp add: attached_def)
  moreover have "gc_step sample_wire sample_gc answering_env 730 1 (?s\<lparr>gs_driver := gc_arrived sample_driver 4004 []\<rparr>) welcomed_system"
    using relay [of "?s\<lparr>gs_driver := gc_arrived sample_driver 4004 []\<rparr>" sample_wire sample_gc answering_env 730 1]
    by (simp add: polling_def attached_def start_pump_def welcomed_system_def)
  ultimately show ?thesis by (rule rtranclp.rtrancl_into_rtrancl)
qed

lemma gc_mask: "(4004 :: u32) AND EMSG_MASK = 4004" "(9128 :: u32) AND EMSG_MASK = 9128"
  by (simp_all add: EMSG_MASK_def PROTO_MASK_def)

theorem relay_faithful_witness:
  "pu_events_out (gs_pump welcomed_system) =
     [\<lparr>gm_appid = 730, gm_msgtype = 4004, gm_header = default_gc_header, gm_body = []\<rparr>]"
  using relay_faithful [OF welcomed_run]
  by (simp add: Let_def welcomed_system_def app_messages_def relay_of_def relayed_from_gc
      List.map_filter_simps gc_mask)

text \<open>The request's frame is written and acknowledged, and the reply arrives: one account with an entry of its own.\<close>

definition sample_profiles :: "bytes \<Rightarrow> string + players_profile" where
  "sample_profiles b =
     Inr \<lparr>pl_account_profiles = map (\<lambda>x. \<lparr>ap_account_id = Some (ucast x), ap_player_level = Some (uint x),
        ap_player_cur_xp = None, ap_ranking = None, ap_medals = None\<rparr>) b\<rparr>"

definition noted_driver :: driver where
  "noted_driver =
     snd (on_command sample_wire ((gs_driver welcomed_system)\<lparr>d_next_channel := 1\<rparr>) (Some (Notify 5452 [] 0)))"

definition profiled_system :: gc_system where
  "profiled_system =
     \<lparr>gs_driver = gc_arrived noted_driver 9128 [5],
      gs_pump = pump_step sample_gc answering_env 730 1 (gs_pump welcomed_system) (Received (RecvOk (from_gc 9128 [5]))),
      gs_received = 2, gs_lost = 0\<rparr>"

lemma noted_simps:
  "on_command sample_wire ((gs_driver welcomed_system)\<lparr>d_next_channel := 1\<rparr>) (Some (Notify 5452 [] 0)) = (None, noted_driver)"
  "d_events noted_driver = [from_gc 4004 []]" "d_phase noted_driver = Connected 9009 1009" "d_read noted_driver = []"
  "d_inbox noted_driver = []" "d_answers noted_driver = [(0, Ack (Inr ()))]" "d_next_channel noted_driver = 1" "d_now noted_driver = 9"
  by (simp_all add: noted_driver_def welcomed_system_def send_frame_def write_frame_def sink_send_def sample_sink_def
      sample_idle_read tell_def Let_def)

lemma noted_run: "(driver_step sample_wire)\<^sup>*\<^sup>* (gs_driver welcomed_system) noted_driver"
proof -
  let ?d = "gs_driver welcomed_system"
  let ?q = "?d\<lparr>d_commands := [Notify 5452 [] 0], d_next_channel := 1\<rparr>"
  have d: "d_phase ?d = Connected 9009 1009" "d_handles ?d" "d_commands ?d = []" "d_next_channel ?d = 0"
    by (simp_all add: welcomed_system_def)
  then have "driver_step sample_wire ?d ?q"
    using submit [of ?d "Notify 5452 [] 0" sample_wire] by (simp add: live_phase_def COMMAND_CAPACITY_def)
  moreover have "?q\<lparr>d_commands := []\<rparr> = ?d\<lparr>d_next_channel := 1\<rparr>" using d(3) by (cases ?d) simp
  then have "recv_command ?q = Some (Some (Notify 5452 [] 0), ?d\<lparr>d_next_channel := 1\<rparr>)" by (simp add: recv_command_def)
  then have "driver_step sample_wire ?q (step_on (on_command sample_wire (?d\<lparr>d_next_channel := 1\<rparr>) (Some (Notify 5452 [] 0))))"
    using d(1) by (intro driver_step.command) simp_all
  then have "driver_step sample_wire ?q noted_driver" unfolding noted_simps(1) by (simp add: step_on_def)
  ultimately show ?thesis by (metis rtranclp.rtrancl_into_rtrancl rtranclp.rtrancl_refl)
qed

lemma pump_hears:
  "pu_running p \<Longrightarrow> \<not> pu_blocked p \<Longrightarrow> pump_step sample_gc E 730 v p (Received (RecvOk (from_gc t b))) =
     on_gc_message sample_gc \<lparr>gm_appid = 730, gm_msgtype = t AND EMSG_MASK, gm_header = default_gc_header, gm_body = b\<rparr> p"
  using on_received_relayed [of "RecvOk (from_gc t b)" sample_gc 730 p] by (simp add: pump_step_def relayed_from_gc)

lemma welcomed_simps:
  "gs_received welcomed_system = 1" "gs_lost welcomed_system = 0" "d_now (gs_driver welcomed_system) = 9"
  "pu_ready_tx (gs_pump welcomed_system)" "pu_running (gs_pump welcomed_system)" "\<not> pu_blocked (gs_pump welcomed_system)"
proof -
  have "gs_pump welcomed_system = on_gc_message sample_gc
      \<lparr>gm_appid = 730, gm_msgtype = 4004, gm_header = default_gc_header, gm_body = []\<rparr> (start_pump idle_handle)"
    using pump_hears [of "start_pump idle_handle" answering_env 1 4004 "[]"]
    by (simp add: welcomed_system_def start_pump_def gc_mask)
  then show "pu_ready_tx (gs_pump welcomed_system)" "pu_running (gs_pump welcomed_system)" "\<not> pu_blocked (gs_pump welcomed_system)"
    by (simp_all add: on_gc_message_def start_pump_def GC_CLIENT_WELCOME_def)
qed (simp_all add: welcomed_system_def)

lemma profiled_run: "(gc_step sample_wire sample_gc answering_env 730 1)\<^sup>*\<^sup>* welcomed_system profiled_system"
proof -
  let ?s = "welcomed_system\<lparr>gs_driver := gc_arrived noted_driver 9128 [5]\<rparr>"
  have "(driver_step sample_wire)\<^sup>*\<^sup>* (gs_driver welcomed_system) (gc_arrived noted_driver 9128 [5])"
    using noted_run gc_arrives [OF noted_simps(3-5), of 9128 "[5]"] by (rule rtranclp_trans)
  then have "(gc_step sample_wire sample_gc answering_env 730 1)\<^sup>*\<^sup>* welcomed_system ?s" by (rule drive_run)
  moreover have "gc_step sample_wire sample_gc answering_env 730 1 ?s profiled_system"
    using relay [of ?s sample_wire sample_gc answering_env 730 1]
    by (simp add: polling_def welcomed_simps profiled_system_def noted_simps numeral_2_eq_2) (simp add: welcomed_system_def)
  ultimately show ?thesis by (rule rtranclp.rtrancl_into_rtrancl)
qed

lemma profiled_messages:
  "app_messages sample_gc 730 (gs_driver profiled_system) (gs_received welcomed_system) (gs_received profiled_system) =
      [\<lparr>gm_appid = 730, gm_msgtype = 9128, gm_header = default_gc_header, gm_body = [5]\<rparr>]"
  by (simp add: welcomed_simps profiled_system_def app_messages_def noted_simps relay_of_def
      relayed_from_gc List.map_filter_simps gc_mask)

definition profile_rx :: "gc_message receiver" where
  "profile_rx = [(9, RecvOk \<lparr>gm_appid = 730, gm_msgtype = 9128, gm_header = default_gc_header, gm_body = [5]\<rparr>)]"

lemma profile_subscribed: "subscribed welcomed_system profile_rx profiled_system"
proof -
  have "gs_lost profiled_system = gs_lost welcomed_system" by (simp add: profiled_system_def welcomed_simps)
  note out = passed_on [OF welcomed_run profiled_run this, unfolded profiled_messages]
  have "d_now (gs_driver profiled_system) = 9" by (simp add: profiled_system_def noted_simps)
  then show ?thesis unfolding subscribed_def out receives_def
    by (intro exI [of _ profile_rx] exI [of _ "[]"]) (simp add: profile_rx_def delivers.intros)
qed

theorem profile_over_session_witness:
  "fst (request_player_profile sample_gc
     (session_env (gs_driver welcomed_system) (\<lambda>_. sample_driver) (\<lambda>_. []) (gs_driver profiled_system))
     (coordinator_env welcomed_system profile_rx profiled_system) (\<lambda>_. []) sample_profiles
     \<lparr>co_session = idle_handle\<lparr>h_now := 9\<rparr>, co_appid = 730\<rparr> 5) =
   Ready (Inr (profile_from 5 \<lparr>ap_account_id = Some 5, ap_player_level = Some 5, ap_player_cur_xp = None,
     ap_ranking = None, ap_medals = None\<rparr>))"
proof -
  let ?c = "\<lparr>co_session = idle_handle\<lparr>h_now := 9\<rparr>, co_appid = 730\<rparr>"
  let ?entry = "\<lparr>ap_account_id = Some 5, ap_player_level = Some 5, ap_player_cur_xp = None, ap_ranking = None, ap_medals = None\<rparr>"
  let ?m = "\<lparr>gm_appid = 730, gm_msgtype = 9128, gm_header = default_gc_header, gm_body = [5]\<rparr>"
  let ?ms = "app_messages sample_gc 730 (gs_driver profiled_system) (gs_received welcomed_system) (gs_received profiled_system)"
  have sys: "gs_lost profiled_system = gs_lost welcomed_system" "at_time ?c = d_now (gs_driver welcomed_system)"
    "d_now (gs_driver profiled_system) \<le> d_now (gs_driver welcomed_system) + 15000" "co_appid ?c = 730"
    "h_next (co_session ?c) < d_next_channel (gs_driver profiled_system)"
    "map_of (d_answers (gs_driver profiled_system)) (h_next (co_session ?c)) = Some (Ack (Inr ()))"
    by (simp_all add: welcomed_simps profiled_system_def at_time_def noted_simps)
  have len: "length ?ms \<le> 64" by (simp add: profiled_messages)
  have found: "find (\<lambda>m. gm_msgtype m = 9128 \<and> (\<forall>r. sample_profiles (gm_body m) = Inr r \<longrightarrow>
      (\<exists>p \<in> set (pl_account_profiles r). ap_account_id p = Some 5))) ?ms = Some ?m"
    "sample_profiles (gm_body ?m) = Inr \<lparr>pl_account_profiles = [?entry]\<rparr>"
    by (simp_all add: profiled_messages sample_profiles_def)
  from profile_over_session [OF welcomed_run profiled_run sys(1) welcomed_simps(4) sys(2-6) profile_subscribed len found]
  show ?thesis by simp
qed

end
