(* ===== verification/Friends.thy ===== *)
theory Friends
  imports Handle Rust_Str
begin

text \<open>
  The friends operations of \<^verbatim>\<open>src/friends.rs\<close> over a session handle: relationships, nicknames,
  visibility, chat, friends groups, and the three lists Steam pushes after a logon.

  The message types are generated from the protocol files; a record has the fields the source sets or
  reads, and \<open>friends_wire\<close> holds prost's encoder or decoder of each.  The five \<^verbatim>\<open>...Response\<close> types
  that carry nothing but an \<^verbatim>\<open>eresult\<close> share one record.
\<close>

section \<open>Constants and data\<close>

definition EMSG_CLIENT_REMOVE_FRIEND :: u32 where [emsg_defs]: "EMSG_CLIENT_REMOVE_FRIEND = 714"
definition EMSG_CLIENT_FRIENDS_LIST :: u32 where [emsg_defs]: "EMSG_CLIENT_FRIENDS_LIST = 767"
definition EMSG_CLIENT_ADD_FRIEND :: u32 where [emsg_defs]: "EMSG_CLIENT_ADD_FRIEND = 791"
definition EMSG_CLIENT_FRIEND_MSG :: u32 where [emsg_defs]: "EMSG_CLIENT_FRIEND_MSG = 718"
definition EMSG_CLIENT_HIDE_FRIEND :: u32 where [emsg_defs]: "EMSG_CLIENT_HIDE_FRIEND = 5552"
definition EMSG_CLIENT_FRIENDS_GROUPS_LIST :: u32 where [emsg_defs]: "EMSG_CLIENT_FRIENDS_GROUPS_LIST = 5553"
definition EMSG_CLIENT_PLAYER_NICKNAME_LIST :: u32 where [emsg_defs]: "EMSG_CLIENT_PLAYER_NICKNAME_LIST = 5587"
definition EMSG_AM_CLIENT_SET_PLAYER_NICKNAME :: u32 where [emsg_defs]: "EMSG_AM_CLIENT_SET_PLAYER_NICKNAME = 5588"
definition EMSG_AM_CLIENT_CREATE_FRIENDS_GROUP :: u32 where [emsg_defs]: "EMSG_AM_CLIENT_CREATE_FRIENDS_GROUP = 5560"
definition EMSG_AM_CLIENT_DELETE_FRIENDS_GROUP :: u32 where [emsg_defs]: "EMSG_AM_CLIENT_DELETE_FRIENDS_GROUP = 5562"
definition EMSG_AM_CLIENT_MANAGE_FRIENDS_GROUP :: u32 where [emsg_defs]: "EMSG_AM_CLIENT_MANAGE_FRIENDS_GROUP = 5564"
definition EMSG_AM_CLIENT_ADD_FRIEND_TO_GROUP :: u32 where [emsg_defs]: "EMSG_AM_CLIENT_ADD_FRIEND_TO_GROUP = 5566"
definition EMSG_AM_CLIENT_REMOVE_FRIEND_FROM_GROUP :: u32 where
  [emsg_defs]: "EMSG_AM_CLIENT_REMOVE_FRIEND_FROM_GROUP = 5568"

definition ERESULT_OK_U32 :: u32 where "ERESULT_OK_U32 = word_of_int OK"
definition ERESULT_FAIL_U32 :: u32 where "ERESULT_FAIL_U32 = word_of_int FAIL"

definition FRIENDS_LIST_TIMEOUT :: millis where [timeout_defs]: "FRIENDS_LIST_TIMEOUT = secs 10"
definition NICKNAMES_TIMEOUT :: millis where [timeout_defs]: "NICKNAMES_TIMEOUT = secs 10"
definition GROUPS_TIMEOUT :: millis where [timeout_defs]: "GROUPS_TIMEOUT = secs 10"

datatype friend_relationship =
    NoRelationship
  | Blocked
  | RequestRecipient
  | IsFriend
  | RequestInitiator
  | Ignored
  | IgnoredFriend
  | UnknownRelationship u32

definition relationship_from_raw :: "u32 \<Rightarrow> friend_relationship" where
  "relationship_from_raw value =
     (if value = 0 then NoRelationship
      else if value = 1 then Blocked
      else if value = 2 then RequestRecipient
      else if value = 3 then IsFriend
      else if value = 4 then RequestInitiator
      else if value = 5 then Ignored
      else if value = 6 then IgnoredFriend
      else UnknownRelationship value)"

record friend =
  fr_steam_id :: u64
  fr_relationship :: friend_relationship

record added_friend =
  ad_steam_id :: u64
  ad_persona_name :: string
  ad_eresult :: i32

record nickname =
  nk_steam_id :: u64
  nk_nickname :: string

record friends_group =
  fg_group_id :: i32
  fg_name :: string
  fg_members :: "u64 list"

record new_friends_group =
  ng_group_id :: i32
  ng_name :: string

datatype chat_entry_type =
    Text
  | Typing
  | InviteGame
  | UnknownEntry i32

fun chat_raw :: "chat_entry_type \<Rightarrow> i32" where
  "chat_raw Text = 1"
| "chat_raw Typing = 2"
| "chat_raw InviteGame = 3"
| "chat_raw (UnknownEntry other) = other"

definition chat_from_raw :: "i32 \<Rightarrow> chat_entry_type" where
  "chat_from_raw value =
     (if value = 1 then Text else if value = 2 then Typing else if value = 3 then InviteGame
      else UnknownEntry value)"

section \<open>Messages\<close>

record cmsg_client_add_friend =
  af_steamid_to_add :: "u64 option"

record cmsg_client_add_friend_response =
  ar_eresult :: "i32 option"
  ar_steam_id_added :: "u64 option"
  ar_persona_name_added :: "string option"

record cmsg_client_remove_friend =
  rf_friendid :: "u64 option"

record cmsg_client_set_player_nickname =
  sn_steamid :: "u64 option"
  sn_nickname :: "string option"

record eresult_response =
  er_eresult :: "u32 option"

record cmsg_client_hide_friend =
  hf_friendid :: "u64 option"
  hf_hide :: "bool option"

record cmsg_client_friend_msg =
  fm_steamid :: "u64 option"
  fm_chat_entry_type :: "i32 option"
  fm_message :: "bytes option"

record cmsg_client_create_friends_group =
  cg_steamid :: "u64 option"
  cg_groupname :: "string option"
  cg_steamid_friends :: "u64 list"

record cmsg_client_create_friends_group_response =
  gr_eresult :: "u32 option"
  gr_groupid :: "i32 option"

record cmsg_client_delete_friends_group =
  dg_steamid :: "u64 option"
  dg_groupid :: "i32 option"

record cmsg_client_manage_friends_group =
  mg_groupid :: "i32 option"
  mg_groupname :: "string option"
  mg_steamid_friends_added :: "u64 list"
  mg_steamid_friends_removed :: "u64 list"

record cmsg_client_friend_to_group =
  tg_groupid :: "i32 option"
  tg_steamiduser :: "u64 option"

record proto_friend =
  pf_ulfriendid :: "u64 option"
  pf_efriendrelationship :: "u32 option"

record cmsg_client_friends_list =
  fl_bincremental :: "bool option"
  fl_friends :: "proto_friend list"

record proto_nickname =
  pn_steamid :: "u64 option"
  pn_nickname :: "string option"

record cmsg_client_player_nickname_list =
  nl_removal :: "bool option"
  nl_incremental :: "bool option"
  nl_nicknames :: "proto_nickname list"

record proto_friend_group =
  pg_n_group_id :: "i32 option"
  pg_str_group_name :: "string option"

record proto_membership =
  pm_ul_steam_id :: "u64 option"
  pm_n_group_id :: "i32 option"

record cmsg_client_friends_groups_list =
  gl_bremoval :: "bool option"
  gl_bincremental :: "bool option"
  gl_friend_groups :: "proto_friend_group list"
  gl_memberships :: "proto_membership list"

record friends_wire =
  fw_enc_add_friend :: "cmsg_client_add_friend \<Rightarrow> bytes"
  fw_dec_add_friend :: "bytes \<Rightarrow> string + cmsg_client_add_friend_response"
  fw_enc_remove_friend :: "cmsg_client_remove_friend \<Rightarrow> bytes"
  fw_enc_set_nickname :: "cmsg_client_set_player_nickname \<Rightarrow> bytes"
  fw_dec_set_nickname :: "bytes \<Rightarrow> string + eresult_response"
  fw_enc_hide_friend :: "cmsg_client_hide_friend \<Rightarrow> bytes"
  fw_enc_friend_msg :: "cmsg_client_friend_msg \<Rightarrow> bytes"
  fw_enc_create_group :: "cmsg_client_create_friends_group \<Rightarrow> bytes"
  fw_dec_create_group :: "bytes \<Rightarrow> string + cmsg_client_create_friends_group_response"
  fw_enc_delete_group :: "cmsg_client_delete_friends_group \<Rightarrow> bytes"
  fw_dec_delete_group :: "bytes \<Rightarrow> string + eresult_response"
  fw_enc_manage_group :: "cmsg_client_manage_friends_group \<Rightarrow> bytes"
  fw_dec_manage_group :: "bytes \<Rightarrow> string + eresult_response"
  fw_enc_add_to_group :: "cmsg_client_friend_to_group \<Rightarrow> bytes"
  fw_dec_add_to_group :: "bytes \<Rightarrow> string + eresult_response"
  fw_enc_remove_from_group :: "cmsg_client_friend_to_group \<Rightarrow> bytes"
  fw_dec_remove_from_group :: "bytes \<Rightarrow> string + eresult_response"
  fw_dec_friends_list :: "bytes \<Rightarrow> string + cmsg_client_friends_list"
  fw_dec_nickname_list :: "bytes \<Rightarrow> string + cmsg_client_player_nickname_list"
  fw_dec_groups_list :: "bytes \<Rightarrow> string + cmsg_client_friends_groups_list"
section \<open>Relationships\<close>

definition add :: "friends_wire \<Rightarrow> env \<Rightarrow> handle \<Rightarrow> cmsg_client_add_friend \<Rightarrow> added_friend result \<times> handle" where
  "add F E h req =
     (case request_ignoring_eresult E h EMSG_CLIENT_ADD_FRIEND (fw_enc_add_friend F req)
             (fw_dec_add_friend F) of
        (r, h) \<Rightarrow>
          (and_then r (\<lambda>response.
             let code = unwrap_or FAIL (ar_eresult response) in
             if code \<noteq> OK \<and> code \<noteq> DUPLICATE_REQUEST
             then Inl (Remote (''add friend: eresult '' @ show_int code))
             else
               and_then
                 (ok_or (Remote (''add friend: eresult '' @ show_int code @ '', no steam id''))
                    (opt_filter (\<lambda>id. id \<noteq> 0) (ar_steam_id_added response)))
                 (\<lambda>sid. Inr \<lparr>ad_steam_id = sid,
                             ad_persona_name = unwrap_or [] (ar_persona_name_added response),
                             ad_eresult = code\<rparr>)),
           h))"

definition add_friend :: "friends_wire \<Rightarrow> env \<Rightarrow> handle \<Rightarrow> u64 \<Rightarrow> added_friend result \<times> handle" where
  "add_friend F E h sid = add F E h \<lparr>af_steamid_to_add = Some sid\<rparr>"

definition remove_friend :: "friends_wire \<Rightarrow> env \<Rightarrow> handle \<Rightarrow> u64 \<Rightarrow> unit result poll \<times> handle" where
  "remove_friend F E h sid =
     notify E h EMSG_CLIENT_REMOVE_FRIEND (fw_enc_remove_friend F \<lparr>rf_friendid = Some sid\<rparr>)"

section \<open>The lists pushed after a logon\<close>

definition friends_from :: "cmsg_client_friends_list \<Rightarrow> friend list" where
  "friends_from l =
     List.map_filter (\<lambda>f.
       map_option (\<lambda>sid. \<lparr>fr_steam_id = sid,
                          fr_relationship = relationship_from_raw (unwrap_or 0 (pf_efriendrelationship f))\<rparr>)
         (pf_ulfriendid f)) (fl_friends l)"

definition nicknames_from :: "cmsg_client_player_nickname_list \<Rightarrow> nickname list" where
  "nicknames_from l =
     List.map_filter (\<lambda>n.
       map_option (\<lambda>sid. \<lparr>nk_steam_id = sid, nk_nickname = unwrap_or [] (pn_nickname n)\<rparr>)
         (pn_steamid n)) (nl_nicknames l)"

definition groups_from :: "cmsg_client_friends_groups_list \<Rightarrow> friends_group list" where
  "groups_from l =
     List.map_filter (\<lambda>g.
       map_option (\<lambda>gid.
         \<lparr>fg_group_id = gid,
          fg_name = unwrap_or [] (pg_str_group_name g),
          fg_members = List.map_filter (\<lambda>m.
            if pm_n_group_id m = Some gid then pm_ul_steam_id m else None) (gl_memberships l)\<rparr>)
         (pg_n_group_id g)) (gl_friend_groups l)"

definition is_full_friends :: "cmsg_client_friends_list \<Rightarrow> bool" where
  "is_full_friends l \<longleftrightarrow> fl_bincremental l \<noteq> Some True"

definition is_full_nicknames :: "cmsg_client_player_nickname_list \<Rightarrow> bool" where
  "is_full_nicknames l \<longleftrightarrow> \<not> unwrap_or False (nl_incremental l) \<and> \<not> unwrap_or False (nl_removal l)"

definition is_full_groups :: "cmsg_client_friends_groups_list \<Rightarrow> bool" where
  "is_full_groups l \<longleftrightarrow> \<not> unwrap_or False (gl_bincremental l) \<and> \<not> unwrap_or False (gl_bremoval l)"

text \<open>The loop body of the three requests: a message of the wanted kind decides unless it is a delta.\<close>

definition take_snapshot ::
    "u32 \<Rightarrow> string \<Rightarrow> (bytes \<Rightarrow> string + 'l) \<Rightarrow> ('l \<Rightarrow> bool) \<Rightarrow> ('l \<Rightarrow> 'r) \<Rightarrow> steam_message \<Rightarrow>
     'r result option" where
  "take_snapshot emsg what dec full from msg =
     (if sm_emsg msg = emsg
      then case dec (sm_body msg) of
             Inl e \<Rightarrow> Some (Inl (Codec (what @ '': '' @ e)))
           | Inr l \<Rightarrow> if full l then Some (Inr (from l)) else None
      else None)"

text \<open>The three requests differ in the message, the decoder, what counts as full and the texts.  They
  subscribe first, then read the cache, then wait.\<close>

definition request_snapshot ::
    "u32 \<Rightarrow> string \<Rightarrow> (bytes \<Rightarrow> string + 'l) \<Rightarrow> ('l \<Rightarrow> bool) \<Rightarrow> ('l \<Rightarrow> 'r) \<Rightarrow> string \<Rightarrow> millis \<Rightarrow>
     env \<Rightarrow> handle \<Rightarrow> 'r result \<times> handle" where
  "request_snapshot emsg what dec full from late budget E h =
     (case subscribe E h of
        (events, h) \<Rightarrow>
          (case cached_snapshot E h emsg of
             (cached, h) \<Rightarrow>
               let wait = (case wait_event (take_snapshot emsg what dec full from)
                                 (WebSocket ''session stopped'') (Timeout late)
                                 (h_now h) (h_now h + budget) events of
                             (r, t) \<Rightarrow> (r, h\<lparr>h_now := t\<rparr>))
               in case cached of
                    Some body \<Rightarrow>
                      (case dec body of
                         Inl e \<Rightarrow> (Inl (Codec (what @ '': '' @ e)), h)
                       | Inr l \<Rightarrow> if full l then (Inr (from l), h) else wait)
                  | None \<Rightarrow> wait))"

definition request_friends_list :: "friends_wire \<Rightarrow> env \<Rightarrow> handle \<Rightarrow> friend list result \<times> handle" where
  "request_friends_list F =
     request_snapshot EMSG_CLIENT_FRIENDS_LIST ''decode friends list'' (fw_dec_friends_list F)
       is_full_friends friends_from ''friends list'' FRIENDS_LIST_TIMEOUT"

definition request_nicknames :: "friends_wire \<Rightarrow> env \<Rightarrow> handle \<Rightarrow> nickname list result \<times> handle" where
  "request_nicknames F =
     request_snapshot EMSG_CLIENT_PLAYER_NICKNAME_LIST ''decode nicknames'' (fw_dec_nickname_list F)
       is_full_nicknames nicknames_from ''nicknames list'' NICKNAMES_TIMEOUT"

definition request_friends_groups_list ::
    "friends_wire \<Rightarrow> env \<Rightarrow> handle \<Rightarrow> friends_group list result \<times> handle" where
  "request_friends_groups_list F =
     request_snapshot EMSG_CLIENT_FRIENDS_GROUPS_LIST ''decode groups list'' (fw_dec_groups_list F)
       is_full_groups groups_from ''friends groups list'' GROUPS_TIMEOUT"

section \<open>Nicknames, visibility, chat\<close>

text \<open>The \<^verbatim>\<open>eresult\<close> of a response body decides; a missing one stands for \<^verbatim>\<open>Fail\<close>.\<close>

definition expect_ok :: "string \<Rightarrow> u32 option \<Rightarrow> unit result" where
  "expect_ok what eresult =
     (let code = unwrap_or ERESULT_FAIL_U32 eresult in
      if code \<noteq> ERESULT_OK_U32 then Inl (Remote (what @ '': eresult '' @ show_word code)) else Inr ())"

definition set_nickname :: "friends_wire \<Rightarrow> env \<Rightarrow> handle \<Rightarrow> u64 \<Rightarrow> string \<Rightarrow> unit result \<times> handle" where
  "set_nickname F E h sid nick =
     (case request E h EMSG_AM_CLIENT_SET_PLAYER_NICKNAME
             (fw_enc_set_nickname F \<lparr>sn_steamid = Some sid, sn_nickname = Some nick\<rparr>)
             (fw_dec_set_nickname F) of
        (r, h) \<Rightarrow> (and_then r (\<lambda>response. expect_ok ''set nickname'' (er_eresult response)), h))"

definition clear_nickname :: "friends_wire \<Rightarrow> env \<Rightarrow> handle \<Rightarrow> u64 \<Rightarrow> unit result \<times> handle" where
  "clear_nickname F E h sid =
     (case request E h EMSG_AM_CLIENT_SET_PLAYER_NICKNAME
             (fw_enc_set_nickname F \<lparr>sn_steamid = Some sid, sn_nickname = Some []\<rparr>)
             (fw_dec_set_nickname F) of
        (r, h) \<Rightarrow> (and_then r (\<lambda>response. expect_ok ''clear nickname'' (er_eresult response)), h))"

definition hide_friend :: "friends_wire \<Rightarrow> env \<Rightarrow> handle \<Rightarrow> u64 \<Rightarrow> unit result poll \<times> handle" where
  "hide_friend F E h sid =
     notify E h EMSG_CLIENT_HIDE_FRIEND
       (fw_enc_hide_friend F \<lparr>hf_friendid = Some sid, hf_hide = Some True\<rparr>)"

definition unhide_friend :: "friends_wire \<Rightarrow> env \<Rightarrow> handle \<Rightarrow> u64 \<Rightarrow> unit result poll \<times> handle" where
  "unhide_friend F E h sid =
     notify E h EMSG_CLIENT_HIDE_FRIEND
       (fw_enc_hide_friend F \<lparr>hf_friendid = Some sid, hf_hide = Some False\<rparr>)"

definition send_message :: "friends_wire \<Rightarrow> env \<Rightarrow> handle \<Rightarrow> u64 \<Rightarrow> string \<Rightarrow> unit result poll \<times> handle" where
  "send_message F E h sid text =
     notify E h EMSG_CLIENT_FRIEND_MSG
       (fw_enc_friend_msg F \<lparr>fm_steamid = Some sid, fm_chat_entry_type = Some (chat_raw Text),
                             fm_message = Some (as_bytes text)\<rparr>)"

definition send_typing :: "friends_wire \<Rightarrow> env \<Rightarrow> handle \<Rightarrow> u64 \<Rightarrow> unit result poll \<times> handle" where
  "send_typing F E h sid =
     notify E h EMSG_CLIENT_FRIEND_MSG
       (fw_enc_friend_msg F \<lparr>fm_steamid = Some sid, fm_chat_entry_type = Some (chat_raw Typing),
                             fm_message = None\<rparr>)"

section \<open>Groups\<close>

definition create_friends_group ::
    "friends_wire \<Rightarrow> env \<Rightarrow> handle \<Rightarrow> string \<Rightarrow> u64 list \<Rightarrow> new_friends_group result \<times> handle" where
  "create_friends_group F E h name members =
     (case request E h EMSG_AM_CLIENT_CREATE_FRIENDS_GROUP
             (fw_enc_create_group F \<lparr>cg_steamid = None, cg_groupname = Some name,
                                     cg_steamid_friends = members\<rparr>)
             (fw_dec_create_group F) of
        (r, h) \<Rightarrow>
          (and_then r (\<lambda>response.
             and_then (expect_ok ''create friends group'' (gr_eresult response)) (\<lambda>_.
               and_then (ok_or (Remote ''create friends group: OK without a groupid'') (gr_groupid response))
                 (\<lambda>gid. Inr \<lparr>ng_group_id = gid, ng_name = name\<rparr>))),
           h))"

definition delete_friends_group :: "friends_wire \<Rightarrow> env \<Rightarrow> handle \<Rightarrow> i32 \<Rightarrow> unit result \<times> handle" where
  "delete_friends_group F E h gid =
     (case request E h EMSG_AM_CLIENT_DELETE_FRIENDS_GROUP
             (fw_enc_delete_group F \<lparr>dg_steamid = None, dg_groupid = Some gid\<rparr>)
             (fw_dec_delete_group F) of
        (r, h) \<Rightarrow> (and_then r (\<lambda>response. expect_ok ''delete friends group'' (er_eresult response)), h))"

definition rename_friends_group ::
    "friends_wire \<Rightarrow> env \<Rightarrow> handle \<Rightarrow> i32 \<Rightarrow> string \<Rightarrow> unit result \<times> handle" where
  "rename_friends_group F E h gid new_name =
     (case request E h EMSG_AM_CLIENT_MANAGE_FRIENDS_GROUP
             (fw_enc_manage_group F \<lparr>mg_groupid = Some gid, mg_groupname = Some new_name,
                                     mg_steamid_friends_added = [], mg_steamid_friends_removed = []\<rparr>)
             (fw_dec_manage_group F) of
        (r, h) \<Rightarrow> (and_then r (\<lambda>response. expect_ok ''rename friends group'' (er_eresult response)), h))"

text \<open>\<^verbatim>\<open>for &sid in steam_ids { .. ? }\<close>\<close>

fun for_each :: "(handle \<Rightarrow> 'a \<Rightarrow> unit result \<times> handle) \<Rightarrow> handle \<Rightarrow> 'a list \<Rightarrow> unit result \<times> handle" where
  "for_each step h [] = (Inr (), h)"
| "for_each step h (x # xs) =
     (case step h x of
        (Inl e, h) \<Rightarrow> (Inl e, h)
      | (Inr _, h) \<Rightarrow> for_each step h xs)"

definition add_member :: "friends_wire \<Rightarrow> env \<Rightarrow> i32 \<Rightarrow> handle \<Rightarrow> u64 \<Rightarrow> unit result \<times> handle" where
  "add_member F E gid h sid =
     (case request E h EMSG_AM_CLIENT_ADD_FRIEND_TO_GROUP
             (fw_enc_add_to_group F \<lparr>tg_groupid = Some gid, tg_steamiduser = Some sid\<rparr>)
             (fw_dec_add_to_group F) of
        (r, h) \<Rightarrow>
          (and_then r (\<lambda>response.
             expect_ok (''add friend '' @ show_word sid @ '' to group '' @ show_int gid)
               (er_eresult response)), h))"

definition add_friends_to_group ::
    "friends_wire \<Rightarrow> env \<Rightarrow> handle \<Rightarrow> i32 \<Rightarrow> u64 list \<Rightarrow> unit result \<times> handle" where
  "add_friends_to_group F E h gid steam_ids = for_each (add_member F E gid) h steam_ids"

definition remove_member :: "friends_wire \<Rightarrow> env \<Rightarrow> i32 \<Rightarrow> handle \<Rightarrow> u64 \<Rightarrow> unit result \<times> handle" where
  "remove_member F E gid h sid =
     (case request E h EMSG_AM_CLIENT_REMOVE_FRIEND_FROM_GROUP
             (fw_enc_remove_from_group F \<lparr>tg_groupid = Some gid, tg_steamiduser = Some sid\<rparr>)
             (fw_dec_remove_from_group F) of
        (r, h) \<Rightarrow>
          (and_then r (\<lambda>response.
             expect_ok (''remove friend '' @ show_word sid @ '' from group '' @ show_int gid)
               (er_eresult response)), h))"

definition remove_friends_from_group ::
    "friends_wire \<Rightarrow> env \<Rightarrow> handle \<Rightarrow> i32 \<Rightarrow> u64 list \<Rightarrow> unit result \<times> handle" where
  "remove_friends_from_group F E h gid steam_ids = for_each (remove_member F E gid) h steam_ids"
section \<open>The operations as remote calls\<close>

lemma expect_ok_iff [simp]: "expect_ok what er = Inr () \<longleftrightarrow> er = Some 1"
  by (cases er) (auto simp: expect_ok_def ERESULT_OK_U32_def ERESULT_FAIL_U32_def)

interpretation adding: remote_call "\<lambda>E h. add F E h req" EMSG_CLIENT_ADD_FRIEND "fw_enc_add_friend F req"
  "\<lambda>m. and_then (judge_reply False (fw_dec_add_friend F) m) (\<lambda>response.
     let code = unwrap_or FAIL (ar_eresult response) in
     if code \<noteq> OK \<and> code \<noteq> DUPLICATE_REQUEST
     then Inl (Remote (''add friend: eresult '' @ show_int code))
     else and_then (ok_or (Remote (''add friend: eresult '' @ show_int code @ '', no steam id''))
                     (opt_filter (\<lambda>id. id \<noteq> 0) (ar_steam_id_added response)))
            (\<lambda>sid. Inr \<lparr>ad_steam_id = sid, ad_persona_name = unwrap_or [] (ar_persona_name_added response),
                        ad_eresult = code\<rparr>))" for F req
  unfolding add_def by (rule remote_call_then) (rule lenient_request.remote_call_axioms)

interpretation nicknaming: remote_call "\<lambda>E h. set_nickname F E h sid nick" EMSG_AM_CLIENT_SET_PLAYER_NICKNAME
  "fw_enc_set_nickname F \<lparr>sn_steamid = Some sid, sn_nickname = Some nick\<rparr>"
  "\<lambda>m. and_then (judge_reply True (fw_dec_set_nickname F) m) (\<lambda>r. expect_ok ''set nickname'' (er_eresult r))"
  for F sid nick
  unfolding set_nickname_def by (rule remote_call_then) (rule plain_request.remote_call_axioms)

interpretation unnicknaming: remote_call "\<lambda>E h. clear_nickname F E h sid" EMSG_AM_CLIENT_SET_PLAYER_NICKNAME
  "fw_enc_set_nickname F \<lparr>sn_steamid = Some sid, sn_nickname = Some []\<rparr>"
  "\<lambda>m. and_then (judge_reply True (fw_dec_set_nickname F) m) (\<lambda>r. expect_ok ''clear nickname'' (er_eresult r))"
  for F sid
  unfolding clear_nickname_def by (rule remote_call_then) (rule plain_request.remote_call_axioms)

interpretation creating: remote_call "\<lambda>E h. create_friends_group F E h name members"
  EMSG_AM_CLIENT_CREATE_FRIENDS_GROUP
  "fw_enc_create_group F \<lparr>cg_steamid = None, cg_groupname = Some name, cg_steamid_friends = members\<rparr>"
  "\<lambda>m. and_then (judge_reply True (fw_dec_create_group F) m) (\<lambda>response.
     and_then (expect_ok ''create friends group'' (gr_eresult response)) (\<lambda>_.
       and_then (ok_or (Remote ''create friends group: OK without a groupid'') (gr_groupid response))
         (\<lambda>gid. Inr \<lparr>ng_group_id = gid, ng_name = name\<rparr>)))" for F name members
  unfolding create_friends_group_def by (rule remote_call_then) (rule plain_request.remote_call_axioms)

interpretation deleting: remote_call "\<lambda>E h. delete_friends_group F E h gid" EMSG_AM_CLIENT_DELETE_FRIENDS_GROUP
  "fw_enc_delete_group F \<lparr>dg_steamid = None, dg_groupid = Some gid\<rparr>"
  "\<lambda>m. and_then (judge_reply True (fw_dec_delete_group F) m)
         (\<lambda>r. expect_ok ''delete friends group'' (er_eresult r))" for F gid
  unfolding delete_friends_group_def by (rule remote_call_then) (rule plain_request.remote_call_axioms)

interpretation renaming: remote_call "\<lambda>E h. rename_friends_group F E h gid name"
  EMSG_AM_CLIENT_MANAGE_FRIENDS_GROUP
  "fw_enc_manage_group F \<lparr>mg_groupid = Some gid, mg_groupname = Some name, mg_steamid_friends_added = [],
                          mg_steamid_friends_removed = []\<rparr>"
  "\<lambda>m. and_then (judge_reply True (fw_dec_manage_group F) m)
         (\<lambda>r. expect_ok ''rename friends group'' (er_eresult r))" for F gid name
  unfolding rename_friends_group_def by (rule remote_call_then) (rule plain_request.remote_call_axioms)

section \<open>Calls in a loop\<close>

text \<open>The contract of the loops over a list of accounts: each turn is one remote call.\<close>

locale member_calls =
  fixes step :: "env \<Rightarrow> handle \<Rightarrow> 'a \<Rightarrow> unit result \<times> handle"
    and emsg :: u32
    and body :: "'a \<Rightarrow> bytes"
    and judge :: "'a \<Rightarrow> steam_message \<Rightarrow> unit result"
  assumes each: "remote_call (\<lambda>E h. step E h x) emsg (body x) (judge x)"
begin

lemmas each_ok_iff = remote_call.op_ok_iff [OF each]
lemmas each_sent = remote_call.op_sent [OF each]
lemmas each_next = remote_call.op_next [OF each]
lemmas each_ends = remote_call.op_ends [OF each]

lemma loop_sends:
  "\<exists>k \<le> length xs.
     map command_frame (h_sent (snd (for_each (step E) h xs))) =
       map command_frame (h_sent h) @ map (\<lambda>x. (emsg, body x)) (take k xs) \<and>
     (fst (for_each (step E) h xs) = Inr () \<longrightarrow> k = length xs)"
proof (induction xs arbitrary: h)
  case (Cons x xs)
  obtain r h1 where s: "step E h x = (r, h1)" by fastforce
  have sent: "h_sent h1 = h_sent h @ (if en_running E (h_next h)
      then [Request emsg (body x) (h_now h + DEFAULT_REQUEST_TIMEOUT) (h_next h)] else [])"
    using each_sent [of E h x] s by simp
  show ?case
  proof (cases r)
    case (Inl e)
    then show ?thesis using s sent
      by (auto intro: exI [of _ "if en_running E (h_next h) then 1 else 0"])
  next
    case (Inr u)
    then have "en_running E (h_next h)"
      using each_ok_iff [of E h x u] s by (auto simp: replied_def)
    with Cons.IH [of h1] sent obtain k where "k \<le> length xs"
      "map command_frame (h_sent (snd (for_each (step E) h1 xs))) =
         map command_frame (h_sent h) @ (emsg, body x) # map (\<lambda>x. (emsg, body x)) (take k xs)"
      "fst (for_each (step E) h1 xs) = Inr () \<longrightarrow> k = length xs"
      by auto
    then show ?thesis using s Inr by (intro exI [of _ "Suc k"]) simp
  qed
qed simp

lemma loop_ok_iff:
  "fst (for_each (step E) h xs) = Inr () \<longleftrightarrow>
     (\<forall>i < length xs. \<exists>m. replied E (h\<lparr>h_next := h_next h + i\<rparr>) DEFAULT_REQUEST_TIMEOUT m \<and>
        judge (xs ! i) m = Inr ())"
proof (induction xs arbitrary: h)
  case (Cons x xs)
  obtain r h1 where s: "step E h x = (r, h1)" by fastforce
  have next1: "h_next h1 = Suc (h_next h)" using each_next [of E h x] s by simp
  have shift: "replied E (h\<lparr>h_next := Suc (h_next h + i)\<rparr>) T m = replied E (h1\<lparr>h_next := h_next h1 + i\<rparr>) T m" for i T m
    by (simp add: replied_def next1)
  have "fst (for_each (step E) h (x # xs)) = Inr () \<longleftrightarrow> r = Inr () \<and> fst (for_each (step E) h1 xs) = Inr ()"
    using s by (cases r) simp_all
  also have "r = Inr () \<longleftrightarrow> (\<exists>m. replied E h DEFAULT_REQUEST_TIMEOUT m \<and> judge x m = Inr ())"
    using each_ok_iff [of E h x "()"] s by simp
  finally show ?case by (simp add: Cons.IH all_less_Suc_shift shift)
qed simp

lemma loop_ends: "h_now (snd (for_each (step E) h xs)) \<le> h_now h + DEFAULT_REQUEST_TIMEOUT * length xs"
proof (induction xs arbitrary: h)
  case (Cons x xs)
  obtain r h1 where s: "step E h x = (r, h1)" by fastforce
  have "h_now h1 \<le> h_now h + DEFAULT_REQUEST_TIMEOUT" using each_ends [of E h x] s by simp
  then show ?case using s Cons.IH [of h1] by (cases r) simp_all
qed simp

end

interpretation adding_members: member_calls "\<lambda>E. add_member F E gid" EMSG_AM_CLIENT_ADD_FRIEND_TO_GROUP
  "\<lambda>sid. fw_enc_add_to_group F \<lparr>tg_groupid = Some gid, tg_steamiduser = Some sid\<rparr>"
  "\<lambda>sid m. and_then (judge_reply True (fw_dec_add_to_group F) m) (\<lambda>r.
     expect_ok (''add friend '' @ show_word sid @ '' to group '' @ show_int gid) (er_eresult r))" for F gid
  by unfold_locales (simp only: add_member_def, rule remote_call.op_round_trip [OF remote_call_then],
      rule plain_request.remote_call_axioms)

interpretation removing_members: member_calls "\<lambda>E. remove_member F E gid" EMSG_AM_CLIENT_REMOVE_FRIEND_FROM_GROUP
  "\<lambda>sid. fw_enc_remove_from_group F \<lparr>tg_groupid = Some gid, tg_steamiduser = Some sid\<rparr>"
  "\<lambda>sid m. and_then (judge_reply True (fw_dec_remove_from_group F) m) (\<lambda>r.
     expect_ok (''remove friend '' @ show_word sid @ '' from group '' @ show_int gid) (er_eresult r))" for F gid
  by unfold_locales (simp only: remove_member_def, rule remote_call.op_round_trip [OF remote_call_then],
      rule plain_request.remote_call_axioms)

section \<open>The snapshot requests\<close>

text \<open>What a caller may answer from: the body in the cache when it looks there, after it has subscribed, as a
  message, followed by what it hears.\<close>

definition snapshot_sources :: "env \<Rightarrow> handle \<Rightarrow> u32 \<Rightarrow> millis \<Rightarrow> steam_message list" where
  "snapshot_sources E h emsg budget =
     (case en_snapshots E (Suc (h_looks h)) emsg of
        None \<Rightarrow> []
      | Some body \<Rightarrow> [\<lparr>sm_emsg = emsg, sm_header = default_header, sm_body = body\<rparr>]) @
     heard (h_now h + budget) (en_events E (h_looks h))"

text \<open>The outcome in terms of the first message of the kind that is no delta.\<close>

definition list_outcome ::
    "env \<Rightarrow> handle \<Rightarrow> u32 \<Rightarrow> (bytes \<Rightarrow> string + 'l) \<Rightarrow> ('l \<Rightarrow> bool) \<Rightarrow> ('l \<Rightarrow> 'r) \<Rightarrow> string \<Rightarrow> string \<Rightarrow>
     millis \<Rightarrow> 'r result" where
  "list_outcome E h emsg dec delta conv what late budget =
     (case find (\<lambda>m. sm_emsg m = emsg \<and> \<not> (\<exists>l. dec (sm_body m) = Inr l \<and> delta l)) (snapshot_sources E h emsg budget) of
        Some m \<Rightarrow> (case dec (sm_body m) of Inl e \<Rightarrow> Inl (Codec (what @ '': '' @ e)) | Inr l \<Rightarrow> Inr (conv l))
      | None \<Rightarrow> Inl (if hung_up (h_now h + budget) (en_events E (h_looks h))
                    then WebSocket ''session stopped'' else Timeout late))"

lemma take_snapshot_find:
  "take_snapshot emsg what dec full conv m =
     (if sm_emsg m = emsg \<and> \<not> (\<exists>l. dec (sm_body m) = Inr l \<and> \<not> full l)
      then Some (case dec (sm_body m) of Inl e \<Rightarrow> Inl (Codec (what @ '': '' @ e)) | Inr l \<Rightarrow> Inr (conv l)) else None)"
  by (simp add: take_snapshot_def split: sum.split)

lemma request_snapshot_outcome:
  "fst (request_snapshot emsg what dec full conv late budget E h) =
     list_outcome E h emsg dec (\<lambda>l. \<not> full l) conv what late budget"
proof (cases "en_snapshots E (Suc (h_looks h)) emsg")
  case None
  then show ?thesis
    by (simp add: request_snapshot_def subscribe_def cached_snapshot_def list_outcome_def snapshot_sources_def
        case_prod_beta wait_event_find [OF take_snapshot_find])
next
  case (Some body)
  then show ?thesis
    by (cases "dec body") (auto simp: request_snapshot_def subscribe_def cached_snapshot_def list_outcome_def
        snapshot_sources_def case_prod_beta wait_event_find [OF take_snapshot_find])
qed

lemma set_map_filter_iff: "y \<in> set (List.map_filter f xs) \<longleftrightarrow> (\<exists>x \<in> set xs. f x = Some y)"
  by (force simp: List.map_filter_def)

lemma map_filter_if:
  "List.map_filter (\<lambda>x. if P x then f x else None) xs = List.map_filter f (filter P xs)"
  by (induction xs) (auto simp: List.map_filter_simps split: option.split)

lemma map_filter_concat: "List.map_filter f xs = concat (map (\<lambda>x. case f x of None \<Rightarrow> [] | Some y \<Rightarrow> [y]) xs)"
  by (induction xs) (simp_all add: List.map_filter_simps split: option.split)

lemma case_map_option: "(case map_option f x of None \<Rightarrow> u | Some y \<Rightarrow> g y) = (case x of None \<Rightarrow> u | Some z \<Rightarrow> g (f z))"
  by (cases x) simp_all

section \<open>Properties\<close>

text \<open>\<^verbatim>\<open>add_friend\<close> reports a friend exactly when a reply arrives in time whose body carries \<^verbatim>\<open>OK\<close> or
  \<^verbatim>\<open>DuplicateRequest\<close> and a non-zero SteamID; the code in the routing header plays no part.\<close>

theorem add_friend_iff:
  "fst (add_friend F E h sid) = Inr a \<longleftrightarrow>
     (\<exists>m response. replied E h 30000 m \<and> fw_dec_add_friend F (sm_body m) = Inr response \<and>
        ad_eresult a \<in> {1, 29} \<and> ar_eresult response = Some (ad_eresult a) \<and>
        ad_steam_id a \<noteq> 0 \<and> ar_steam_id_added response = Some (ad_steam_id a) \<and>
        ad_persona_name a = unwrap_or [] (ar_persona_name_added response))"
proof -
  have judged: "and_then (judge_reply False (fw_dec_add_friend F) m) (\<lambda>response.
      let code = unwrap_or FAIL (ar_eresult response) in
      if code \<noteq> OK \<and> code \<noteq> DUPLICATE_REQUEST
      then Inl (Remote (''add friend: eresult '' @ show_int code))
      else and_then (ok_or (Remote (''add friend: eresult '' @ show_int code @ '', no steam id''))
                      (opt_filter (\<lambda>id. id \<noteq> 0) (ar_steam_id_added response)))
             (\<lambda>sid. Inr \<lparr>ad_steam_id = sid, ad_persona_name = unwrap_or [] (ar_persona_name_added response),
                         ad_eresult = code\<rparr>)) = Inr a \<longleftrightarrow>
    (\<exists>response. fw_dec_add_friend F (sm_body m) = Inr response \<and>
        ad_eresult a \<in> {1, 29} \<and> ar_eresult response = Some (ad_eresult a) \<and>
        ad_steam_id a \<noteq> 0 \<and> ar_steam_id_added response = Some (ad_steam_id a) \<and>
        ad_persona_name a = unwrap_or [] (ar_persona_name_added response))" for m
  proof (cases "fw_dec_add_friend F (sm_body m)")
    case (Inr response)
    show ?thesis
      by (cases "ar_eresult response"; cases "ar_steam_id_added response"; cases a)
        (auto simp: judge_reply_def Inr Let_def)
  qed (simp add: judge_reply_def)
  show ?thesis
    unfolding add_friend_def adding.op_ok_iff judged by (simp add: timeout_defs)
qed

text \<open>The calls that Steam answers with a bare code report success exactly when a reply arrives
  within thirty seconds, its header carries no failure and its body carries \<^verbatim>\<open>OK\<close>; a body without a
  code is a failure.\<close>

theorem coded_calls_ok_iff:
  fixes F E h
  defines "confirmed \<equiv> \<lambda>dec. \<exists>m r. replied E h 30000 m \<and>
    hdr_eresult (sm_header m) \<in> {None, Some 1} \<and> dec (sm_body m) = (Inr r :: string + eresult_response) \<and>
    er_eresult r = Some 1"
  shows "(fst (set_nickname F E h sid nick) = Inr () \<longleftrightarrow> confirmed (fw_dec_set_nickname F)) \<and>
    (fst (clear_nickname F E h sid) = Inr () \<longleftrightarrow> confirmed (fw_dec_set_nickname F)) \<and>
    (fst (delete_friends_group F E h gid) = Inr () \<longleftrightarrow> confirmed (fw_dec_delete_group F)) \<and>
    (fst (rename_friends_group F E h gid name) = Inr () \<longleftrightarrow> confirmed (fw_dec_manage_group F))"
  unfolding nicknaming.op_ok_iff unnicknaming.op_ok_iff deleting.op_ok_iff renaming.op_ok_iff
    and_then_Inr_iff judge_reply_ok_iff expect_ok_iff confirmed_def
  by (simp add: timeout_defs)

text \<open>adding accounts to a group sends one request per account, in order, up to the first failure;
  it succeeds exactly when every one of them is confirmed, and takes at most thirty seconds for each.\<close>

theorem add_friends_to_group_spec:
  fixes F E h gid ids
  defines "frame_for \<equiv> \<lambda>sid. (5566, fw_enc_add_to_group F \<lparr>tg_groupid = Some gid, tg_steamiduser = Some sid\<rparr>)"
  defines "confirmed \<equiv> \<lambda>i. \<exists>m r. replied E (h\<lparr>h_next := h_next h + i\<rparr>) 30000 m \<and>
    hdr_eresult (sm_header m) \<in> {None, Some 1} \<and> fw_dec_add_to_group F (sm_body m) = Inr r \<and>
    er_eresult r = Some 1"
  defines "outcome \<equiv> fst (add_friends_to_group F E h gid ids)"
    and "h' \<equiv> snd (add_friends_to_group F E h gid ids)"
  shows "(outcome = Inr () \<longleftrightarrow> (\<forall>i < length ids. confirmed i)) \<and>
    (\<exists>k \<le> length ids. map command_frame (h_sent h') = map command_frame (h_sent h) @ map frame_for (take k ids) \<and>
       (outcome = Inr () \<longrightarrow> k = length ids)) \<and>
    h_now h' \<le> h_now h + 30000 * length ids"
proof (intro conjI)
  note defs = outcome_def h'_def add_friends_to_group_def
  show "outcome = Inr () \<longleftrightarrow> (\<forall>i < length ids. confirmed i)"
    unfolding defs adding_members.loop_ok_iff and_then_Inr_iff judge_reply_ok_iff expect_ok_iff confirmed_def
    by (simp add: timeout_defs)
  show "\<exists>k \<le> length ids. map command_frame (h_sent h') =
      map command_frame (h_sent h) @ map frame_for (take k ids) \<and> (outcome = Inr () \<longrightarrow> k = length ids)"
    using adding_members.loop_sends [of ids F E gid h]
    unfolding defs frame_for_def emsg_defs .
  show "h_now h' \<le> h_now h + 30000 * length ids"
    using adding_members.loop_ends [of F E gid h ids] unfolding defs timeout_defs by simp
qed

text \<open>C33: what the three list requests return, for every cache and every sequence of events.  The body found
  in the cache comes first, then what the subscription, made before that look, hears within ten
  seconds.  Of these the first one that is of the wanted kind and is no delta decides: a body that does
  not decode is an error that says so, a list is returned with the entries that carry an id, in
  Steam's order.  Without one the request fails, because the session stopped if it hears so in time,
  and with a timeout otherwise.\<close>

theorem list_requests_spec:
  "fst (request_friends_list F E h) =
     list_outcome E h 767 (fw_dec_friends_list F) (\<lambda>l. fl_bincremental l = Some True)
       (\<lambda>l. concat (map (\<lambda>f. case pf_ulfriendid f of None \<Rightarrow> []
          | Some sid \<Rightarrow> [\<lparr>fr_steam_id = sid,
              fr_relationship = relationship_from_raw (case pf_efriendrelationship f of None \<Rightarrow> 0 | Some raw \<Rightarrow> raw)\<rparr>])
          (fl_friends l)))
       ''decode friends list'' ''friends list'' 10000 \<and>
   fst (request_nicknames F E h) =
     list_outcome E h 5587 (fw_dec_nickname_list F) (\<lambda>l. nl_incremental l = Some True \<or> nl_removal l = Some True)
       (\<lambda>l. concat (map (\<lambda>n. case pn_steamid n of None \<Rightarrow> []
          | Some sid \<Rightarrow> [\<lparr>nk_steam_id = sid, nk_nickname = (case pn_nickname n of None \<Rightarrow> [] | Some name \<Rightarrow> name)\<rparr>])
          (nl_nicknames l)))
       ''decode nicknames'' ''nicknames list'' 10000 \<and>
   fst (request_friends_groups_list F E h) =
     list_outcome E h 5553 (fw_dec_groups_list F) (\<lambda>l. gl_bincremental l = Some True \<or> gl_bremoval l = Some True)
       (\<lambda>l. concat (map (\<lambda>g. case pg_n_group_id g of None \<Rightarrow> []
          | Some gid \<Rightarrow> [\<lparr>fg_group_id = gid, fg_name = (case pg_str_group_name g of None \<Rightarrow> [] | Some name \<Rightarrow> name),
              fg_members = concat (map (\<lambda>m. if pm_n_group_id m = Some gid
                then (case pm_ul_steam_id m of None \<Rightarrow> [] | Some sid \<Rightarrow> [sid]) else []) (gl_memberships l))\<rparr>])
          (gl_friend_groups l)))
       ''decode groups list'' ''friends groups list'' 10000"
proof -
  have flag: "unwrap_or False x \<longleftrightarrow> x = Some True" for x by (cases x) simp_all
  have members: "(case if b then x else None of None \<Rightarrow> [] | Some y \<Rightarrow> [y]) =
      (if b then case x of None \<Rightarrow> [] | Some y \<Rightarrow> [y] else [])" for b x by simp
  show ?thesis
    unfolding request_friends_list_def request_nicknames_def request_friends_groups_list_def request_snapshot_outcome
      emsg_defs timeout_defs is_full_friends_def is_full_nicknames_def is_full_groups_def flag
    unfolding friends_from_def nicknames_from_def groups_from_def map_filter_concat case_map_option members unwrap_or_case
    by simp
qed

text \<open>The members of a group are the accounts whose membership names it, in the order Steam sent
  them, and a group is listed exactly when Steam gave it an id.\<close>

theorem groups_from_spec:
  "g \<in> set (groups_from l) \<longleftrightarrow>
     (\<exists>p \<in> set (gl_friend_groups l). pg_n_group_id p = Some (fg_group_id g) \<and>
        fg_name g = unwrap_or [] (pg_str_group_name p) \<and>
        fg_members g = List.map_filter pm_ul_steam_id
          (filter (\<lambda>m. pm_n_group_id m = Some (fg_group_id g)) (gl_memberships l)))"
proof -
  let ?members = "\<lambda>gid. List.map_filter (\<lambda>m. if pm_n_group_id m = Some gid then pm_ul_steam_id m else None)
    (gl_memberships l)"
  have "g \<in> set (groups_from l) \<longleftrightarrow>
      (\<exists>p \<in> set (gl_friend_groups l). \<exists>gid. pg_n_group_id p = Some gid \<and>
         g = \<lparr>fg_group_id = gid, fg_name = unwrap_or [] (pg_str_group_name p), fg_members = ?members gid\<rparr>)"
    unfolding groups_from_def set_map_filter_iff by auto
  also have "\<dots> \<longleftrightarrow> (\<exists>p \<in> set (gl_friend_groups l). pg_n_group_id p = Some (fg_group_id g) \<and>
        fg_name g = unwrap_or [] (pg_str_group_name p) \<and> fg_members g = ?members (fg_group_id g))"
    by (intro bex_cong refl) (cases g, auto)
  finally show ?thesis unfolding map_filter_if .
qed

section \<open>Witnesses\<close>

definition sample_friends :: friends_wire where
  "sample_friends =
     \<lparr>fw_enc_add_friend = (\<lambda>_. []), fw_dec_add_friend = (\<lambda>_. Inl ''''),
      fw_enc_remove_friend = (\<lambda>_. []), fw_enc_set_nickname = (\<lambda>_. []),
      fw_dec_set_nickname = (\<lambda>_. Inr \<lparr>er_eresult = Some 1\<rparr>), fw_enc_hide_friend = (\<lambda>_. []),
      fw_enc_friend_msg = (\<lambda>_. []), fw_enc_create_group = (\<lambda>_. []), fw_dec_create_group = (\<lambda>_. Inl ''''),
      fw_enc_delete_group = (\<lambda>_. []), fw_dec_delete_group = (\<lambda>_. Inr \<lparr>er_eresult = Some 1\<rparr>),
      fw_enc_manage_group = (\<lambda>_. []), fw_dec_manage_group = (\<lambda>_. Inr \<lparr>er_eresult = Some 1\<rparr>),
      fw_enc_add_to_group = (\<lambda>m. case tg_steamiduser m of None \<Rightarrow> [] | Some sid \<Rightarrow> [ucast sid]),
      fw_dec_add_to_group = (\<lambda>b. Inr \<lparr>er_eresult = (case b of [] \<Rightarrow> Some 1 | _ \<Rightarrow> None)\<rparr>),
      fw_enc_remove_from_group = (\<lambda>_. []), fw_dec_remove_from_group = (\<lambda>_. Inr \<lparr>er_eresult = Some 1\<rparr>),
      fw_dec_friends_list = (\<lambda>b. Inr \<lparr>fl_bincremental = Some (b = []),
        fl_friends = map (\<lambda>x. \<lparr>pf_ulfriendid = Some (ucast x), pf_efriendrelationship = Some 3\<rparr>) b\<rparr>),
      fw_dec_nickname_list = (\<lambda>_. Inl ''''), fw_dec_groups_list = (\<lambda>_. Inl '''')\<rparr>"

definition sample_env :: env where
  "sample_env =
     \<lparr>en_running = (\<lambda>_. True),
      en_answers = (\<lambda>ch. Some (5, Reply (Inr \<lparr>sm_emsg = 147, sm_header = default_header,
                                              sm_body = (if ch < 9 then [] else [1])\<rparr>))),
      en_events = (\<lambda>_. []), en_snapshots = (\<lambda>_ _. None), en_state = (\<lambda>_. LoggedOn 7)\<rparr>"

definition sample_handle :: handle where
  "sample_handle = \<lparr>h_steam_id = 7, h_now = 0, h_sent = [], h_next = 7, h_looks = 0\<rparr>"

text \<open>Two of three accounts are confirmed, the third is not: the call fails after three requests.\<close>

theorem add_friends_to_group_spec_witness:
  "fst (add_friends_to_group sample_friends sample_env sample_handle 4 [21, 22]) = Inr () \<and>
   fst (add_friends_to_group sample_friends sample_env sample_handle 4 [21, 22, 23]) \<noteq> Inr ()"
proof
  have field: "fw_dec_add_to_group sample_friends = (\<lambda>b. Inr \<lparr>er_eresult = (case b of [] \<Rightarrow> Some 1 | _ \<Rightarrow> None)\<rparr>)"
    by (simp add: sample_friends_def)
  have r: "(\<exists>m r. replied sample_env (sample_handle\<lparr>h_next := n\<rparr>) 30000 m \<and>
      hdr_eresult (sm_header m) \<in> {None, Some 1} \<and> fw_dec_add_to_group sample_friends (sm_body m) = Inr r \<and>
      er_eresult r = Some 1) \<longleftrightarrow> n < 9" for n
    by (auto simp: replied_def sample_env_def field default_header_def)
  have n: "h_next sample_handle = 7" by (simp add: sample_handle_def)
  note spec = add_friends_to_group_spec [THEN conjunct1, of sample_friends sample_env sample_handle 4, unfolded r n]
  show "fst (add_friends_to_group sample_friends sample_env sample_handle 4 [21, 22]) = Inr ()"
    using spec [of "[21, 22]"] by simp
  have "\<not> (\<forall>i < length [21, 22, 23 :: u64]. 7 + i < 9)" by (simp add: exI [of _ 2])
  then show "fst (add_friends_to_group sample_friends sample_env sample_handle 4 [21, 22, 23]) \<noteq> Inr ()"
    using spec [of "[21, 22, 23]"] by blast
qed

end
