(* ===== verification/Persona.thy ===== *)
theory Persona
  imports Handle Http
begin

text \<open>
  Player profiles, \<^verbatim>\<open>src/persona.rs\<close>: the persona summary and the profile fields over a session handle,
  avatar and profile addresses, and the two lookups on Steam's public web sites.  The decoders of the
  generated message types are the record \<open>persona_wire\<close>; the web requests go through the \<open>reqwest\<close>
  parameter.
\<close>

section \<open>Constants and data\<close>

definition EMSG_CLIENT_PERSONA_STATE :: u32 where [emsg_defs]: "EMSG_CLIENT_PERSONA_STATE = 766"
definition EMSG_CLIENT_REQUEST_FRIEND_DATA :: u32 where [emsg_defs]: "EMSG_CLIENT_REQUEST_FRIEND_DATA = 815"
definition EMSG_CLIENT_FRIEND_PROFILE_INFO :: u32 where [emsg_defs]: "EMSG_CLIENT_FRIEND_PROFILE_INFO = 5535"

definition PERSONA_FLAGS :: u32 where "PERSONA_FLAGS = 1 OR 2 OR 16 OR 64 OR 256"
definition REQUIRED_SUMMARY_FLAGS :: u32 where "REQUIRED_SUMMARY_FLAGS = 2"
definition SUMMARY_TIMEOUT :: millis where [timeout_defs]: "SUMMARY_TIMEOUT = secs 10"

definition AVATAR_HOST :: string where "AVATAR_HOST = ''https://avatars.steamstatic.com/''"
definition DEFAULT_AVATAR_HASH :: string where
  "DEFAULT_AVATAR_HASH = ''fef49e7fa7e1997310d705b2a6158ff8dc1cdfeb''"

datatype persona_state =
    Offline
  | Online
  | Busy
  | Away
  | Snooze
  | LookingToTrade
  | LookingToPlay
  | Invisible
  | UnknownState u32

definition state_from_raw :: "u32 \<Rightarrow> persona_state" where
  "state_from_raw value =
     (if value = 0 then Offline
      else if value = 1 then Online
      else if value = 2 then Busy
      else if value = 3 then Away
      else if value = 4 then Snooze
      else if value = 5 then LookingToTrade
      else if value = 6 then LookingToPlay
      else if value = 7 then Invisible
      else UnknownState value)"

record current_game =
  ga_app_id :: u32
  ga_game_id :: u64
  ga_name :: string

record player_summary =
  ps_steam_id :: u64
  ps_persona_name :: string
  ps_profile_url :: string
  ps_avatar_url :: string
  ps_avatar_hash :: string
  ps_state :: persona_state
  ps_current_game :: "current_game option"

record profile_info =
  pi_steam_id :: u64
  pi_real_name :: "string option"
  pi_country :: "string option"
  pi_state :: "string option"
  pi_city :: "string option"
  pi_summary :: "string option"
  pi_created_at :: "u32 option"

record cmsg_client_request_friend_data =
  rd_persona_state_requested :: "u32 option"
  rd_friends :: "u64 list"

record persona_friend =
  pr_friendid :: "u64 option"
  pr_persona_state :: "u32 option"
  pr_game_played_app_id :: "u32 option"
  pr_player_name :: "string option"
  pr_avatar_hash :: "bytes option"
  pr_game_name :: "string option"
  pr_gameid :: "u64 option"

record cmsg_client_persona_state =
  cs_status_flags :: "u32 option"
  cs_friends :: "persona_friend list"

record cmsg_client_friend_profile_info =
  fi_steamid_friend :: "u64 option"

record cmsg_client_friend_profile_info_response =
  fp_eresult :: "i32 option"
  fp_steamid_friend :: "u64 option"
  fp_time_created :: "u32 option"
  fp_real_name :: "string option"
  fp_city_name :: "string option"
  fp_state_name :: "string option"
  fp_country_name :: "string option"
  fp_summary :: "string option"

record persona_wire =
  pw_enc_request_friend_data :: "cmsg_client_request_friend_data \<Rightarrow> bytes"
  pw_dec_persona_state :: "bytes \<Rightarrow> string + cmsg_client_persona_state"
  pw_enc_profile_info :: "cmsg_client_friend_profile_info \<Rightarrow> bytes"
  pw_dec_profile_info :: "bytes \<Rightarrow> string + cmsg_client_friend_profile_info_response"

section \<open>Addresses\<close>

definition profile_url :: "u64 \<Rightarrow> string" where
  "profile_url sid = ''https://steamcommunity.com/profiles/'' @ show_word sid"

definition hash_to_hex :: "bytes \<Rightarrow> string" where
  "hash_to_hex hash = foldl (\<lambda>s b. s @ show_hex 2 (unat b)) [] hash"

datatype avatar_size = Small | Medium | Full

definition avatar_url_sized :: "bytes \<Rightarrow> avatar_size \<Rightarrow> string" where
  "avatar_url_sized hash sz =
     (let hex = hash_to_hex hash;
          hex = (if hex = [] \<or> list_all (\<lambda>b. b = 0) hash then DEFAULT_AVATAR_HASH else hex);
          suffix = (case sz of Small \<Rightarrow> '''' | Medium \<Rightarrow> ''_medium'' | Full \<Rightarrow> ''_full'')
      in AVATAR_HOST @ hex @ suffix @ ''.jpg'')"

definition avatar_url :: "bytes \<Rightarrow> string" where
  "avatar_url hash = avatar_url_sized hash Full"

section \<open>The public web sites\<close>

definition extract_steam_id64 :: "string \<Rightarrow> u64 option" where
  "extract_steam_id64 xml =
     (case find_str ''<steamID64>'' xml of
        None \<Rightarrow> None
      | Some i \<Rightarrow>
          let start = i + length ''<steamID64>'' in
          (case find_str ''</steamID64>'' (drop start xml) of
             None \<Rightarrow> None
           | Some j \<Rightarrow>
               let finish = j + start in
               (case parse_u64 (trim (take (finish - start) (drop start xml))) of
                  Inl _ \<Rightarrow> None
                | Inr v \<Rightarrow> Some v)))"

definition resolve_vanity_url ::
    "('p, 'c) reqwest \<Rightarrow> string \<Rightarrow> proxy_config option \<Rightarrow> u64 option result" where
  "resolve_vanity_url R name proxy =
     (let url = ''https://steamcommunity.com/id/'' @ name @ ''?xml=1'' in
      and_then (client R proxy) (\<lambda>c.
      and_then (map_err (\<lambda>e. Network (''vanity lookup: '' @ e)) (rq_get R c url [])) (\<lambda>response.
      if \<not> is_success response
      then Inl (Network (''vanity lookup: HTTP '' @ hr_status_text response))
      else and_then (map_err (\<lambda>e. Network (''vanity lookup body: '' @ e)) (hr_text response)) (\<lambda>body.
           Inr (extract_steam_id64 body)))))"

definition fetch_avatar :: "('p, 'c) reqwest \<Rightarrow> string \<Rightarrow> proxy_config option \<Rightarrow> bytes result" where
  "fetch_avatar R url proxy =
     and_then (client R proxy) (\<lambda>c.
     and_then (map_err (\<lambda>e. Network (''fetch avatar: '' @ e)) (rq_get R c url [])) (\<lambda>response.
     if \<not> is_success response
     then Inl (Network (''fetch avatar: HTTP '' @ hr_status_text response))
     else map_err (\<lambda>e. Network (''fetch avatar body: '' @ e)) (hr_bytes response)))"

section \<open>The persona summary\<close>

definition summary_from_persona_state ::
    "persona_wire \<Rightarrow> steam_message \<Rightarrow> u64 \<Rightarrow> player_summary option result" where
  "summary_from_persona_state P msg sid =
     and_then (map_err (\<lambda>e. Codec (''decode persona state: '' @ e)) (pw_dec_persona_state P (sm_body msg)))
       (\<lambda>st.
         if unwrap_or 0 (cs_status_flags st) AND REQUIRED_SUMMARY_FLAGS \<noteq> REQUIRED_SUMMARY_FLAGS
         then Inr None
         else case find (\<lambda>f. pr_friendid f = Some sid) (cs_friends st) of
                None \<Rightarrow> Inr None
              | Some f \<Rightarrow>
                  let avatar = unwrap_or [] (pr_avatar_hash f);
                      game_id = unwrap_or 0 (pr_gameid f);
                      app_id = unwrap_or 0 (pr_game_played_app_id f);
                      game = (if app_id \<noteq> 0 \<or> game_id \<noteq> 0
                              then Some \<lparr>ga_app_id = if app_id \<noteq> 0 then app_id else ucast game_id,
                                         ga_game_id = game_id,
                                         ga_name = unwrap_or [] (pr_game_name f)\<rparr>
                              else None)
                  in Inr (Some \<lparr>ps_steam_id = sid,
                                ps_persona_name = unwrap_or [] (pr_player_name f),
                                ps_profile_url = profile_url sid,
                                ps_avatar_url = avatar_url avatar,
                                ps_avatar_hash = hash_to_hex avatar,
                                ps_state = state_from_raw (unwrap_or 0 (pr_persona_state f)),
                                ps_current_game = game\<rparr>))"

text \<open>The loop body of \<^verbatim>\<open>request_player_summary\<close>.\<close>

definition take_summary :: "persona_wire \<Rightarrow> u64 \<Rightarrow> steam_message \<Rightarrow> player_summary result option" where
  "take_summary P sid msg =
     (if sm_emsg msg \<noteq> EMSG_CLIENT_PERSONA_STATE then None
      else case summary_from_persona_state P msg sid of
             Inl e \<Rightarrow> Some (Inl e)
           | Inr None \<Rightarrow> None
           | Inr (Some summary) \<Rightarrow> Some (Inr summary))"

definition request_player_summary ::
    "persona_wire \<Rightarrow> env \<Rightarrow> handle \<Rightarrow> u64 \<Rightarrow> player_summary result poll \<times> handle" where
  "request_player_summary P E h sid =
     (case subscribe E h of
        (events, h) \<Rightarrow>
          let req = \<lparr>rd_persona_state_requested = Some PERSONA_FLAGS, rd_friends = [sid]\<rparr> in
          (case notify E h EMSG_CLIENT_REQUEST_FRIEND_DATA (pw_enc_request_friend_data P req) of
             (Pending, h) \<Rightarrow> (Pending, h)
           | (Ready (Inl e), h) \<Rightarrow> (Ready (Inl e), h)
           | (Ready (Inr _), h) \<Rightarrow>
               (case wait_event (take_summary P sid) (WebSocket ''session stopped'')
                       (Timeout ''persona state'') (h_now h) (h_now h + SUMMARY_TIMEOUT) events of
                  (r, t) \<Rightarrow> (Ready r, h\<lparr>h_now := t\<rparr>))))"

section \<open>The profile fields\<close>

definition some_if_set :: "string option \<Rightarrow> string option" where
  "some_if_set s = opt_filter (\<lambda>v. v \<noteq> []) s"

definition profile_info_from_response ::
    "cmsg_client_friend_profile_info_response \<Rightarrow> u64 \<Rightarrow> profile_info result" where
  "profile_info_from_response response sid =
     (let code = unwrap_or FAIL (fp_eresult response) in
      if code \<noteq> OK then Inl (Remote (''profile info: eresult '' @ show_int code))
      else Inr \<lparr>pi_steam_id = unwrap_or sid (fp_steamid_friend response),
                pi_real_name = some_if_set (fp_real_name response),
                pi_country = some_if_set (fp_country_name response),
                pi_state = some_if_set (fp_state_name response),
                pi_city = some_if_set (fp_city_name response),
                pi_summary = some_if_set (fp_summary response),
                pi_created_at = opt_filter (\<lambda>t. t \<noteq> 0) (fp_time_created response)\<rparr>)"

definition request_profile_info ::
    "persona_wire \<Rightarrow> env \<Rightarrow> handle \<Rightarrow> u64 \<Rightarrow> profile_info result \<times> handle" where
  "request_profile_info P E h sid =
     (case request E h EMSG_CLIENT_FRIEND_PROFILE_INFO
             (pw_enc_profile_info P \<lparr>fi_steamid_friend = Some sid\<rparr>) (pw_dec_profile_info P) of
        (r, h) \<Rightarrow> (and_then r (\<lambda>response. profile_info_from_response response sid), h))"

interpretation profile_call: remote_call "\<lambda>E h. request_profile_info P E h sid"
  EMSG_CLIENT_FRIEND_PROFILE_INFO "pw_enc_profile_info P \<lparr>fi_steamid_friend = Some sid\<rparr>"
  "\<lambda>m. and_then (judge_reply True (pw_dec_profile_info P) m) (\<lambda>r. profile_info_from_response r sid)"
  for P sid
  unfolding request_profile_info_def by (rule remote_call_then) (rule plain_request.remote_call_axioms)
section \<open>Lemmas\<close>

lemma hash_to_hex_concat: "hash_to_hex hash = concat (map (\<lambda>b. show_hex 2 (unat b)) hash)"
proof -
  have "foldl (\<lambda>s b. s @ show_hex 2 (unat b)) acc hash = acc @ concat (map (\<lambda>b. show_hex 2 (unat b)) hash)" for acc
    by (induction hash arbitrary: acc) simp_all
  then show ?thesis by (simp add: hash_to_hex_def)
qed

lemma hex_char_table: "d < 16 \<Longrightarrow> hex_char d = ''0123456789abcdef'' ! d"
proof -
  have "\<forall>d \<in> set [0..<16]. hex_char d = ''0123456789abcdef'' ! d" by code_simp
  then show "d < 16 \<Longrightarrow> hex_char d = ''0123456789abcdef'' ! d" by (simp only: set_upt) force
qed

lemma hex_char_inj:
  assumes "d < 16" "e < 16"
  shows "hex_char d = hex_char e \<longleftrightarrow> d = e"
proof -
  have "distinct ''0123456789abcdef''" by code_simp
  moreover have "length ''0123456789abcdef'' = 16" by simp
  ultimately show ?thesis
    unfolding hex_char_table [OF assms(1)] hex_char_table [OF assms(2)]
    using assms nth_eq_iff_index_eq by metis
qed

lemma show_hex_byte: "show_hex 2 (unat b) = [hex_char (unat b div 16), hex_char (unat b mod 16)]" for b :: byte
proof -
  have "unat b div 16 < 16" using unsigned_less [of b, where ?'a = nat] by simp
  then show ?thesis by (simp add: numeral_2_eq_2)
qed

lemma show_hex_byte_inj: "show_hex 2 (unat a) = show_hex 2 (unat b) \<longleftrightarrow> a = b" for a b :: byte
proof -
  have lt: "unat b div 16 < 16" for b :: byte using unsigned_less [of b, where ?'a = nat] by simp
  have "unat a div 16 = unat b div 16 \<and> unat a mod 16 = unat b mod 16 \<longleftrightarrow> unat a = unat b"
    by (metis div_mult_mod_eq)
  then show ?thesis unfolding show_hex_byte word_unat_eq_iff by (simp add: hex_char_inj lt)
qed

lemma hash_to_hex_inj: "hash_to_hex a = hash_to_hex b \<longleftrightarrow> a = b"
proof (induction a arbitrary: b)
  case (Cons x xs)
  show ?case
    using Cons.IH show_hex_byte_inj [of x]
    by (cases b) (auto simp: hash_to_hex_concat show_hex_byte)
qed (auto simp: hash_to_hex_concat show_hex_byte)

section \<open>Properties\<close>

text \<open>The hexadecimal form of an avatar hash is two lower-case digits per byte and determines the
  hash; an avatar address carries that form, or the well-known default exactly when there is no hash
  or only zeros.\<close>

theorem avatar_url_spec:
  "length (hash_to_hex hash) = 2 * length hash \<and>
   set (hash_to_hex hash) \<subseteq> set ''0123456789abcdef'' \<and>
   (hash_to_hex hash = hash_to_hex other \<longleftrightarrow> hash = other) \<and>
   avatar_url hash =
     ''https://avatars.steamstatic.com/'' @
     (if set hash \<subseteq> {0} then ''fef49e7fa7e1997310d705b2a6158ff8dc1cdfeb'' else hash_to_hex hash) @
     ''_full.jpg''"
proof (intro conjI)
  show "length (hash_to_hex hash) = 2 * length hash"
    by (induction hash) (simp_all add: hash_to_hex_concat show_hex_byte)
  define D where "D = set ''0123456789abcdef''"
  have digit: "hex_char d \<in> D" if "d < 16" for d
    unfolding hex_char_table [OF that] D_def using that by (intro nth_mem) simp
  have lt: "unat b div 16 < 16" for b :: byte using unsigned_less [of b, where ?'a = nat] by simp
  have "set (hash_to_hex hash) \<subseteq> D"
    using digit lt by (auto simp: hash_to_hex_concat show_hex_byte)
  then show "set (hash_to_hex hash) \<subseteq> set ''0123456789abcdef''" unfolding D_def .
  show "hash_to_hex hash = hash_to_hex other \<longleftrightarrow> hash = other" by (rule hash_to_hex_inj)
  have "hash_to_hex hash = [] \<longleftrightarrow> hash = []" using hash_to_hex_inj [of hash "[]"] by (simp add: hash_to_hex_def)
  moreover have "list_all (\<lambda>b. b = 0) hash \<longleftrightarrow> set hash \<subseteq> {0}" by (auto simp: list_all_iff)
  ultimately show "avatar_url hash = ''https://avatars.steamstatic.com/'' @
     (if set hash \<subseteq> {0} then ''fef49e7fa7e1997310d705b2a6158ff8dc1cdfeb'' else hash_to_hex hash) @
     ''_full.jpg''"
    by (simp add: avatar_url_def avatar_url_sized_def Let_def AVATAR_HOST_def DEFAULT_AVATAR_HASH_def)
qed

text \<open>the vanity lookup reads back the SteamID that a community document carries in its first
  \<^verbatim>\<open>steamID64\<close> element.\<close>

theorem extract_steam_id64_roundtrip:
  assumes "find_str ''<steamID64>'' (before @ ''<steamID64>'') = Some (length before)"
  shows "extract_steam_id64 (before @ ''<steamID64>'' @ show_word sid @ ''</steamID64>'' @ after) = Some sid"
proof -
  let ?rest = "show_word sid @ ''</steamID64>'' @ after"
  have first: "find_str ''<steamID64>'' (before @ ''<steamID64>'' @ ?rest) = Some (length before)"
    using find_str_append [OF assms, of ?rest] by simp
  have "CHR ''<'' \<notin> set (show_word sid)"
    unfolding show_word_def using show_nat_digits digit_solid by metis
  then have second: "find_str ''</steamID64>'' ?rest = Some (length (show_word sid))"
    by (rule find_str_fresh [of _ "''/steamID64>''" "''</steamID64>''", rotated]) simp
  have rest: "drop (length before + length ''<steamID64>'') (before @ ''<steamID64>'' @ ?rest) = ?rest" by simp
  have number: "trim (take (length (show_word sid) + n - n) ?rest) = show_word sid" for n
    by (simp add: show_word_def)
  show ?thesis
    unfolding extract_steam_id64_def first Let_def option.case rest second number parse_u64_show sum.case ..
qed

lemma name_flag: "w AND 2 = 2 \<longleftrightarrow> bit w 1" for w :: u32
proof
  assume "w AND 2 = 2"
  then have "bit (w AND 2) 1 = bit (2 :: u32) 1" by simp
  then show "bit w 1" by (simp add: bit_simps)
next
  assume "bit w 1"
  then show "w AND 2 = 2" by (intro bit_word_eqI) (auto simp: bit_simps)
qed

text \<open>The messages that answer a request for a summary: persona messages that do not decode, or that carry a
  name, the flag with the value 2, and have an entry for the account.\<close>

definition answers_summary :: "persona_wire \<Rightarrow> u64 \<Rightarrow> steam_message \<Rightarrow> bool" where
  "answers_summary P sid m \<longleftrightarrow> sm_emsg m = 766 \<and>
     (\<forall>st. pw_dec_persona_state P (sm_body m) = Inr st \<longrightarrow>
        (\<exists>flags. cs_status_flags st = Some flags \<and> bit flags 1) \<and> (\<exists>f \<in> set (cs_friends st). pr_friendid f = Some sid))"

text \<open>The summary that an entry stands for: a game is being played if either of its two ids is there and not zero.\<close>

definition summary_of :: "u64 \<Rightarrow> persona_friend \<Rightarrow> player_summary" where
  "summary_of sid f =
     (let hash = (case pr_avatar_hash f of None \<Rightarrow> [] | Some b \<Rightarrow> b);
          app = (case pr_game_played_app_id f of None \<Rightarrow> 0 | Some a \<Rightarrow> a);
          game = (case pr_gameid f of None \<Rightarrow> 0 | Some g \<Rightarrow> g)
      in \<lparr>ps_steam_id = sid,
          ps_persona_name = (case pr_player_name f of None \<Rightarrow> [] | Some name \<Rightarrow> name),
          ps_profile_url = ''https://steamcommunity.com/profiles/'' @ show_word sid,
          ps_avatar_url = avatar_url hash, ps_avatar_hash = hash_to_hex hash,
          ps_state = state_from_raw (case pr_persona_state f of None \<Rightarrow> 0 | Some s \<Rightarrow> s),
          ps_current_game = (if app = 0 \<and> game = 0 then None
            else Some \<lparr>ga_app_id = (if app = 0 then ucast game else app), ga_game_id = game,
                       ga_name = (case pr_game_name f of None \<Rightarrow> [] | Some name \<Rightarrow> name)\<rparr>)\<rparr>)"

definition summary_answer :: "persona_wire \<Rightarrow> u64 \<Rightarrow> steam_message \<Rightarrow> player_summary result" where
  "summary_answer P sid m =
     (case pw_dec_persona_state P (sm_body m) of
        Inl e \<Rightarrow> Inl (Codec (''decode persona state: '' @ e))
      | Inr st \<Rightarrow> Inr (summary_of sid (the (find (\<lambda>f. pr_friendid f = Some sid) (cs_friends st)))))"

lemma take_summary_find:
  "take_summary P sid m = (if answers_summary P sid m then Some (summary_answer P sid m) else None)"
proof (cases "pw_dec_persona_state P (sm_body m)")
  case (Inl e)
  then show ?thesis
    by (simp add: take_summary_def summary_from_persona_state_def answers_summary_def summary_answer_def emsg_defs)
next
  case (Inr st)
  have flags: "unwrap_or 0 (cs_status_flags st) AND 2 = 2 \<longleftrightarrow> (\<exists>flags. cs_status_flags st = Some flags \<and> bit flags 1)"
    by (cases "cs_status_flags st") (simp_all add: name_flag)
  show ?thesis
  proof (cases "find (\<lambda>f. pr_friendid f = Some sid) (cs_friends st)")
    case None
    then have "\<not> (\<exists>f \<in> set (cs_friends st). pr_friendid f = Some sid)" by (simp add: find_None_iff)
    with None Inr show ?thesis
      by (simp add: take_summary_def summary_from_persona_state_def answers_summary_def REQUIRED_SUMMARY_FLAGS_def Let_def)
  next
    case (Some f)
    then have "\<exists>f \<in> set (cs_friends st). pr_friendid f = Some sid" by (auto simp: find_Some_iff)
    with Some Inr flags show ?thesis
      by (simp add: take_summary_def summary_from_persona_state_def answers_summary_def summary_answer_def
          REQUIRED_SUMMARY_FLAGS_def summary_of_def profile_url_def unwrap_or_case emsg_defs Let_def)
  qed
qed

text \<open>C37: a persona summary.  The request asks for the one account with the five wanted flags, and once it is
  written the first message decides, among all that are heard until ten seconds later, that answers: a
  persona message that does not decode is an error that says so; one that carries a name and has an
  entry for the account gives the summary of the first such entry.  Other messages, updates without a
  name and other accounts are passed over.  Without an answer the call fails, because the session
  stopped if it hears so in time, and with a timeout otherwise.\<close>

theorem request_player_summary_spec:
  fixes P sid
  assumes "en_running E (h_next h)" "en_answers E (h_next h) = Some (t, Ack (Inr ()))"
  defines "until \<equiv> h_now h + t + 10000" and "rx \<equiv> en_events E (h_looks h)"
  shows "\<exists>r. fst (request_player_summary P E h sid) = Ready r \<and>
    (case find (answers_summary P sid) (heard until rx) of
       None \<Rightarrow> r = Inl (if hung_up until rx then WebSocket ''session stopped'' else Timeout ''persona state'')
     | Some m \<Rightarrow>
         (case pw_dec_persona_state P (sm_body m) of
            Inl e \<Rightarrow> r = Inl (Codec (''decode persona state: '' @ e))
          | Inr st \<Rightarrow> \<exists>f. find (\<lambda>f. pr_friendid f = Some sid) (cs_friends st) = Some f \<and> r = Inr (summary_of sid f))) \<and>
    h_sent (snd (request_player_summary P E h sid)) = h_sent h @
      [Notify 815 (pw_enc_request_friend_data P \<lparr>rd_persona_state_requested = Some 339, rd_friends = [sid]\<rparr>)
        (h_next h)]"
proof -
  let ?w = "wait_event (take_summary P sid) (WebSocket ''session stopped'') (Timeout ''persona state'')
    (h_now h + t) (h_now h + t + 10000) (en_events E (h_looks h))"
  have flags: "PERSONA_FLAGS = 339" by (simp add: PERSONA_FLAGS_def)
  have "request_player_summary P E h sid = (Ready (fst ?w),
      h\<lparr>h_looks := Suc (h_looks h), h_next := Suc (h_next h),
        h_sent := h_sent h @ [Notify 815 (pw_enc_request_friend_data P
          \<lparr>rd_persona_state_requested = Some 339, rd_friends = [sid]\<rparr>) (h_next h)], h_now := snd ?w\<rparr>)"
    using assms(1,2)
    by (simp add: request_player_summary_def subscribe_def notify_def queue_command_def Let_def flags
        emsg_defs timeout_defs case_prod_beta)
  moreover have "case find (answers_summary P sid) (heard until rx) of
       None \<Rightarrow> fst ?w = Inl (if hung_up until rx then WebSocket ''session stopped'' else Timeout ''persona state'')
     | Some m \<Rightarrow>
         (case pw_dec_persona_state P (sm_body m) of
            Inl e \<Rightarrow> fst ?w = Inl (Codec (''decode persona state: '' @ e))
          | Inr st \<Rightarrow> \<exists>f. find (\<lambda>f. pr_friendid f = Some sid) (cs_friends st) = Some f \<and> fst ?w = Inr (summary_of sid f))"
  proof (cases "find (answers_summary P sid) (heard until rx)")
    case None
    then show ?thesis by (simp add: wait_event_find [OF take_summary_find] until_def rx_def)
  next
    case (Some m)
    then have "answers_summary P sid m" by (metis (no_types, lifting) find_Some_iff)
    then have "\<exists>f \<in> set (cs_friends st). pr_friendid f = Some sid" if "pw_dec_persona_state P (sm_body m) = Inr st" for st
      using that by (simp add: answers_summary_def)
    then have "\<exists>f. find (\<lambda>f. pr_friendid f = Some sid) (cs_friends st) = Some f" if "pw_dec_persona_state P (sm_body m) = Inr st" for st
      using that find_None_iff [of "\<lambda>f. pr_friendid f = Some sid" "cs_friends st"] by blast
    then show ?thesis using Some
      by (auto simp: wait_event_find [OF take_summary_find] until_def [symmetric] rx_def [symmetric] summary_answer_def split: sum.split)
  qed
  ultimately show ?thesis by (intro exI [of _ "fst ?w"]) simp
qed

text \<open>An account without an avatar: the summary's address is that of the default avatar, while its
  hash is the empty string and not the default hash.\<close>

theorem unset_avatar_summary:
  assumes "pw_dec_persona_state P (sm_body msg) = Inr st"
    and "find (\<lambda>f. pr_friendid f = Some sid) (cs_friends st) = Some f" "pr_avatar_hash f = None"
    and "summary_from_persona_state P msg sid = Inr (Some s)"
  shows "ps_avatar_url s = ''https://avatars.steamstatic.com/'' @ DEFAULT_AVATAR_HASH @ ''_full.jpg'' \<and>
    ps_avatar_hash s = []"
  using assms
  by (auto simp: summary_from_persona_state_def Let_def avatar_url_def avatar_url_sized_def hash_to_hex_def
      AVATAR_HOST_def split: if_splits)

section \<open>Witnesses\<close>

theorem extract_steam_id64_roundtrip_witness:
  "extract_steam_id64 (''<profile>'' @ ''<steamID64>'' @ show_word (76561197960287930 :: u64) @ ''</steamID64>'' @ ''</profile>'') =
     Some 76561197960287930"
proof -
  have "find_str ''<steamID64>'' (''<profile>'' @ ''<steamID64>'') = Some (length ''<profile>'')" by code_simp
  then show ?thesis by (rule extract_steam_id64_roundtrip)
qed

definition sample_persona :: persona_wire where
  "sample_persona =
     \<lparr>pw_enc_request_friend_data = (\<lambda>m. map ucast (rd_friends m)),
      pw_dec_persona_state = (\<lambda>b. Inr \<lparr>cs_status_flags = Some (if b = [] then 1 else 3),
        cs_friends = [\<lparr>pr_friendid = Some 9, pr_persona_state = Some 1, pr_game_played_app_id = None,
          pr_player_name = Some ''gabe'', pr_avatar_hash = None, pr_game_name = None, pr_gameid = None\<rparr>]\<rparr>),
      pw_enc_profile_info = (\<lambda>_. []), pw_dec_profile_info = (\<lambda>_. Inl [])\<rparr>"

definition persona_message :: "bytes \<Rightarrow> steam_message" where
  "persona_message b = \<lparr>sm_emsg = 766, sm_header = default_header, sm_body = b\<rparr>"

definition summary_env :: env where
  "summary_env =
     \<lparr>en_running = (\<lambda>_. True), en_answers = (\<lambda>_. Some (5, Ack (Inr ()))),
      en_events = (\<lambda>_. [(6, RecvOk (persona_message [])), (7, Lagged 3), (8, RecvOk (persona_message [1]))]),
      en_snapshots = (\<lambda>_ _. None), en_state = (\<lambda>_. LoggedOn 7)\<rparr>"

definition summary_handle :: handle where
  "summary_handle = \<lparr>h_steam_id = 7, h_now = 0, h_sent = [], h_next = 0, h_looks = 0\<rparr>"

lemma sample_summary:
  "take_summary sample_persona 9 (persona_message []) = None"
  "\<exists>s. summary_from_persona_state sample_persona (persona_message [1]) 9 = Inr (Some s) \<and>
     take_summary sample_persona 9 (persona_message [1]) = Some (Inr s) \<and> ps_persona_name s = ''gabe''"
  by (simp_all add: take_summary_def persona_message_def summary_from_persona_state_def sample_persona_def
      emsg_defs REQUIRED_SUMMARY_FLAGS_def Let_def)

theorem request_player_summary_spec_witness:
  "\<exists>s. fst (request_player_summary sample_persona summary_env summary_handle 9) = Ready (Inr s) \<and>
     ps_persona_name s = ''gabe''"
proof -
  have "bit (3 :: u32) 1" "\<not> bit (1 :: u32) 1" by code_simp+
  then have "find (answers_summary sample_persona 9) (heard (h_now summary_handle + 5 + 10000)
      (en_events summary_env (h_looks summary_handle))) = Some (persona_message [1])"
    by (simp add: summary_env_def summary_handle_def answers_summary_def sample_persona_def persona_message_def)
  with request_player_summary_spec [of summary_env summary_handle 5 sample_persona 9]
  show ?thesis by (auto simp: summary_env_def sample_persona_def persona_message_def summary_of_def Let_def)
qed

theorem unset_avatar_summary_witness:
  "\<exists>s. summary_from_persona_state sample_persona (persona_message [1]) 9 = Inr (Some s) \<and> ps_avatar_hash s = []"
proof -
  obtain s where s: "summary_from_persona_state sample_persona (persona_message [1]) 9 = Inr (Some s)"
    using sample_summary(2) by blast
  with unset_avatar_summary [of sample_persona "persona_message [1]" _ 9 _ s]
  show ?thesis by (simp add: sample_persona_def)
qed

end
