(* ===== verification/Pool.thy ===== *)
theory Pool
  imports Proxy "HOL-Library.Multiset"
begin

text \<open>
  The proxy pool of \<^verbatim>\<open>src/pool.rs\<close>: round-robin leases over the healthy proxies, the fallback to the
  least-failed one, and the health bookkeeping.  Log lines are left out.
\<close>

section \<open>State\<close>

record health_policy =
  hp_dead_after :: u32

definition default_policy :: health_policy where
  "default_policy = \<lparr>hp_dead_after = 3\<rparr>"

datatype proxy_status =
    Healthy
  | Unhealthy u32

definition status_is_healthy :: "proxy_status \<Rightarrow> bool" where
  "status_is_healthy s = (case s of Healthy \<Rightarrow> True | Unhealthy _ \<Rightarrow> False)"

record lease =
  le_index :: nat
  le_proxy :: proxy_config

record pool_entry =
  pe_proxy :: proxy_config
  pe_consecutive_failures :: u32

record proxy_pool =
  pp_entries :: "pool_entry list"
  pp_policy :: health_policy
  pp_cursor :: nat

section \<open>Operations\<close>

definition with_policy :: "proxy_config list \<Rightarrow> health_policy \<Rightarrow> proxy_pool" where
  "with_policy proxies policy =
     \<lparr>pp_entries = map (\<lambda>proxy. \<lparr>pe_proxy = proxy, pe_consecutive_failures = 0\<rparr>) proxies,
      pp_policy = policy, pp_cursor = 0\<rparr>"

definition new_pool :: "proxy_config list \<Rightarrow> proxy_pool" where
  "new_pool proxies = with_policy proxies default_policy"

definition pool_len :: "proxy_pool \<Rightarrow> nat" where
  "pool_len p = length (pp_entries p)"

definition pool_is_empty :: "proxy_pool \<Rightarrow> bool" where
  "pool_is_empty p \<longleftrightarrow> pp_entries p = []"

definition is_healthy :: "proxy_pool \<Rightarrow> nat \<Rightarrow> bool" where
  "is_healthy p index \<longleftrightarrow> pe_consecutive_failures (pp_entries p ! index) < hp_dead_after (pp_policy p)"

definition healthy :: "proxy_pool \<Rightarrow> nat" where
  "healthy p = length (filter (is_healthy p) [0..<length (pp_entries p)])"

text \<open>\<^verbatim>\<open>Iterator::min_by_key\<close> on a non-empty iterator: the first of the least.\<close>

fun min_by_key :: "('a \<Rightarrow> 'k::linorder) \<Rightarrow> 'a list \<Rightarrow> 'a option" where
  "min_by_key f [] = None"
| "min_by_key f (x # xs) =
     (case min_by_key f xs of
        None \<Rightarrow> Some x
      | Some y \<Rightarrow> if f x \<le> f y then Some x else Some y)"

definition lease_of :: "proxy_pool \<Rightarrow> nat \<Rightarrow> lease" where
  "lease_of p index = \<lparr>le_index = index, le_proxy = pe_proxy (pp_entries p ! index)\<rparr>"

definition acquire :: "proxy_pool \<Rightarrow> lease option \<times> proxy_pool" where
  "acquire p =
     (let n = length (pp_entries p) in
      if n = 0 then (None, p)
      else case find (\<lambda>step. is_healthy p ((pp_cursor p + step) mod n)) [0..<n] of
        Some step \<Rightarrow>
          let index = (pp_cursor p + step) mod n
          in (Some (lease_of p index), p\<lparr>pp_cursor := (index + 1) mod n\<rparr>)
      | None \<Rightarrow>
          (case min_by_key (\<lambda>i. pe_consecutive_failures (pp_entries p ! i)) [0..<n] of
             Some index \<Rightarrow> (Some (lease_of p index), p\<lparr>pp_cursor := (index + 1) mod n\<rparr>)
           | None \<Rightarrow> (None, p)))"

text \<open>\<^verbatim>\<open>u32::saturating_add(1)\<close>\<close>

definition saturating_inc :: "u32 \<Rightarrow> u32" where
  "saturating_inc w = (if w = - 1 then w else w + 1)"

definition report_success :: "proxy_pool \<Rightarrow> lease \<Rightarrow> proxy_pool" where
  "report_success p l =
     (if le_index l < length (pp_entries p)
      then p\<lparr>pp_entries := (pp_entries p)[le_index l :=
               (pp_entries p ! le_index l)\<lparr>pe_consecutive_failures := 0\<rparr>]\<rparr>
      else p)"

definition report_failure :: "proxy_pool \<Rightarrow> lease \<Rightarrow> proxy_pool" where
  "report_failure p l =
     (if le_index l < length (pp_entries p)
      then let e = pp_entries p ! le_index l
           in p\<lparr>pp_entries := (pp_entries p)[le_index l :=
                  e\<lparr>pe_consecutive_failures := saturating_inc (pe_consecutive_failures e)\<rparr>]\<rparr>
      else p)"

definition status_of :: "proxy_pool \<Rightarrow> pool_entry \<Rightarrow> proxy_status" where
  "status_of p e =
     (if pe_consecutive_failures e < hp_dead_after (pp_policy p) then Healthy
      else Unhealthy (pe_consecutive_failures e))"

definition status :: "proxy_pool \<Rightarrow> lease \<Rightarrow> proxy_status" where
  "status p l =
     (if le_index l < length (pp_entries p) then status_of p (pp_entries p ! le_index l) else Healthy)"

definition statuses :: "proxy_pool \<Rightarrow> (string \<times> proxy_status) list" where
  "statuses p = map (\<lambda>e. (display (pe_proxy e), status_of p e)) (pp_entries p)"

section \<open>Round robin\<close>

text \<open>The contract of a fair server over an abstract queue: it serves the first good element and puts it
  at the back.  Fairness follows for every server of the kind.\<close>

primrec serve :: "('s \<Rightarrow> 'a option \<times> 's) \<Rightarrow> nat \<Rightarrow> 's \<Rightarrow> 'a list" where
  "serve next 0 s = []"
| "serve next (Suc n) s =
     (case next s of (None, _) \<Rightarrow> [] | (Some x, s') \<Rightarrow> x # serve next n s')"

locale round_robin =
  fixes "next" :: "'s \<Rightarrow> 'a option \<times> 's"
    and queue :: "'s \<Rightarrow> 'a list"
    and good :: "'s \<Rightarrow> 'a \<Rightarrow> bool"
  assumes next_good:
    "queue s = ys @ x # zs \<Longrightarrow> \<forall>y \<in> set ys. \<not> good s y \<Longrightarrow> good s x \<Longrightarrow>
       \<exists>s'. next s = (Some x, s') \<and> queue s' = zs @ ys @ [x] \<and> good s' = good s"
begin

lemma serve_prefix:
  "n \<le> length (filter (good s) (queue s)) \<Longrightarrow> serve next n s = take n (filter (good s) (queue s))"
proof (induction n arbitrary: s)
  case (Suc n)
  then have "filter (good s) (queue s) \<noteq> []" by auto
  then obtain x fs where f: "filter (good s) (queue s) = x # fs" by (cases "filter (good s) (queue s)") auto
  from f obtain ys zs where q: "queue s = ys @ x # zs" "\<forall>y \<in> set ys. \<not> good s y" "good s x" "fs = filter (good s) zs"
    unfolding filter_eq_Cons_iff by blast
  from next_good [OF q(1-3)] obtain s' where s': "next s = (Some x, s')" "queue s' = zs @ ys @ [x]" "good s' = good s"
    by blast
  have "filter (good s') (queue s') = fs @ [x]" using s' q by (simp add: filter_empty_conv)
  with Suc.IH [of s'] Suc.prems f have "serve next n s' = take n fs" by simp
  then show ?case using s' f by simp
qed simp

lemma serve_all: "serve next (length (filter (good s) (queue s))) s = filter (good s) (queue s)"
  using serve_prefix [of "length (filter (good s) (queue s))" s] by simp

end

text \<open>The pool's queue: the indices in the order the cursor reaches them.\<close>

definition rotation :: "proxy_pool \<Rightarrow> nat list" where
  "rotation p = rotate (pp_cursor p) [0..<length (pp_entries p)]"

definition next_index :: "proxy_pool \<Rightarrow> nat option \<times> proxy_pool" where
  "next_index p = (case acquire p of (l, p') \<Rightarrow> (map_option le_index l, p'))"

lemma length_rotation [simp]: "length (rotation p) = length (pp_entries p)"
  by (simp add: rotation_def)

lemma nth_rotation:
  assumes "k < length (pp_entries p)"
  shows "rotation p ! k = (pp_cursor p + k) mod length (pp_entries p)"
proof -
  have "(pp_cursor p + k) mod length (pp_entries p) < length (pp_entries p)"
    using assms by (intro mod_less_divisor) linarith
  then show ?thesis using assms by (simp add: rotation_def nth_rotate)
qed

lemma find_upt_Some:
  "j < n \<Longrightarrow> P j \<Longrightarrow> \<forall>k < j. \<not> P k \<Longrightarrow> find P [0..<n] = Some j"
  by (auto simp: find_Some_iff nth_append intro!: exI [of _ j])

lemma rotation_split:
  assumes "rotation p = ys @ x # zs"
  shows "length ys < length (pp_entries p)" "x = (pp_cursor p + length ys) mod length (pp_entries p)"
    "rotation (p\<lparr>pp_cursor := (x + 1) mod length (pp_entries p)\<rparr>) = zs @ ys @ [x]"
proof -
  let ?n = "length (pp_entries p)" and ?j = "length ys"
  show len: "?j < ?n" using arg_cong [OF assms, of length] by simp
  show x: "x = (pp_cursor p + ?j) mod ?n" using nth_rotation [OF len] assms by simp
  have turn: "rotate (m mod ?n) [0..<?n] = rotate m [0..<?n]" for m
    using rotate_conv_mod [of m "[0..<?n]"] by simp
  have "(x + 1) mod ?n = Suc (pp_cursor p + ?j) mod ?n" unfolding x by (simp add: mod_Suc_eq)
  then have "rotation (p\<lparr>pp_cursor := (x + 1) mod ?n\<rparr>) = rotate (Suc (pp_cursor p + ?j)) [0..<?n]"
    unfolding rotation_def using turn [of "Suc (pp_cursor p + ?j)"] by simp
  also have "\<dots> = rotate (length (ys @ [x])) (rotation p)"
    unfolding rotation_def rotate_rotate by (simp add: add.commute)
  also have "\<dots> = zs @ ys @ [x]"
    using rotate_append [of "ys @ [x]" zs] by (simp add: assms)
  finally show "rotation (p\<lparr>pp_cursor := (x + 1) mod ?n\<rparr>) = zs @ ys @ [x]" .
qed

lemma acquire_healthy:
  assumes "rotation p = ys @ x # zs" "\<forall>y \<in> set ys. \<not> is_healthy p y" "is_healthy p x"
  shows "acquire p = (Some (lease_of p x), p\<lparr>pp_cursor := (x + 1) mod length (pp_entries p)\<rparr>)"
proof -
  let ?n = "length (pp_entries p)" and ?j = "length ys"
  note len = rotation_split(1) [OF assms(1)] and x = rotation_split(2) [OF assms(1)]
  have "\<not> is_healthy p ((pp_cursor p + k) mod ?n)" if "k < ?j" for k
  proof -
    have "rotation p ! k = ys ! k" using that by (simp add: assms(1) nth_append)
    then show ?thesis using assms(2) that len nth_rotation [of k p] by (metis nth_mem order.strict_trans)
  qed
  then have "find (\<lambda>step. is_healthy p ((pp_cursor p + step) mod ?n)) [0..<?n] = Some ?j"
    using len assms(3) x by (intro find_upt_Some) auto
  then show ?thesis using len by (auto simp: acquire_def Let_def x [symmetric])
qed

lemma acquire_exhausted:
  assumes "\<forall>i \<in> set (rotation p). \<not> is_healthy p i" "pp_entries p \<noteq> []"
  shows "\<exists>x < length (pp_entries p). min_by_key (\<lambda>i. pe_consecutive_failures (pp_entries p ! i)) [0..<length (pp_entries p)] = Some x \<and>
    acquire p = (Some (lease_of p x), p\<lparr>pp_cursor := (x + 1) mod length (pp_entries p)\<rparr>)"
proof -
  let ?n = "length (pp_entries p)"
  have in_range: "\<exists>x \<in> set xs. min_by_key f xs = Some x" if "xs \<noteq> []" for f :: "nat \<Rightarrow> u32" and xs
    using that
  proof (induction xs)
    case (Cons y ys)
    then show ?case by (cases "ys = []") (auto split: option.split)
  qed simp
  have "find (\<lambda>step. is_healthy p ((pp_cursor p + step) mod ?n)) [0..<?n] = None"
    using assms by (auto simp: find_None_iff rotation_def)
  moreover obtain x where "x \<in> set [0..<?n]"
    "min_by_key (\<lambda>i. pe_consecutive_failures (pp_entries p ! i)) [0..<?n] = Some x"
    using in_range [of "[0..<?n]" "\<lambda>i. pe_consecutive_failures (pp_entries p ! i)"] assms(2) by auto
  ultimately show ?thesis using assms(2) by (auto simp: acquire_def Let_def)
qed

interpretation leases: round_robin next_index rotation is_healthy
proof
  fix p ys x zs
  assume "rotation p = ys @ x # zs" "\<forall>y \<in> set ys. \<not> is_healthy p y" "is_healthy p x"
  note a = acquire_healthy [OF this] rotation_split(3) [OF this(1)]
  have "is_healthy (p\<lparr>pp_cursor := c\<rparr>) = is_healthy p" for c by (simp add: is_healthy_def fun_eq_iff)
  with a show "\<exists>p'. next_index p = (Some x, p') \<and> rotation p' = zs @ ys @ [x] \<and> is_healthy p' = is_healthy p"
    by (simp add: next_index_def lease_of_def)
qed

section \<open>Properties\<close>

text \<open>The pool's promise over its queue: the first good element, or else the least failed one with the
  lowest index; whatever is served goes to the back.\<close>

definition serve_spec :: "(nat \<Rightarrow> bool) \<Rightarrow> (nat \<Rightarrow> u32) \<Rightarrow> nat list \<Rightarrow> nat option \<times> nat list" where
  "serve_spec good failures q =
     (let to_back = (\<lambda>x. tl (dropWhile (\<lambda>y. y \<noteq> x) q) @ takeWhile (\<lambda>y. y \<noteq> x) q @ [x])
      in case find good q of
           Some x \<Rightarrow> (Some x, to_back x)
         | None \<Rightarrow>
             (case min_by_key failures (sort q) of
                Some x \<Rightarrow> (Some x, to_back x)
              | None \<Rightarrow> (None, q)))"

lemma mset_rotation: "mset (rotation p) = mset [0..<length (pp_entries p)]"
  unfolding rotation_def rotate_drop_take
  by (metis append_take_drop_id mset_append union_commute)

lemma sort_rotation: "sort (rotation p) = [0..<length (pp_entries p)]"
  by (rule properties_for_sort) (simp_all add: mset_rotation)

lemma rotation_distinct: "distinct (rotation p)" "set (rotation p) = {..<length (pp_entries p)}"
  by (auto simp: rotation_def)

lemma rotation_to_back:
  assumes "x \<in> set (rotation p)"
  shows "rotation (p\<lparr>pp_cursor := (x + 1) mod length (pp_entries p)\<rparr>) =
    tl (dropWhile (\<lambda>y. y \<noteq> x) (rotation p)) @ takeWhile (\<lambda>y. y \<noteq> x) (rotation p) @ [x]"
proof -
  from assms obtain ys zs where q: "rotation p = ys @ x # zs" by (auto simp: in_set_conv_decomp)
  with rotation_distinct(1) [of p] have "takeWhile (\<lambda>y. y \<noteq> x) (rotation p) = ys"
    "dropWhile (\<lambda>y. y \<noteq> x) (rotation p) = x # zs"
    by (auto simp: q takeWhile_append dropWhile_append)
  with rotation_split(3) [OF q] show ?thesis by simp
qed

text \<open>C32: \<^verbatim>\<open>acquire\<close> refines round robin: on the queue of indices in cursor order it serves the first healthy
  proxy, or when all are dead the least-failed one, moves it to the back and hands out its address; it
  returns nothing only for an empty pool.\<close>

theorem acquire_refines_round_robin:
  fixes p
  defines "failures \<equiv> \<lambda>i. pe_consecutive_failures (pp_entries p ! i)"
    and "l \<equiv> fst (acquire p)" and "p' \<equiv> snd (acquire p)"
  shows "(map_option le_index l, rotation p') = serve_spec (is_healthy p) failures (rotation p) \<and>
    map_option le_proxy l = map_option (\<lambda>l. pe_proxy (pp_entries p ! le_index l)) l \<and>
    (l = None \<longleftrightarrow> pool_is_empty p)"
proof -
  consider "pp_entries p = []" | x where "find (is_healthy p) (rotation p) = Some x"
    | "pp_entries p \<noteq> []" "find (is_healthy p) (rotation p) = None" by fastforce
  then show ?thesis
  proof cases
    case 1
    then show ?thesis by (simp add: l_def p'_def acquire_def serve_spec_def rotation_def pool_is_empty_def)
  next
    case (2 x)
    then obtain j where j: "j < length (rotation p)" "is_healthy p (rotation p ! j)" "x = rotation p ! j"
      "\<forall>k < j. \<not> is_healthy p (rotation p ! k)" unfolding find_Some_iff by blast
    then have q: "rotation p = take j (rotation p) @ x # drop (Suc j) (rotation p)" by (simp add: id_take_nth_drop)
    have "acquire p = (Some (lease_of p x), p\<lparr>pp_cursor := (x + 1) mod length (pp_entries p)\<rparr>)"
      by (rule acquire_healthy [OF q]) (use j in \<open>auto simp: in_set_conv_nth\<close>)
    with 2 j rotation_to_back [of x p] show ?thesis
      by (auto simp: l_def p'_def serve_spec_def lease_of_def pool_is_empty_def)
  next
    case 3
    then have "\<forall>i \<in> set (rotation p). \<not> is_healthy p i" by (auto simp: find_None_iff)
    from acquire_exhausted [OF this 3(1)] obtain x where x: "x < length (pp_entries p)"
      "min_by_key failures [0..<length (pp_entries p)] = Some x"
      "acquire p = (Some (lease_of p x), p\<lparr>pp_cursor := (x + 1) mod length (pp_entries p)\<rparr>)"
      unfolding failures_def by blast
    then have "x \<in> set (rotation p)" by (simp add: rotation_distinct)
    with 3 x rotation_to_back [of x p] show ?thesis
      by (auto simp: l_def p'_def serve_spec_def sort_rotation lease_of_def pool_is_empty_def)
  qed
qed

lemma serve_acquire: "map le_index (serve acquire n p) = serve next_index n p"
  by (induction n arbitrary: p) (auto simp: next_index_def split: prod.split option.split)

text \<open>no healthy proxy starves: in the next \<open>healthy p\<close> leases every healthy proxy is handed out
  exactly once, in rotation order, and no dead one is.\<close>

theorem healthy_served_once:
  "map le_index (serve acquire (healthy p) p) = filter (is_healthy p) (rotation p) \<and>
   distinct (map le_index (serve acquire (healthy p) p)) \<and>
   set (map le_index (serve acquire (healthy p) p)) = {i. i < pool_len p \<and> is_healthy p i}"
proof -
  have "length (filter (is_healthy p) (rotation p)) = healthy p"
    unfolding healthy_def using mset_rotation [of p] by (metis mset_filter size_mset)
  then have "map le_index (serve acquire (healthy p) p) = filter (is_healthy p) (rotation p)"
    using leases.serve_all [of p] by (simp only: serve_acquire)
  then show ?thesis using rotation_distinct [of p] by (auto simp: pool_len_def)
qed

text \<open>Reports on leases, in order; \<open>True\<close> is a success.\<close>

definition report :: "proxy_pool \<Rightarrow> lease \<times> bool \<Rightarrow> proxy_pool" where
  "report p r = (if snd r then report_success p (fst r) else report_failure p (fst r))"

definition trailing_failures :: "nat \<Rightarrow> (lease \<times> bool) list \<Rightarrow> nat" where
  "trailing_failures i rs =
     length (takeWhile (\<lambda>r. \<not> snd r) (rev (filter (\<lambda>r. le_index (fst r) = i) rs)))"

lemma unat_saturating_inc: "unat (saturating_inc w) = min (Suc (unat w)) (2 ^ 32 - 1)"
proof -
  have top: "unat (- 1 :: u32) = 2 ^ 32 - 1" by (simp add: unsigned_minus_1_eq_mask mask_eq_exp_minus_1)
  show ?thesis
  proof (cases "w = - 1")
    case True
    have inc: "saturating_inc (- 1) = - 1" by (simp add: saturating_inc_def)
    show ?thesis unfolding True inc top by simp
  next
    case False
    with top have "unat w \<noteq> 2 ^ 32 - 1" by (metis word_unat_eq_iff)
    then have "unat w < 2 ^ 32 - 1" using unsigned_less [of w, where ?'a = nat] by simp
    then show ?thesis using False by (simp add: saturating_inc_def unat_word_ariths)
  qed
qed

text \<open>What the reports so far leave in each slot.\<close>

lemma report_keeps [simp]:
  "length (pp_entries (report p r)) = length (pp_entries p)" "pp_policy (report p r) = pp_policy p"
  by (auto simp: report_def report_success_def report_failure_def Let_def)

lemma report_count:
  assumes "i < length (pp_entries p)"
  shows "unat (pe_consecutive_failures (pp_entries (report p r) ! i)) =
    (let k = unat (pe_consecutive_failures (pp_entries p ! i)) in
     if le_index (fst r) \<noteq> i then k else if snd r then 0 else min (Suc k) (2 ^ 32 - 1))"
  using assms
  by (cases "le_index (fst r) = i")
    (auto simp: report_def report_success_def report_failure_def Let_def unat_saturating_inc)

lemma trailing_failures_snoc:
  "trailing_failures i (rs @ [r]) =
     (if le_index (fst r) \<noteq> i then trailing_failures i rs
      else if snd r then 0 else Suc (trailing_failures i rs))"
  by (simp add: trailing_failures_def)

lemma reports_count:
  assumes "i < length proxies"
  shows "length (pp_entries (foldl report (with_policy proxies policy) rs)) = length proxies \<and>
    pp_policy (foldl report (with_policy proxies policy) rs) = policy \<and>
    unat (pe_consecutive_failures (pp_entries (foldl report (with_policy proxies policy) rs) ! i)) =
      min (trailing_failures i rs) (2 ^ 32 - 1)"
proof (induction rs rule: rev_induct)
  case Nil
  show ?case using assms by (simp add: with_policy_def trailing_failures_def)
next
  case (snoc r rs)
  then show ?case using report_count [of i "foldl report (with_policy proxies policy) rs" r] assms
    by (auto simp: trailing_failures_snoc Let_def min_def)
qed

text \<open>A proxy is dead exactly when its last \<open>dead_after\<close> reports were all failures: one success brings it
  back, and the count it carries saturates instead of wrapping, so that a dead proxy never turns
  healthy by failing more.\<close>

theorem status_spec:
  fixes policy rs
  assumes "le_index l < length proxies"
  defines "p \<equiv> foldl report (with_policy proxies policy) rs"
  shows "(if trailing_failures (le_index l) rs < unat (hp_dead_after policy) then status p l = Healthy
     else \<exists>k. status p l = Unhealthy k \<and> unat k = min (trailing_failures (le_index l) rs) (2 ^ 32 - 1))"
proof -
  note c = reports_count [OF assms(1), of policy rs, folded p_def]
  have "unat (hp_dead_after policy) \<le> 2 ^ 32 - 1"
    using unsigned_less [of "hp_dead_after policy", where ?'a = nat] by simp
  then have "pe_consecutive_failures (pp_entries p ! le_index l) < hp_dead_after policy \<longleftrightarrow>
      trailing_failures (le_index l) rs < unat (hp_dead_after policy)"
    unfolding word_less_nat_alt using c by (auto simp: min_def)
  then show ?thesis using c assms(1) by (simp add: status_def status_of_def)
qed

section \<open>Witnesses\<close>

definition sample_lease :: lease where
  "sample_lease = \<lparr>le_index = 0, le_proxy = sample_proxy\<rparr>"

theorem status_spec_witness:
  "let l = sample_lease; after = (\<lambda>rs. status (foldl report (with_policy [sample_proxy] default_policy) rs) l)
   in (\<exists>k. after [(l, False), (l, True), (l, False), (l, False), (l, False)] = Unhealthy k \<and> unat k = 3) \<and>
      after [(l, False), (l, False), (l, False), (l, True)] = Healthy"
proof -
  let ?l = sample_lease
  let ?dead = "[(?l, False), (?l, True), (?l, False), (?l, False), (?l, False)]"
  let ?alive = "[(?l, False), (?l, False), (?l, False), (?l, True)]"
  have l: "le_index ?l = 0" by (simp add: sample_lease_def)
  have "trailing_failures 0 ?dead = 3" "trailing_failures 0 ?alive = 0" "unat (hp_dead_after default_policy) = 3"
    by (simp_all add: trailing_failures_def l default_policy_def)
  then show ?thesis
    using status_spec [where l = ?l and proxies = "[sample_proxy]" and policy = default_policy and rs = ?dead]
      status_spec [where l = ?l and proxies = "[sample_proxy]" and policy = default_policy and rs = ?alive]
    unfolding l Let_def by simp
qed

end
