(* ===== verification/Rust_Fmt.thy ===== *)
theory Rust_Fmt
  imports Rust_Str
begin

text \<open>
  The single-line \<^verbatim>\<open>Debug\<close> output of the standard library: the builders \<^verbatim>\<open>debug_struct\<close> and
  \<^verbatim>\<open>debug_tuple\<close>, and the output of strings, numbers, options, lists and durations.  A string is
  escaped character by character.  Which characters beyond ASCII are printed as they are and which
  as \<^verbatim>\<open>\u{...}\<close> is a table of the Unicode standard, the argument \<open>esc\<close>, that gets the bytes of one
  character.
\<close>

definition comma_separated :: "string list \<Rightarrow> string" where
  "comma_separated ss = concat (case ss of [] \<Rightarrow> [] | s # rest \<Rightarrow> s # map (\<lambda>t. '', '' @ t) rest)"

definition debug_struct :: "string \<Rightarrow> (string \<times> string) list \<Rightarrow> string" where
  "debug_struct name fields =
     (if fields = [] then name
      else name @ '' { '' @ comma_separated (map (\<lambda>(f, v). f @ '': '' @ v) fields) @ '' }'')"

definition debug_tuple :: "string \<Rightarrow> string list \<Rightarrow> string" where
  "debug_tuple name vals = (if vals = [] then name else name @ ''('' @ comma_separated vals @ '')'')"

definition debug_list :: "string list \<Rightarrow> string" where
  "debug_list vals = ''['' @ comma_separated vals @ '']''"

definition debug_option :: "('a \<Rightarrow> string) \<Rightarrow> 'a option \<Rightarrow> string" where
  "debug_option f v = (case v of None \<Rightarrow> ''None'' | Some x \<Rightarrow> debug_tuple ''Some'' [f x])"

definition debug_bool :: "bool \<Rightarrow> string" where
  "debug_bool b = (if b then ''true'' else ''false'')"

text \<open>A quote, CHR 34, and a backslash, CHR 92.\<close>

definition escape_ascii :: "nat \<Rightarrow> string" where
  "escape_ascii n =
     (let backslash = char_of (92 :: nat)
      in if n = 0 then [backslash, CHR ''0'']
         else if n = 9 then [backslash, CHR ''t'']
         else if n = 10 then [backslash, CHR ''n'']
         else if n = 13 then [backslash, CHR ''r'']
         else if n = 34 \<or> n = 92 then [backslash, char_of n]
         else if n < 32 \<or> n = 127
         then [backslash] @ ''u{'' @ (if n < 16 then show_hex 1 n else show_hex 2 n) @ ''}''
         else [char_of n])"

function escape_debug :: "(bytes \<Rightarrow> string) \<Rightarrow> bytes \<Rightarrow> string" where
  "escape_debug esc bs =
     (if bs = [] then []
      else let n = snd (utf8_step bs)
           in (if n = 1 then escape_ascii (unat (hd bs)) else esc (take n bs)) @ escape_debug esc (drop n bs))"
  by pat_completeness auto
termination
  by (relation "measure (\<lambda>(_, bs). length bs)") (use utf8_step_pos in \<open>auto intro: diff_less\<close>)

declare escape_debug.simps [simp del]

definition debug_str :: "(bytes \<Rightarrow> string) \<Rightarrow> string \<Rightarrow> string" where
  "debug_str esc s = [char_of (34 :: nat)] @ escape_debug esc (as_bytes s) @ [char_of (34 :: nat)]"

text \<open>A \<^verbatim>\<open>Duration\<close> of whole milliseconds: seconds with their decimals, or milliseconds below one second.\<close>

definition debug_duration :: "millis \<Rightarrow> string" where
  "debug_duration d =
     (if d = 0 then ''0ns''
      else if d < 1000 then show_nat d @ ''ms''
      else show_nat (d div 1000) @
        (let f = d mod 1000
         in if f = 0 then []
            else if f mod 100 = 0 then ''.'' @ show_nat (f div 100)
            else if f mod 10 = 0 then ''.'' @ [digit_char (f div 100), digit_char (f div 10 mod 10)]
            else ''.'' @ [digit_char (f div 100), digit_char (f div 10 mod 10), digit_char (f mod 10)]) @ ''s'')"

lemma debug_option_map [simp]: "debug_option f (map_option g v) = debug_option (\<lambda>x. f (g x)) v"
  by (cases v) (simp_all add: debug_option_def)

end
