(* ===== verification/Credentials.thy ===== *)
theory Credentials
  imports Rust_Fmt Proxy
begin

text \<open>
  The credentials of \<^verbatim>\<open>src/auth/credentials.rs\<close>, the builder and the outcome of a sign-in from
  \<^verbatim>\<open>src/auth/signin.rs\<close>, and the \<^verbatim>\<open>Debug\<close> output of all of them, with that of the proxy they embed
  (\<^verbatim>\<open>src/transport/proxy.rs\<close>).  The secrets are the account password, the two-factor secret, the
  refresh and access tokens and the proxy password.
\<close>

section \<open>Data\<close>

definition REDACTED :: string where
  "REDACTED = ''<redacted>''"

record password_credentials =
  pw_account_name :: string
  pw_password :: string
  pw_shared_secret :: "string option"

datatype refresh_token = RefreshToken (expose: string)

datatype credentials =
    Password password_credentials
  | Token refresh_token

definition credentials_password :: "string \<Rightarrow> string \<Rightarrow> string option \<Rightarrow> credentials" where
  "credentials_password account_name password shared_secret =
     Password \<lparr>pw_account_name = account_name, pw_password = password, pw_shared_secret = shared_secret\<rparr>"

definition credentials_refresh_token :: "string \<Rightarrow> credentials" where
  "credentials_refresh_token token = Token (RefreshToken token)"

record sign_in =
  si_credentials :: credentials
  si_proxy :: "proxy_config option"

definition with_password :: "string \<Rightarrow> string \<Rightarrow> sign_in" where
  "with_password account password =
     \<lparr>si_credentials = credentials_password account password None, si_proxy = None\<rparr>"

definition with_refresh_token :: "string \<Rightarrow> sign_in" where
  "with_refresh_token token = \<lparr>si_credentials = credentials_refresh_token token, si_proxy = None\<rparr>"

definition with_shared_secret :: "string \<Rightarrow> sign_in \<Rightarrow> sign_in" where
  "with_shared_secret secret s =
     (case si_credentials s of
        Password p \<Rightarrow> s\<lparr>si_credentials := Password (p\<lparr>pw_shared_secret := Some secret\<rparr>)\<rparr>
      | Token _ \<Rightarrow> s)"

definition through_proxy :: "proxy_config \<Rightarrow> sign_in \<Rightarrow> sign_in" where
  "through_proxy p s = s\<lparr>si_proxy := Some p\<rparr>"

datatype sign_in_outcome =
    Success u64 refresh_token "string option"
  | NeedsMobileGuardCode
  | GuardCodeRejected
  | NeedsEmailGuardCode string
  | InvalidCredentials
  | TokenRejected
  | RateLimited "millis option"

section \<open>Debug output\<close>

definition debug_password_credentials :: "(bytes \<Rightarrow> string) \<Rightarrow> password_credentials \<Rightarrow> string" where
  "debug_password_credentials esc c =
     debug_struct ''PasswordCredentials''
       [(''account_name'', debug_str esc (pw_account_name c)),
        (''password'', debug_str esc REDACTED),
        (''shared_secret'', debug_option (debug_str esc) (map_option (\<lambda>_. REDACTED) (pw_shared_secret c)))]"

definition debug_refresh_token :: "(bytes \<Rightarrow> string) \<Rightarrow> refresh_token \<Rightarrow> string" where
  "debug_refresh_token esc t = debug_tuple ''RefreshToken'' [debug_str esc REDACTED]"

definition debug_credentials :: "(bytes \<Rightarrow> string) \<Rightarrow> credentials \<Rightarrow> string" where
  "debug_credentials esc c =
     (case c of
        Password p \<Rightarrow> debug_tuple ''Password'' [debug_password_credentials esc p]
      | Token t \<Rightarrow> debug_tuple ''RefreshToken'' [debug_refresh_token esc t])"

definition debug_proxy_credentials :: "(bytes \<Rightarrow> string) \<Rightarrow> proxy_credentials \<Rightarrow> string" where
  "debug_proxy_credentials esc c =
     debug_struct ''ProxyCredentials''
       [(''username'', debug_str esc (pc_username c)), (''password'', debug_str esc ''<redacted>'')]"

definition debug_proxy_config :: "(bytes \<Rightarrow> string) \<Rightarrow> proxy_config \<Rightarrow> string" where
  "debug_proxy_config esc p =
     debug_struct ''ProxyConfig''
       [(''kind'', case px_kind p of PkSocks5 \<Rightarrow> ''Socks5'' | PkHttpConnect \<Rightarrow> ''HttpConnect''),
        (''host'', debug_str esc (px_host p)),
        (''port'', show_word (px_port p)),
        (''credentials'', debug_option (debug_proxy_credentials esc) (px_credentials p)),
        (''tls_to_proxy'', debug_bool (px_tls_to_proxy p))]"

definition debug_sign_in :: "(bytes \<Rightarrow> string) \<Rightarrow> sign_in \<Rightarrow> string" where
  "debug_sign_in esc s =
     debug_struct ''SignIn''
       [(''credentials'', debug_credentials esc (si_credentials s)),
        (''proxy'', debug_option (debug_proxy_config esc) (si_proxy s))]"

definition debug_outcome :: "(bytes \<Rightarrow> string) \<Rightarrow> sign_in_outcome \<Rightarrow> string" where
  "debug_outcome esc out =
     (case out of
        Success sid _ access_token \<Rightarrow>
          debug_struct ''Success''
            [(''steam_id'', show_word sid),
             (''refresh_token'', debug_str esc ''<redacted>''),
             (''access_token'', debug_option (debug_str esc) (map_option (\<lambda>_. ''<redacted>'') access_token))]
      | NeedsMobileGuardCode \<Rightarrow> ''NeedsMobileGuardCode''
      | GuardCodeRejected \<Rightarrow> ''GuardCodeRejected''
      | NeedsEmailGuardCode email_domain \<Rightarrow>
          debug_struct ''NeedsEmailGuardCode'' [(''email_domain'', debug_str esc email_domain)]
      | InvalidCredentials \<Rightarrow> ''InvalidCredentials''
      | TokenRejected \<Rightarrow> ''TokenRejected''
      | RateLimited retry_hint \<Rightarrow>
          debug_struct ''RateLimited'' [(''retry_hint'', debug_option debug_duration retry_hint)])"

section \<open>Secrets do not reach the output\<close>

text \<open>The same value with every secret in it replaced by \<open>x\<close>.\<close>

definition swap_credentials :: "string \<Rightarrow> credentials \<Rightarrow> credentials" where
  "swap_credentials x c =
     (case c of
        Password p \<Rightarrow> Password (p\<lparr>pw_password := x, pw_shared_secret := map_option (\<lambda>_. x) (pw_shared_secret p)\<rparr>)
      | Token t \<Rightarrow> Token (RefreshToken x))"

definition swap_proxy :: "string \<Rightarrow> proxy_config \<Rightarrow> proxy_config" where
  "swap_proxy x = px_credentials_update (map_option (pc_password_update (\<lambda>_. x)))"

definition swap_sign_in :: "string \<Rightarrow> sign_in \<Rightarrow> sign_in" where
  "swap_sign_in x s =
     \<lparr>si_credentials = swap_credentials x (si_credentials s), si_proxy = map_option (swap_proxy x) (si_proxy s)\<rparr>"

definition swap_outcome :: "string \<Rightarrow> sign_in_outcome \<Rightarrow> sign_in_outcome" where
  "swap_outcome x out =
     (case out of Success sid t a \<Rightarrow> Success sid (RefreshToken x) (map_option (\<lambda>_. x) a) | _ \<Rightarrow> out)"

lemma proxy_password_hidden [simp]: "debug_proxy_config esc (swap_proxy x p) = debug_proxy_config esc p"
proof -
  have "debug_proxy_credentials esc (pc_password_update (\<lambda>_. x) c) = debug_proxy_credentials esc c" for c
    by (simp add: debug_proxy_credentials_def)
  then show ?thesis by (simp add: debug_proxy_config_def swap_proxy_def)
qed

lemma credentials_hidden [simp]: "debug_credentials esc (swap_credentials x c) = debug_credentials esc c"
  by (cases c) (simp_all add: debug_credentials_def swap_credentials_def debug_password_credentials_def
      debug_refresh_token_def)

lemma sign_in_hidden: "debug_sign_in esc (swap_sign_in x s) = debug_sign_in esc s"
  by (simp add: debug_sign_in_def swap_sign_in_def)

lemma outcome_hidden: "debug_outcome esc (swap_outcome x out) = debug_outcome esc out"
  by (cases out) (simp_all add: debug_outcome_def swap_outcome_def)

end
