(* ===== verification/Debug_Output.thy ===== *)
theory Debug_Output
  imports Driver Pool Credentials
begin

text \<open>
  The derived \<^verbatim>\<open>Debug\<close> output of the types outside \<^verbatim>\<open>src/auth/\<close> that carry a secret, \<^verbatim>\<open>SessionConfig\<close> of
  \<^verbatim>\<open>src/session/driver.rs\<close> and \<^verbatim>\<open>Lease\<close> of \<^verbatim>\<open>src/pool.rs\<close>, and what every printed form keeps to itself.
\<close>

definition debug_session_config :: "(bytes \<Rightarrow> string) \<Rightarrow> session_config \<Rightarrow> string" where
  "debug_session_config esc c =
     debug_struct ''SessionConfig''
       [(''account_name'', debug_str esc (sc_account_name c)),
        (''refresh_token'', debug_refresh_token esc (RefreshToken (sc_refresh_token c))),
        (''proxy'', debug_option (debug_proxy_config esc) (sc_proxy c))]"

definition debug_lease :: "(bytes \<Rightarrow> string) \<Rightarrow> lease \<Rightarrow> string" where
  "debug_lease esc l =
     debug_struct ''Lease''
       [(''index'', show_nat (le_index l)), (''proxy'', debug_proxy_config esc (le_proxy l))]"

definition swap_session_config :: "string \<Rightarrow> session_config \<Rightarrow> session_config" where
  "swap_session_config x c = c\<lparr>sc_refresh_token := x, sc_proxy := map_option (swap_proxy x) (sc_proxy c)\<rparr>"

text \<open>C31: the printed form of a sign-in request, of its outcome, of a session's configuration and of a leased proxy is
  the same whatever the secrets in them are, so neither the account password, the two-factor secret, the
  tokens nor the proxy password can be read off a log.\<close>

theorem debug_hides_secrets:
  "debug_sign_in esc (swap_sign_in x s) = debug_sign_in esc s \<and>
   debug_outcome esc (swap_outcome x out) = debug_outcome esc out \<and>
   debug_session_config esc (swap_session_config x c) = debug_session_config esc c \<and>
   debug_lease esc (l\<lparr>le_proxy := swap_proxy x (le_proxy l)\<rparr>) = debug_lease esc l"
  by (simp add: sign_in_hidden outcome_hidden debug_session_config_def swap_session_config_def debug_refresh_token_def
      debug_lease_def)

end
