(* ===== verification/Webapi.thy ===== *)
theory Webapi
  imports Credentials Http
begin

text \<open>
  The web client of \<^verbatim>\<open>src/auth/webapi.rs\<close> and the password encryption of \<^verbatim>\<open>src/auth/rsa_pw.rs\<close>.  The
  record \<open>web\<close> is the clock and the calls made so far.  The environment \<open>web_env\<close> holds the url
  crate, base64, the header reader and \<^verbatim>\<open>reqwest\<close>, the latter as it behaves for the n-th call
  together with the time that call takes.  The \<^verbatim>\<open>rsa\<close> crate is the record \<open>rsa_lib\<close>; the randomness of
  the padding is part of its \<open>rl_encrypt\<close>.
\<close>

section \<open>The web client\<close>

definition BASE_URL :: string where
  "BASE_URL = ''https://api.steampowered.com/IAuthenticationService/''"

definition RATE_LIMIT_BACKOFF :: millis where
  "RATE_LIMIT_BACKOFF = secs 60"

datatype http_method = Get | Post

record web =
  wb_now :: millis
  wb_calls :: "(string \<times> http_method \<times> bytes) list"

record ('p, 'c) web_env =
  we_url_parse :: "string \<Rightarrow> string + string"
  we_b64_encode :: "bytes \<Rightarrow> string"
  we_header_to_str :: "bytes \<Rightarrow> string option"
  we_reqwest :: "nat \<Rightarrow> ('p, 'c) reqwest"
  we_took :: "nat \<Rightarrow> millis"

definition map_non_ok_eresult :: "i32 \<Rightarrow> sign_in_outcome option" where
  "map_non_ok_eresult er =
     (if er = INVALID_PASSWORD then Some InvalidCredentials
      else if er = ACCOUNT_LOGON_DENIED then Some (NeedsEmailGuardCode [])
      else if er = ACCOUNT_LOGIN_DENIED_NEED_TWO_FACTOR then Some NeedsMobileGuardCode
      else if er = TWO_FACTOR_CODE_MISMATCH then Some GuardCodeRejected
      else if er = RATE_LIMIT_EXCEEDED \<or> er = ACCOUNT_LOGIN_DENIED_THROTTLE
      then Some (RateLimited (Some RATE_LIMIT_BACKOFF))
      else None)"

definition url_for :: "('p, 'c) web_env \<Rightarrow> string \<Rightarrow> string result" where
  "url_for E method = map_err UrlParse (we_url_parse E (BASE_URL @ method @ ''/v1/''))"

definition new_client :: "('p, 'c) web_env \<Rightarrow> proxy_config option \<Rightarrow> web \<Rightarrow> 'c result" where
  "new_client E proxy w = client (we_reqwest E (length (wb_calls w))) proxy"

text \<open>The answer to a request: the result code of the header, and the decoded body.\<close>

definition read_response ::
    "('p, 'c) web_env \<Rightarrow> string \<Rightarrow> (bytes \<Rightarrow> string + 'r) \<Rightarrow> http_response \<Rightarrow> (i32 \<times> 'r) result" where
  "read_response E method dec response =
     and_then (ok_or (AuthRejected (method @ '': response missing x-eresult header''))
                 (header_get response ''x-eresult'')) (\<lambda>er_header.
     and_then (ok_or (AuthRejected (method @ '': x-eresult not ascii'')) (we_header_to_str E er_header)) (\<lambda>text.
     and_then (ok_or (AuthRejected (method @ '': x-eresult not an integer'')) (parse_i32 text)) (\<lambda>er.
     and_then (map_err (\<lambda>e. Network (method @ '' read body: '' @ e)) (hr_bytes response)) (\<lambda>body.
     and_then (map_err (\<lambda>e. AuthRejected (''decode '' @ method @ '' response: '' @ e)) (dec body)) (\<lambda>resp.
     Inr (er, resp))))))"

definition call ::
    "('p, 'c) web_env \<Rightarrow> 'c \<Rightarrow> string \<Rightarrow> http_method \<Rightarrow> bytes \<Rightarrow> (bytes \<Rightarrow> string + 'r) \<Rightarrow> web \<Rightarrow>
     (i32 \<times> 'r) result \<times> web" where
  "call E c method http_method req dec w =
     (case url_for E method of
        Inl e \<Rightarrow> (Inl e, w)
      | Inr url \<Rightarrow>
          let n = length (wb_calls w);
              params = [(''input_protobuf_encoded'', we_b64_encode E req)];
              sent = (case http_method of
                        Get \<Rightarrow> rq_get (we_reqwest E n) c url params
                      | Post \<Rightarrow> rq_post_form (we_reqwest E n) c url params)
          in (and_then (map_err (\<lambda>e. Network (method @ '': '' @ e)) sent) (read_response E method dec),
              \<lparr>wb_now = wb_now w + we_took E n, wb_calls = wb_calls w @ [(method, http_method, req)]\<rparr>))"

section \<open>Encrypting the password\<close>

record 'k rsa_lib =
  rl_parse_bytes :: "bytes \<Rightarrow> nat \<Rightarrow> nat option"
  rl_new :: "nat \<Rightarrow> nat \<Rightarrow> string + 'k"
  rl_encrypt :: "'k \<Rightarrow> bytes \<Rightarrow> string + bytes"

definition encrypt_password :: "(bytes \<Rightarrow> string) \<Rightarrow> 'k rsa_lib \<Rightarrow> string \<Rightarrow> string \<Rightarrow> string \<Rightarrow> string result" where
  "encrypt_password b64_encode L password mod_hex exp_hex =
     and_then (ok_or (AuthRejected ''rsa: bad modulus hex'') (rl_parse_bytes L (as_bytes mod_hex) 16)) (\<lambda>n.
     and_then (ok_or (AuthRejected ''rsa: bad exponent hex'') (rl_parse_bytes L (as_bytes exp_hex) 16)) (\<lambda>e.
     and_then (map_err (\<lambda>err. AuthRejected (''rsa: '' @ err)) (rl_new L n e)) (\<lambda>pk.
     and_then (map_err (\<lambda>err. AuthRejected (''rsa encrypt: '' @ err)) (rl_encrypt L pk (as_bytes password))) (\<lambda>ct.
     Inr (b64_encode ct)))))"

section \<open>Lemmas\<close>

lemma map_non_ok_not_ok [simp]: "map_non_ok_eresult OK = None"
  by (simp add: map_non_ok_eresult_def)

lemma map_non_ok_refusal:
  "map_non_ok_eresult er = Some out \<Longrightarrow> out \<noteq> TokenRejected \<and> (\<nexists>sid t a. out = Success sid t a)"
  by (auto simp: map_non_ok_eresult_def split: if_splits)

text \<open>A call is logged unless its address is refused, it takes its time, and it returns what the network gave.\<close>

lemma call_log:
  "wb_calls (snd (call E c method verb req dec w)) =
     wb_calls w @ (if is_ok (url_for E method) then [(method, verb, req)] else [])"
  by (auto simp: call_def is_ok_def Let_def split: sum.split)

lemma call_ok_log:
  "call E c method verb req dec w = (Inr v, w') \<Longrightarrow> wb_calls w' = wb_calls w @ [(method, verb, req)]"
  by (auto simp: call_def Let_def split: sum.splits)

lemma call_time: "wb_now w \<le> wb_now (snd (call E c method verb req dec w))"
  by (auto simp: call_def Let_def split: sum.split)

end
