(* ===== verification/Totp.thy ===== *)
theory Totp
  imports Steam_Error Rust_Str
begin

text \<open>
  The Steam Guard code of \<^verbatim>\<open>src/auth/totp.rs\<close>.  Base64 decoding and HMAC-SHA1 are other crates'
  functions and so are arguments; a SHA-1 digest has twenty bytes.
\<close>

definition STEAM_ALPHABET :: string where
  "STEAM_ALPHABET = ''23456789BCDFGHJKMNPQRTVWXY''"

definition TIME_STEP_SECS :: u64 where
  "TIME_STEP_SECS = 30"

text \<open>\<^verbatim>\<open>u64::to_be_bytes\<close> and \<^verbatim>\<open>u32::from_be_bytes\<close>.\<close>

definition u64_to_be :: "u64 \<Rightarrow> bytes" where
  "u64_to_be w = map (\<lambda>i. ucast (drop_bit (8 * (7 - i)) w)) [0..<8]"

definition u32_from_be :: "byte \<Rightarrow> byte \<Rightarrow> byte \<Rightarrow> byte \<Rightarrow> u32" where
  "u32_from_be a b c d =
     push_bit 24 (ucast a) OR push_bit 16 (ucast b) OR push_bit 8 (ucast c) OR ucast d"

text \<open>The loop over the five slots.\<close>

fun code_slots :: "nat \<Rightarrow> u32 \<Rightarrow> string" where
  "code_slots 0 code = []"
| "code_slots (Suc n) code = STEAM_ALPHABET ! unat (code mod 26) # code_slots n (code div 26)"

text \<open>Dynamic truncation of the digest.\<close>

definition truncate_hash :: "bytes \<Rightarrow> u32" where
  "truncate_hash hash =
     (let offset = unat (hash ! 19 AND 0x0F)
      in u32_from_be (hash ! offset AND 0x7F) (hash ! (offset + 1)) (hash ! (offset + 2)) (hash ! (offset + 3)))"

definition generate_with_step :: "(bytes \<Rightarrow> bytes \<Rightarrow> bytes) \<Rightarrow> bytes \<Rightarrow> u64 \<Rightarrow> string" where
  "generate_with_step hmac_sha1 secret step =
     (let hash = hmac_sha1 secret (u64_to_be step)
      in code_slots 5 (truncate_hash hash))"

text \<open>The clock is the seconds since the epoch, \<^const>\<open>None\<close> when it stands before it.\<close>

definition generate_auth_code ::
    "(string \<Rightarrow> string + bytes) \<Rightarrow> (bytes \<Rightarrow> bytes \<Rightarrow> bytes) \<Rightarrow> u64 option \<Rightarrow> string \<Rightarrow> u64 option \<Rightarrow> string result" where
  "generate_auth_code b64_decode hmac_sha1 clock shared_secret_b64 timestamp =
     and_then (map_err Base64 (b64_decode (trim shared_secret_b64))) (\<lambda>secret.
     and_then (case timestamp of
                 Some t \<Rightarrow> Inr t
               | None \<Rightarrow> ok_or (InvalidConfig ''system clock before epoch'') clock) (\<lambda>ts.
     Inr (generate_with_step hmac_sha1 secret (ts div TIME_STEP_SECS))))"

section \<open>Lemmas\<close>

lemma unat_div_26: "unat (w div 26) = unat w div 26" and unat_mod_26: "unat (w mod 26) = unat w mod 26" for w :: u32
  by (simp_all add: unat_div unat_mod)

lemma code_slots_nth:
  "i < n \<Longrightarrow> code_slots n code ! i = STEAM_ALPHABET ! (unat code div 26 ^ i mod 26)"
proof (induction n arbitrary: code i)
  case (Suc n)
  show ?case
  proof (cases i)
    case 0
    then show ?thesis by (simp add: unat_mod_26)
  next
    case (Suc j)
    with Suc.prems Suc.IH [of j "code div 26"] show ?thesis
      by (simp add: unat_div_26 div_mult2_eq)
  qed
qed simp

lemma length_code_slots [simp]: "length (code_slots n code) = n"
  by (induction n arbitrary: code) simp_all

lemma alphabet_26: "length STEAM_ALPHABET = 26" "distinct STEAM_ALPHABET"
  unfolding STEAM_ALPHABET_def by (simp, code_simp)

lemma truncate_hash_31_bit: "truncate_hash hash < 2 ^ 31"
proof -
  have "\<not> bit (truncate_hash hash) n" if "31 \<le> n" for n
  proof -
    have "bit (truncate_hash hash) n \<longleftrightarrow> n < 32 \<and> bit (hash ! unat (hash ! 19 AND 0x0F) AND 0x7F) (n - 24)"
      if "31 \<le> n"
      using that by (auto simp: truncate_hash_def u32_from_be_def Let_def bit_simps dest: bit_imp_le_length)
    moreover have "\<not> bit ((w :: byte) AND 0x7F) 7" for w by (simp add: bit_simps)
    ultimately show ?thesis using that by (cases "n = 31") auto
  qed
  then have "take_bit 31 (truncate_hash hash) = truncate_hash hash"
    by (intro bit_word_eqI) (metis bit_take_bit_iff linorder_not_le)
  then have "unat (truncate_hash hash) = take_bit 31 (unat (truncate_hash hash))"
    by (metis unsigned_take_bit_eq)
  then have "unat (truncate_hash hash) < 2 ^ 31" by (metis take_bit_nat_less_exp)
  then show ?thesis by (simp add: word_less_nat_alt)
qed

lemma digits_eq_iff:
  assumes "(1 :: nat) < b"
  shows "(\<forall>i < n. x div b ^ i mod b = y div b ^ i mod b) \<longleftrightarrow> x mod b ^ n = y mod b ^ n"
proof (induction n arbitrary: x y)
  case (Suc n)
  have split: "z mod b ^ Suc n = z mod b + b * (z div b mod b ^ n)" for z
    using mod_mult2_eq [of z b "b ^ n"] by simp
  have "(\<forall>i < Suc n. x div b ^ i mod b = y div b ^ i mod b) \<longleftrightarrow>
      x mod b = y mod b \<and> (\<forall>i < n. x div b div b ^ i mod b = y div b div b ^ i mod b)"
    unfolding all_less_Suc_shift by (simp add: div_mult2_eq)
  also have "\<dots> \<longleftrightarrow> x mod b = y mod b \<and> x div b mod b ^ n = y div b mod b ^ n" unfolding Suc.IH ..
  also have "\<dots> \<longleftrightarrow> x mod b ^ Suc n = y mod b ^ Suc n"
  proof
    assume "x mod b ^ Suc n = y mod b ^ Suc n"
    moreover have "z mod b ^ Suc n mod b = z mod b" "z mod b ^ Suc n div b = z div b mod b ^ n" for z
      using assms unfolding split by simp_all
    ultimately show "x mod b = y mod b \<and> x div b mod b ^ n = y div b mod b ^ n" by metis
  qed (simp only: split)
  finally show ?case .
qed simp

section \<open>Properties\<close>

text \<open>C39: the guard code is the five low base-26 digits, least significant first, of the 31-bit number
  that dynamic truncation takes out of the digest, written in Steam's alphabet; two codes agree
  exactly when the numbers agree modulo the fifth power of 26.\<close>

theorem guard_code_spec:
  fixes hmac secret step
  defines "v \<equiv> unat (truncate_hash (hmac secret (u64_to_be step)))"
    and "code \<equiv> generate_with_step hmac secret step"
  shows "code = map (\<lambda>i. STEAM_ALPHABET ! (v div 26 ^ i mod 26)) [0..<5] \<and> set code \<subseteq> set STEAM_ALPHABET \<and>
    v < 2 ^ 31 \<and>
    (code = generate_with_step hmac secret' step' \<longleftrightarrow>
       v mod 26 ^ 5 = unat (truncate_hash (hmac secret' (u64_to_be step'))) mod 26 ^ 5)"
proof (intro conjI)
  have digits: "generate_with_step hmac s t = map (\<lambda>i. STEAM_ALPHABET ! (unat (truncate_hash (hmac s (u64_to_be t))) div 26 ^ i mod 26)) [0..<5]"
    for s t unfolding generate_with_step_def Let_def
    by (rule nth_equalityI) (simp_all add: code_slots_nth)
  then show "code = map (\<lambda>i. STEAM_ALPHABET ! (v div 26 ^ i mod 26)) [0..<5]" unfolding code_def v_def .
  then show "set code \<subseteq> set STEAM_ALPHABET" using alphabet_26(1) by auto
  show "v < 2 ^ 31" unfolding v_def using truncate_hash_31_bit by (simp add: word_less_nat_alt)
  have inj: "STEAM_ALPHABET ! (a mod 26) = STEAM_ALPHABET ! (b mod 26) \<longleftrightarrow> a mod 26 = b mod 26" for a b :: nat
    using nth_eq_iff_index_eq [OF alphabet_26(2), of "a mod 26" "b mod 26"] by (simp add: alphabet_26(1))
  have eq: "map (\<lambda>i. STEAM_ALPHABET ! (a div 26 ^ i mod 26)) [0..<5] = map (\<lambda>i. STEAM_ALPHABET ! (b div 26 ^ i mod 26)) [0..<5] \<longleftrightarrow>
      (\<forall>i < 5. a div 26 ^ i mod 26 = b div 26 ^ i mod 26)" for a b
    by (auto simp: inj)
  show "code = generate_with_step hmac secret' step' \<longleftrightarrow>
      v mod 26 ^ 5 = unat (truncate_hash (hmac secret' (u64_to_be step'))) mod 26 ^ 5"
    unfolding code_def digits v_def eq by (rule digits_eq_iff) simp
qed
text \<open>No index is out of range: the offset is a nibble and a digest has twenty bytes.\<close>

lemma truncation_in_range: "unat ((w :: byte) AND 0x0F) + 3 < 20"
proof -
  have "unat (w AND 0x0F) \<le> unat (0x0F :: byte)"
    using word_and_le1 [of w "0x0F"] by (simp only: word_le_nat_alt)
  then show ?thesis by simp
qed

end
