(* ===== verification/Jwt.thy ===== *)
theory Jwt
  imports Steam_Error Rust_Str
begin

text \<open>
  The claims of a refresh token, \<^verbatim>\<open>src/auth/jwt.rs\<close>.  URL-safe base64 and JSON are other crates'; the
  record \<open>jwt_lib\<close> holds the decoder, the parser, and the two lookups \<^verbatim>\<open>get(k).and_then(as_str)\<close> and
  \<^verbatim>\<open>get(k).and_then(as_u64)\<close> on a parsed document.
\<close>

record 'j jwt_lib =
  jl_b64url_decode :: "string \<Rightarrow> string + bytes"
  jl_json_from_slice :: "bytes \<Rightarrow> string + 'j"
  jl_get_str :: "'j \<Rightarrow> string \<Rightarrow> string option"
  jl_get_u64 :: "'j \<Rightarrow> string \<Rightarrow> u64 option"

record refresh_token_claims =
  rc_steam_id :: u64
  rc_exp :: "u64 option"

definition decode_payload :: "'j jwt_lib \<Rightarrow> string \<Rightarrow> 'j result" where
  "decode_payload J jwt =
     (case split_on (\<lambda>c. c = CHR ''.'') jwt of
        [header, payload, signature] \<Rightarrow>
          if header = [] \<or> payload = [] \<or> signature = []
          then Inl (AuthRejected ''jwt: empty segment'')
          else
            and_then (map_err (\<lambda>e. AuthRejected (''jwt b64: '' @ e)) (jl_b64url_decode J payload)) (\<lambda>bytes.
            map_err (\<lambda>e. AuthRejected (''jwt json: '' @ e)) (jl_json_from_slice J bytes))
      | _ \<Rightarrow> Inl (AuthRejected ''jwt: expected 3 segments''))"

definition token_claims :: "'j jwt_lib \<Rightarrow> string \<Rightarrow> refresh_token_claims result" where
  "token_claims J jwt =
     and_then (decode_payload J jwt) (\<lambda>v.
     and_then (ok_or (AuthRejected ''jwt: no sub claim'') (jl_get_str J v ''sub'')) (\<lambda>sub.
     and_then (map_err (\<lambda>e. AuthRejected (''jwt sub: '' @ e)) (parse_u64 sub)) (\<lambda>sid.
     Inr \<lparr>rc_steam_id = sid, rc_exp = jl_get_u64 J v ''exp''\<rparr>)))"

definition steam_id_from_refresh_token :: "'j jwt_lib \<Rightarrow> string \<Rightarrow> u64 result" where
  "steam_id_from_refresh_token J jwt = and_then (token_claims J jwt) (\<lambda>c. Inr (rc_steam_id c))"

section \<open>Properties\<close>

fun join_with :: "char \<Rightarrow> string list \<Rightarrow> string" where
  "join_with c [] = []"
| "join_with c [s] = s"
| "join_with c (s # t # ts) = s @ c # join_with c (t # ts)"

lemma join_with_Cons: "ts \<noteq> [] \<Longrightarrow> join_with c (s # ts) = s @ c # join_with c ts"
  by (cases ts) simp_all

lemma join_split: "join_with c (split_on (\<lambda>x. x = c) s) = s"
  and split_clean: "seg \<in> set (split_on (\<lambda>x. x = c) s) \<Longrightarrow> c \<notin> set seg"
proof -
  have "join_with c (split_on (\<lambda>x. x = c) s) = s \<and> (\<forall>seg \<in> set (split_on (\<lambda>x. x = c) s). c \<notin> set seg)"
  proof (induction s)
    case (Cons x s)
    show ?case
    proof (cases "x = c")
      case True
      then show ?thesis using Cons by (simp add: join_with_Cons)
    next
      case False
      obtain seg segs where split: "split_on (\<lambda>x. x = c) s = seg # segs"
        by (cases "split_on (\<lambda>x. x = c) s") auto
      moreover have "join_with c ((x # seg) # segs) = x # join_with c (seg # segs)" by (cases segs) simp_all
      ultimately show ?thesis using Cons False by simp
    qed
  qed simp
  then show "join_with c (split_on (\<lambda>x. x = c) s) = s"
    "seg \<in> set (split_on (\<lambda>x. x = c) s) \<Longrightarrow> c \<notin> set seg" by auto
qed

lemma split_join: "segs \<noteq> [] \<Longrightarrow> \<forall>s \<in> set segs. c \<notin> set s \<Longrightarrow> split_on (\<lambda>x. x = c) (join_with c segs) = segs"
proof (induction segs)
  case (Cons s segs)
  have clean: "\<forall>x \<in> set s. \<not> x = c" using Cons.prems by auto
  show ?case
  proof (cases "segs = []")
    case True
    then show ?thesis using split_on_none [of s "\<lambda>x. x = c"] clean by simp
  next
    case False
    then show ?thesis using Cons split_on_append [of s "\<lambda>x. x = c" c] clean by (simp add: join_with_Cons)
  qed
qed simp

lemma three_segments:
  "split_on (\<lambda>x. x = c) s = [h, p, g] \<longleftrightarrow> s = h @ c # p @ c # g \<and> c \<notin> set h \<union> set p \<union> set g"
proof
  assume a: "split_on (\<lambda>x. x = c) s = [h, p, g]"
  then show "s = h @ c # p @ c # g \<and> c \<notin> set h \<union> set p \<union> set g"
    using join_split [of c s] split_clean [of _ c s] by auto
next
  assume "s = h @ c # p @ c # g \<and> c \<notin> set h \<union> set p \<union> set g"
  then show "split_on (\<lambda>x. x = c) s = [h, p, g]" using split_join [of "[h, p, g]" c] by simp
qed

lemma decode_payload_ok_iff:
  "decode_payload J jwt = Inr v \<longleftrightarrow>
     (\<exists>h p g bs. jwt = h @ CHR ''.'' # p @ CHR ''.'' # g \<and> CHR ''.'' \<notin> set h \<union> set p \<union> set g \<and>
        h \<noteq> [] \<and> p \<noteq> [] \<and> g \<noteq> [] \<and> jl_b64url_decode J p = Inr bs \<and> jl_json_from_slice J bs = Inr v)"
proof -
  have "decode_payload J jwt = Inr v \<longleftrightarrow>
      (\<exists>h p g bs. split_on (\<lambda>c. c = CHR ''.'') jwt = [h, p, g] \<and> h \<noteq> [] \<and> p \<noteq> [] \<and> g \<noteq> [] \<and>
        jl_b64url_decode J p = Inr bs \<and> jl_json_from_slice J bs = Inr v)"
    by (auto simp: decode_payload_def and_then_Inr_iff split: list.split)
  then show ?thesis unfolding three_segments by blast
qed

lemma token_claims_rejects: "token_claims J jwt = Inl e \<Longrightarrow> is_auth_rejected e"
proof -
  have "is_auth_rejected e" if "decode_payload J jwt = Inl e" for e
    using that by (auto simp: decode_payload_def and_then_def map_err_def split: list.splits if_splits sum.splits)
  then show "token_claims J jwt = Inl e \<Longrightarrow> is_auth_rejected e"
    by (auto simp: token_claims_def and_then_def map_err_def ok_or_def split: sum.splits option.splits)
qed

text \<open>C40: a token is accepted exactly when it is three non-empty dot-separated segments without further
  dots, whose middle one decodes to a document with a decimal 64-bit \<^verbatim>\<open>sub\<close>; the claims are then that
  number and the optional expiry, and every rejection is an auth rejection.\<close>

theorem token_claims_spec:
  "(token_claims J jwt = Inr c \<longleftrightarrow>
     (\<exists>h p g bs v sub. jwt = h @ ''.'' @ p @ ''.'' @ g \<and> CHR ''.'' \<notin> set h \<union> set p \<union> set g \<and>
        h \<noteq> [] \<and> p \<noteq> [] \<and> g \<noteq> [] \<and>
        jl_b64url_decode J p = Inr bs \<and> jl_json_from_slice J bs = Inr v \<and>
        jl_get_str J v ''sub'' = Some sub \<and> parse_u64 sub = Inr (rc_steam_id c) \<and>
        rc_exp c = jl_get_u64 J v ''exp'')) \<and>
   (case token_claims J jwt of Inl e \<Rightarrow> is_auth_rejected e | Inr _ \<Rightarrow> True)"
proof
  have claims: "token_claims J jwt = Inr c \<longleftrightarrow>
      (\<exists>v sub. decode_payload J jwt = Inr v \<and> jl_get_str J v ''sub'' = Some sub \<and>
         parse_u64 sub = Inr (rc_steam_id c) \<and> rc_exp c = jl_get_u64 J v ''exp'')"
    by (cases c) (auto simp: token_claims_def and_then_Inr_iff ok_or_def split: option.splits)
  show "token_claims J jwt = Inr c \<longleftrightarrow>
     (\<exists>h p g bs v sub. jwt = h @ ''.'' @ p @ ''.'' @ g \<and> CHR ''.'' \<notin> set h \<union> set p \<union> set g \<and>
        h \<noteq> [] \<and> p \<noteq> [] \<and> g \<noteq> [] \<and>
        jl_b64url_decode J p = Inr bs \<and> jl_json_from_slice J bs = Inr v \<and>
        jl_get_str J v ''sub'' = Some sub \<and> parse_u64 sub = Inr (rc_steam_id c) \<and>
        rc_exp c = jl_get_u64 J v ''exp'')"
    unfolding claims decode_payload_ok_iff by simp blast
  show "case token_claims J jwt of Inl e \<Rightarrow> is_auth_rejected e | Inr _ \<Rightarrow> True"
    using token_claims_rejects by (auto split: sum.split)
qed

end
