(* ===== verification/Token_Store.thy ===== *)
theory Token_Store
  imports Prelude
begin

text \<open>
  The persistence hook of \<^verbatim>\<open>src/auth/token_store.rs\<close>.  The trait is the record of its two operations on
  a store of type \<open>'s\<close>, each with a text for an error; the locale \<open>saved_tokens\<close> is what its
  documentation promises, in terms of the token saved for each account, and the in-memory store of
  the module's documentation keeps it.
\<close>

record 's token_store =
  ts_load :: "'s \<Rightarrow> string \<Rightarrow> (string + string option) \<times> 's"
  ts_save :: "'s \<Rightarrow> string \<Rightarrow> string \<Rightarrow> (string + unit) \<times> 's"

definition memory_load :: "(string \<rightharpoonup> string) \<Rightarrow> string \<Rightarrow> (string + string option) \<times> (string \<rightharpoonup> string)" where
  "memory_load m account = (Inr (m account), m)"

definition memory_save :: "(string \<rightharpoonup> string) \<Rightarrow> string \<Rightarrow> string \<Rightarrow> (string + unit) \<times> (string \<rightharpoonup> string)" where
  "memory_save m account token = (Inr (), m(account \<mapsto> token))"

definition memory_store :: "(string \<rightharpoonup> string) token_store" where
  "memory_store = \<lparr>ts_load = memory_load, ts_save = memory_save\<rparr>"

locale saved_tokens =
  fixes S :: "'s token_store" and saved :: "'s \<Rightarrow> string \<rightharpoonup> string"
  assumes load_keeps: "saved (snd (ts_load S s account)) = saved s"
    and load_saved: "fst (ts_load S s account) = Inr t \<Longrightarrow> t = saved s account"
    and save_saves: "fst (ts_save S s account token) = Inr u \<Longrightarrow>
      saved (snd (ts_save S s account token)) = (saved s)(account \<mapsto> token)"

interpretation in_memory: saved_tokens memory_store "\<lambda>m. m"
  by unfold_locales (simp_all add: memory_store_def memory_load_def memory_save_def)

end
