(* ===== verification/Signin.thy ===== *)
theory Signin
  imports Complex_Main "HOL-Library.Sublist" Webapi Totp Jwt Token_Store
begin

text \<open>
  The sign-in flows of \<^verbatim>\<open>src/auth/signin.rs\<close>.  Everything outside the crate is the record \<open>auth_lib\<close>:
  the web environment, base64, HMAC, RSA, JWT decoding, the message codecs, and the wall clock, given
  in milliseconds from the epoch at each instant.  A finite \<^verbatim>\<open>f32\<close> is a rational.  The poll loop has no
  bound of its own, so it is a partial function: \<^const>\<open>None\<close> would be a loop that never ends, and the
  properties show that it ends.
\<close>

section \<open>Constants and data\<close>

definition GUARD_TYPE_NONE :: i32 where "GUARD_TYPE_NONE = 1"
definition GUARD_TYPE_EMAIL_CODE :: i32 where "GUARD_TYPE_EMAIL_CODE = 2"
definition GUARD_TYPE_DEVICE_CODE :: i32 where "GUARD_TYPE_DEVICE_CODE = 3"
definition PLATFORM_STEAM_CLIENT :: i32 where "PLATFORM_STEAM_CLIENT = 1"
definition OS_TYPE_WINDOWS_10 :: i32 where "OS_TYPE_WINDOWS_10 = 16"
definition SESSION_PERSISTENT :: i32 where "SESSION_PERSISTENT = 1"
definition TOKEN_EXPIRY_SLACK_SECS :: u64 where "TOKEN_EXPIRY_SLACK_SECS = 60"
definition POLL_DEFAULT_INTERVAL_SECS :: nat where "POLL_DEFAULT_INTERVAL_SECS = 5"
definition POLL_BUDGET :: millis where "POLL_BUDGET = secs 120"

datatype f32 = NaN | Infinite bool | Finite rat

datatype 'a early_exit = Continue 'a | Outcome sign_in_outcome

record rsa_key_response =
  rk_mod_hex :: string
  rk_exp_hex :: string
  rk_timestamp :: u64

record begin_session_state =
  bs_client_id :: u64
  bs_request_id :: bytes
  bs_session_steamid :: u64
  bs_poll_interval :: millis
  bs_guards :: "i32 list"
  bs_email_domain_hint :: "string option"

text \<open>The messages, with the fields the flow sets or reads.\<close>

record rsa_public_key_response =
  rp_publickey_mod :: "string option"
  rp_publickey_exp :: "string option"
  rp_timestamp :: "u64 option"

record device_details =
  dd_device_friendly_name :: "string option"
  dd_platform_type :: "i32 option"
  dd_os_type :: "i32 option"

record begin_request =
  bq_device_friendly_name :: "string option"
  bq_account_name :: "string option"
  bq_encrypted_password :: "string option"
  bq_encryption_timestamp :: "u64 option"
  bq_remember_login :: "bool option"
  bq_platform_type :: "i32 option"
  bq_persistence :: "i32 option"
  bq_device_details :: "device_details option"

record allowed_confirmation =
  ac_confirmation_type :: "i32 option"
  ac_associated_message :: "string option"

record begin_response =
  br_client_id :: "u64 option"
  br_request_id :: "bytes option"
  br_interval :: "f32 option"
  br_allowed_confirmations :: "allowed_confirmation list"
  br_steamid :: "u64 option"

record guard_code_request =
  gr_client_id :: "u64 option"
  gr_steamid :: "u64 option"
  gr_code :: "string option"
  gr_code_type :: "i32 option"

record poll_request =
  pr_client_id :: "u64 option"
  pr_request_id :: "bytes option"

record poll_response =
  po_new_client_id :: "u64 option"
  po_refresh_token :: "string option"
  po_access_token :: "string option"

record ('p, 'c, 'j, 'k) auth_lib =
  al_web :: "('p, 'c) web_env"
  al_jwt :: "'j jwt_lib"
  al_rsa :: "'k rsa_lib"
  al_b64_decode :: "string \<Rightarrow> string + bytes"
  al_hmac_sha1 :: "bytes \<Rightarrow> bytes \<Rightarrow> bytes"
  al_system_time :: "millis \<Rightarrow> int"
  al_enc_rsa :: "string option \<Rightarrow> bytes"
  al_dec_rsa :: "bytes \<Rightarrow> string + rsa_public_key_response"
  al_enc_begin :: "begin_request \<Rightarrow> bytes"
  al_dec_begin :: "bytes \<Rightarrow> string + begin_response"
  al_enc_guard :: "guard_code_request \<Rightarrow> bytes"
  al_dec_guard :: "bytes \<Rightarrow> string + unit"
  al_enc_poll :: "poll_request \<Rightarrow> bytes"
  al_dec_poll :: "bytes \<Rightarrow> string + poll_response"

section \<open>Clocks and the poll interval\<close>

definition unix_clock :: "('p, 'c, 'j, 'k) auth_lib \<Rightarrow> web \<Rightarrow> u64 option" where
  "unix_clock A w =
     (let t = al_system_time A (wb_now w) in if t < 0 then None else Some (of_int (t div 1000)))"

definition now_unix :: "('p, 'c, 'j, 'k) auth_lib \<Rightarrow> web \<Rightarrow> u64" where
  "now_unix A w = unwrap_or 0 (unix_clock A w)"

definition saturating_sub :: "u64 \<Rightarrow> u64 \<Rightarrow> u64" where
  "saturating_sub a b = (if a < b then 0 else a - b)"

text \<open>\<^verbatim>\<open>f32::clamp\<close> and \<^verbatim>\<open>f32::round\<close> (half away from zero) on finite values.\<close>

definition clamp :: "rat \<Rightarrow> rat \<Rightarrow> rat \<Rightarrow> rat" where
  "clamp x lo hi = (if x < lo then lo else if hi < x then hi else x)"

definition round_f32 :: "rat \<Rightarrow> int" where
  "round_f32 x = (if 0 \<le> x then floor (x + 1 / 2) else - floor (- x + 1 / 2))"

definition compute_poll_interval :: "f32 option \<Rightarrow> millis" where
  "compute_poll_interval steam_interval =
     (case steam_interval of
        Some (Finite raw) \<Rightarrow>
          if 0 < raw then secs (nat (round_f32 (clamp raw 1 60))) else secs POLL_DEFAULT_INTERVAL_SECS
      | _ \<Rightarrow> secs POLL_DEFAULT_INTERVAL_SECS)"

definition rotate_client_id :: "u64 \<Rightarrow> u64 option \<Rightarrow> u64" where
  "rotate_client_id current hint = unwrap_or current (opt_filter (\<lambda>id. id \<noteq> 0) hint)"

section \<open>The steps of the password flow\<close>

text \<open>A failed call ends the step; a result code other than OK is an outcome or an error.\<close>

definition on_answer ::
    "string \<Rightarrow> (i32 \<times> 'r) result \<times> web \<Rightarrow> ('r \<Rightarrow> 'a early_exit result) \<Rightarrow> 'a early_exit result \<times> web" where
  "on_answer method answer f =
     (case answer of
        (Inl e, w) \<Rightarrow> (Inl e, w)
      | (Inr (er, resp), w) \<Rightarrow>
          (if er \<noteq> OK
           then (case map_non_ok_eresult er of
                   Some outcome \<Rightarrow> Inr (Outcome outcome)
                 | None \<Rightarrow> Inl (AuthRejected (method @ '' eresult '' @ show_int er)))
           else f resp, w))"

definition fetch_rsa_key ::
    "('p, 'c, 'j, 'k) auth_lib \<Rightarrow> 'c \<Rightarrow> string \<Rightarrow> web \<Rightarrow> rsa_key_response early_exit result \<times> web" where
  "fetch_rsa_key A c account_name w =
     on_answer ''GetPasswordRSAPublicKey''
       (call (al_web A) c ''GetPasswordRSAPublicKey'' Get (al_enc_rsa A (Some account_name)) (al_dec_rsa A) w) (\<lambda>resp.
       and_then (ok_or (AuthRejected ''rsa response: missing modulus'') (rp_publickey_mod resp)) (\<lambda>mod_hex.
       and_then (ok_or (AuthRejected ''rsa response: missing exponent'') (rp_publickey_exp resp)) (\<lambda>exp_hex.
       and_then (ok_or (AuthRejected ''rsa response: missing timestamp'') (rp_timestamp resp)) (\<lambda>timestamp.
       Inr (Continue \<lparr>rk_mod_hex = mod_hex, rk_exp_hex = exp_hex, rk_timestamp = timestamp\<rparr>)))))"

definition scan_confirmation :: "i32 list \<times> string option \<Rightarrow> allowed_confirmation \<Rightarrow> i32 list \<times> string option" where
  "scan_confirmation acc c =
     (case (acc, ac_confirmation_type c) of
        (acc, None) \<Rightarrow> acc
      | ((guards, hint), Some ct) \<Rightarrow>
          (guards @ [ct],
           if ct = GUARD_TYPE_EMAIL_CODE \<and> hint = None
           then opt_filter (\<lambda>s. s \<noteq> []) (ac_associated_message c) else hint))"

definition begin_session ::
    "('p, 'c, 'j, 'k) auth_lib \<Rightarrow> 'c \<Rightarrow> string \<Rightarrow> string \<Rightarrow> u64 \<Rightarrow> web \<Rightarrow> begin_session_state early_exit result \<times> web" where
  "begin_session A c account_name encrypted_password_b64 encryption_timestamp w =
     (let req = \<lparr>bq_device_friendly_name = Some ''steamroids'', bq_account_name = Some account_name,
                 bq_encrypted_password = Some encrypted_password_b64,
                 bq_encryption_timestamp = Some encryption_timestamp, bq_remember_login = Some True,
                 bq_platform_type = Some PLATFORM_STEAM_CLIENT, bq_persistence = Some SESSION_PERSISTENT,
                 bq_device_details = Some \<lparr>dd_device_friendly_name = Some ''steamroids'',
                   dd_platform_type = Some PLATFORM_STEAM_CLIENT, dd_os_type = Some OS_TYPE_WINDOWS_10\<rparr>\<rparr>
      in on_answer ''BeginAuthSessionViaCredentials''
           (call (al_web A) c ''BeginAuthSessionViaCredentials'' Post (al_enc_begin A req) (al_dec_begin A) w) (\<lambda>resp.
           and_then (ok_or (AuthRejected ''BeginAuth response: missing client_id'') (br_client_id resp)) (\<lambda>client_id.
           and_then (ok_or (AuthRejected ''BeginAuth response: missing request_id'') (br_request_id resp)) (\<lambda>request_id.
           and_then (ok_or (AuthRejected ''BeginAuth response: missing steamid'') (br_steamid resp)) (\<lambda>steamid.
           case foldl scan_confirmation ([], None) (br_allowed_confirmations resp) of
             (guards, hint) \<Rightarrow>
               Inr (Continue \<lparr>bs_client_id = client_id, bs_request_id = request_id,
                 bs_session_steamid = steamid, bs_poll_interval = compute_poll_interval (br_interval resp),
                 bs_guards = guards, bs_email_domain_hint = hint\<rparr>))))))"

definition resolve_guard ::
    "('p, 'c, 'j, 'k) auth_lib \<Rightarrow> 'c \<Rightarrow> begin_session_state \<Rightarrow> string option \<Rightarrow> web \<Rightarrow> unit early_exit result \<times> web" where
  "resolve_guard A c session shared_secret w =
     (if GUARD_TYPE_DEVICE_CODE \<in> set (bs_guards session) then
        (case shared_secret of
           None \<Rightarrow> (Inr (Outcome NeedsMobileGuardCode), w)
         | Some secret \<Rightarrow>
             (case generate_auth_code (al_b64_decode A) (al_hmac_sha1 A) (unix_clock A w) secret None of
                Inl e \<Rightarrow> (Inl e, w)
              | Inr code \<Rightarrow>
                  let update_req = \<lparr>gr_client_id = Some (bs_client_id session),
                        gr_steamid = Some (bs_session_steamid session), gr_code = Some code,
                        gr_code_type = Some GUARD_TYPE_DEVICE_CODE\<rparr>
                  in on_answer ''UpdateAuthSessionWithSteamGuardCode''
                       (call (al_web A) c ''UpdateAuthSessionWithSteamGuardCode'' Post
                          (al_enc_guard A update_req) (al_dec_guard A) w) (\<lambda>_. Inr (Continue ()))))
      else if GUARD_TYPE_EMAIL_CODE \<in> set (bs_guards session)
      then (Inr (Outcome (NeedsEmailGuardCode (unwrap_or [] (bs_email_domain_hint session)))), w)
      else if bs_guards session \<noteq> [] \<and> GUARD_TYPE_NONE \<notin> set (bs_guards session)
      then (Inl (AuthRejected (''unsupported confirmation types: '' @ debug_list (map show_int (bs_guards session)))), w)
      else (Inr (Continue ()), w))"

definition sleep :: "millis \<Rightarrow> web \<Rightarrow> web" where
  "sleep d w = w\<lparr>wb_now := wb_now w + d\<rparr>"

partial_function (option) poll_loop ::
    "('p, 'c, 'j, 'k) auth_lib \<Rightarrow> 'c \<Rightarrow> begin_session_state \<Rightarrow> millis \<Rightarrow> bool \<Rightarrow> poll_request \<Rightarrow> web \<Rightarrow>
     (sign_in_outcome result \<times> web) option" where
  "poll_loop A c session deadline first req w =
     (let w = (if first then w else sleep (bs_poll_interval session) w)
      in if \<not> first \<and> deadline \<le> wb_now w
         then Some (Inl (Timeout ''auth poll exceeded 120s''), w)
         else case call (al_web A) c ''PollAuthSessionStatus'' Post (al_enc_poll A req) (al_dec_poll A) w of
                (Inl e, w) \<Rightarrow> Some (Inl e, w)
              | (Inr (er, resp), w) \<Rightarrow>
                  if er \<noteq> OK
                  then Some (case map_non_ok_eresult er of
                               Some outcome \<Rightarrow> Inr outcome
                             | None \<Rightarrow> Inl (AuthRejected (''PollAuthSessionStatus eresult '' @ show_int er)), w)
                  else let req = req\<lparr>pr_client_id := Some (rotate_client_id
                                (unwrap_or (bs_client_id session) (pr_client_id req)) (po_new_client_id resp))\<rparr>
                       in case opt_filter (\<lambda>s. s \<noteq> []) (po_refresh_token resp) of
                            Some rt \<Rightarrow>
                              Some (Inr (Success
                                (case steam_id_from_refresh_token (al_jwt A) rt of
                                   Inr sid \<Rightarrow> sid | Inl _ \<Rightarrow> bs_session_steamid session)
                                (RefreshToken rt)
                                (opt_filter (\<lambda>s. s \<noteq> []) (po_access_token resp))), w)
                          | None \<Rightarrow> poll_loop A c session deadline False req w)"

definition poll_for_token ::
    "('p, 'c, 'j, 'k) auth_lib \<Rightarrow> 'c \<Rightarrow> begin_session_state \<Rightarrow> web \<Rightarrow> (sign_in_outcome result \<times> web) option" where
  "poll_for_token A c session w =
     poll_loop A c session (wb_now w + POLL_BUDGET) True
       \<lparr>pr_client_id = Some (bs_client_id session), pr_request_id = Some (bs_request_id session)\<rparr> w"

section \<open>The flows\<close>

definition execute_password_flow ::
    "('p, 'c, 'j, 'k) auth_lib \<Rightarrow> password_credentials \<Rightarrow> proxy_config option \<Rightarrow> web \<Rightarrow> (sign_in_outcome result \<times> web) option" where
  "execute_password_flow A creds proxy w =
     (case new_client (al_web A) proxy w of
        Inl e \<Rightarrow> Some (Inl e, w)
      | Inr c \<Rightarrow>
     (case fetch_rsa_key A c (pw_account_name creds) w of
        (Inl e, w) \<Rightarrow> Some (Inl e, w)
      | (Inr (Outcome out), w) \<Rightarrow> Some (Inr out, w)
      | (Inr (Continue key), w) \<Rightarrow>
     (case encrypt_password (we_b64_encode (al_web A)) (al_rsa A) (pw_password creds) (rk_mod_hex key) (rk_exp_hex key) of
        Inl e \<Rightarrow> Some (Inl e, w)
      | Inr encrypted_b64 \<Rightarrow>
     (case begin_session A c (pw_account_name creds) encrypted_b64 (rk_timestamp key) w of
        (Inl e, w) \<Rightarrow> Some (Inl e, w)
      | (Inr (Outcome out), w) \<Rightarrow> Some (Inr out, w)
      | (Inr (Continue session), w) \<Rightarrow>
     (case resolve_guard A c session (pw_shared_secret creds) w of
        (Inl e, w) \<Rightarrow> Some (Inl e, w)
      | (Inr (Outcome out), w) \<Rightarrow> Some (Inr out, w)
      | (Inr (Continue _), w) \<Rightarrow> poll_for_token A c session w)))))"

definition execute_refresh_token_flow ::
    "('p, 'c, 'j, 'k) auth_lib \<Rightarrow> refresh_token \<Rightarrow> web \<Rightarrow> sign_in_outcome result" where
  "execute_refresh_token_flow A token w =
     and_then (token_claims (al_jwt A) (expose token)) (\<lambda>claims.
       if (case rc_exp claims of
             Some expiry \<Rightarrow> saturating_sub expiry TOKEN_EXPIRY_SLACK_SECS \<le> now_unix A w
           | None \<Rightarrow> False)
       then Inr TokenRejected
       else Inr (Success (rc_steam_id claims) token None))"

definition execute ::
    "('p, 'c, 'j, 'k) auth_lib \<Rightarrow> sign_in \<Rightarrow> web \<Rightarrow> (sign_in_outcome result \<times> web) option" where
  "execute A s w =
     (case si_credentials s of
        Password creds \<Rightarrow> execute_password_flow A creds (si_proxy s) w
      | Token token \<Rightarrow> Some (execute_refresh_token_flow A token w, w))"

definition password_and_save ::
    "('p, 'c, 'j, 'k) auth_lib \<Rightarrow> 's token_store \<Rightarrow> sign_in \<Rightarrow> string \<Rightarrow> 's \<Rightarrow> web \<Rightarrow>
     (sign_in_outcome result \<times> 's \<times> web) option" where
  "password_and_save A S s account store w =
     (case execute A s w of
        None \<Rightarrow> None
      | Some (Inr (Success sid token access), w) \<Rightarrow>
          (case ts_save S store account (expose token) of
             (Inl e, store) \<Rightarrow> Some (Inl (TokenStore e), store, w)
           | (Inr _, store) \<Rightarrow> Some (Inr (Success sid token access), store, w))
      | Some (r, w) \<Rightarrow> Some (r, store, w))"

definition execute_with_store ::
    "('p, 'c, 'j, 'k) auth_lib \<Rightarrow> 's token_store \<Rightarrow> sign_in \<Rightarrow> 's \<Rightarrow> web \<Rightarrow>
     (sign_in_outcome result \<times> 's \<times> web) option" where
  "execute_with_store A S s store w =
     (case si_credentials s of
        Token _ \<Rightarrow> map_option (\<lambda>(r, w). (r, store, w)) (execute A s w)
      | Password creds \<Rightarrow>
          let account = pw_account_name creds
          in case ts_load S store account of
               (Inl e, store) \<Rightarrow> Some (Inl (TokenStore e), store, w)
             | (Inr None, store) \<Rightarrow> password_and_save A S s account store w
             | (Inr (Some token), store) \<Rightarrow>
                 let attempt = with_refresh_token token;
                     attempt = (case si_proxy s of None \<Rightarrow> attempt | Some p \<Rightarrow> through_proxy p attempt)
                 in case execute A attempt w of
                      None \<Rightarrow> None
                    | Some (r, w) \<Rightarrow>
                        (case (case r of Inl (AuthRejected _) \<Rightarrow> Inr TokenRejected | _ \<Rightarrow> r) of
                           Inl e \<Rightarrow> Some (Inl e, store, w)
                         | Inr (Success sid token access) \<Rightarrow>
                             (case ts_save S store account (expose token) of
                                (Inl e, store) \<Rightarrow> Some (Inl (TokenStore e), store, w)
                              | (Inr _, store) \<Rightarrow> Some (Inr (Success sid token access), store, w))
                         | Inr TokenRejected \<Rightarrow> password_and_save A S s account store w
                         | Inr other \<Rightarrow> Some (Inr other, store, w)))"
section \<open>Lemmas\<close>

lemma poll_interval_bounds: "secs 1 \<le> compute_poll_interval i \<and> compute_poll_interval i \<le> secs 60"
proof -
  have "1 \<le> round_f32 (clamp x 1 60) \<and> round_f32 (clamp x 1 60) \<le> 60" for x
  proof -
    have "1 \<le> clamp x 1 60 \<and> clamp x 1 60 \<le> 60" by (simp add: clamp_def)
    then have "1 \<le> floor (clamp x 1 60 + 1 / 2) \<and> floor (clamp x 1 60 + 1 / 2) \<le> 60" by linarith
    then show ?thesis using \<open>1 \<le> clamp x 1 60 \<and> clamp x 1 60 \<le> 60\<close> by (simp add: round_f32_def)
  qed
  then have "1 \<le> nat (round_f32 (clamp x 1 60)) \<and> nat (round_f32 (clamp x 1 60)) \<le> 60" for x
    by (metis nat_le_iff nat_mono nat_one_as_int of_nat_numeral)
  then show ?thesis
    by (auto simp: compute_poll_interval_def POLL_DEFAULT_INTERVAL_SECS_def split: option.split f32.split)
qed

text \<open>What Steam can answer instead of letting the flow go on.\<close>

definition refusal :: "sign_in_outcome \<Rightarrow> bool" where
  "refusal out = (case out of Success _ _ _ \<Rightarrow> False | TokenRejected \<Rightarrow> False | _ \<Rightarrow> True)"

lemma map_non_ok_refuses: "map_non_ok_eresult er = Some out \<Longrightarrow> refusal out"
  using map_non_ok_refusal [of er out] by (cases out) (auto simp: refusal_def)

lemma on_answer_cases:
  assumes "on_answer m (call E c m verb req dec w) f = (r, w')"
  obtains (unsent) e where "r = Inl e" "wb_calls w' = wb_calls w"
  | (sent) "wb_calls w' = wb_calls w @ [(m, verb, req)]"
      "(\<exists>e. r = Inl e) \<or> (\<exists>out. r = Inr (Outcome out) \<and> refusal out) \<or> (\<exists>resp. r = f resp)"
proof (cases "url_for E m")
  case (Inl e)
  then show ?thesis using assms unsent by (auto simp: on_answer_def call_def)
next
  case (Inr url)
  have "wb_calls w' = wb_calls w @ [(m, verb, req)]"
    using assms Inr call_log [of E c m verb req dec w]
    by (auto simp: on_answer_def is_ok_def split: prod.splits sum.splits)
  moreover have "(\<exists>e. r = Inl e) \<or> (\<exists>out. r = Inr (Outcome out) \<and> refusal out) \<or> (\<exists>resp. r = f resp)"
    using assms map_non_ok_refuses by (auto simp: on_answer_def split: prod.splits sum.splits if_splits option.splits)
  ultimately show ?thesis by (rule sent)
qed

lemma begin_session_interval:
  assumes "begin_session A c account pw ts w = (Inr (Continue session), w')"
  shows "secs 1 \<le> bs_poll_interval session"
  using assms unfolding begin_session_def Let_def on_answer_def
  using poll_interval_bounds
  by (auto simp: and_then_Inr_iff case_prod_beta split: sum.splits if_splits option.splits)

definition POLL_METHOD :: string where
  "POLL_METHOD = ''PollAuthSessionStatus''"

text \<open>The loop ends: every retry is at least a second later, and there are only polls.\<close>

definition polled :: "sign_in_outcome result \<Rightarrow> (string \<times> http_method \<times> bytes) list \<Rightarrow> bool" where
  "polled r ms \<longleftrightarrow> (\<forall>m \<in> set ms. fst m = POLL_METHOD) \<and>
     (case r of
        Inl _ \<Rightarrow> True
      | Inr (Success _ t _) \<Rightarrow> expose t \<noteq> [] \<and> ms \<noteq> []
      | Inr out \<Rightarrow> refusal out \<and> ms \<noteq> [])"

lemma polled_simps [simp]:
  "polled (Inl e) ms \<longleftrightarrow> (\<forall>m \<in> set ms. fst m = POLL_METHOD)"
  "polled (Inr (Success sid t a)) ms \<longleftrightarrow> (\<forall>m \<in> set ms. fst m = POLL_METHOD) \<and> expose t \<noteq> [] \<and> ms \<noteq> []"
  by (simp_all add: polled_def)

lemma polled_refusal: "refusal out \<Longrightarrow> \<forall>m \<in> set ms. fst m = POLL_METHOD \<Longrightarrow> ms \<noteq> [] \<Longrightarrow> polled (Inr out) ms"
  by (cases out) (auto simp: polled_def refusal_def)

lemma polled_Cons: "polled r ms \<Longrightarrow> fst m = POLL_METHOD \<Longrightarrow> polled r (m # ms)"
  by (auto simp: polled_def split: sum.splits sign_in_outcome.splits)

lemma poll_once:
  fixes A :: "('p, 'c, 'j, 'k) auth_lib"
  assumes "\<not> (\<not> first \<and> deadline \<le> wb_now w1)" "w1 = (if first then w else sleep (bs_poll_interval session) w)"
  obtains (stop) r w2 ms where "poll_loop A c session deadline first req w = Some (r, w2)"
      "wb_calls w2 = wb_calls w @ ms" "length ms \<le> 1" "polled r ms"
  | (again) req' w2 m where "poll_loop A c session deadline first req w = poll_loop A c session deadline False req' w2"
      "wb_calls w2 = wb_calls w @ [m]" "fst m = POLL_METHOD" "wb_now w1 \<le> wb_now w2"
proof -
  obtain r w2 where call: "call (al_web A) c POLL_METHOD Post (al_enc_poll A req) (al_dec_poll A) w1 = (r, w2)"
    by (cases "call (al_web A) c POLL_METHOD Post (al_enc_poll A req) (al_dec_poll A) w1")
  have calls: "wb_calls w1 = wb_calls w" using assms(2) by (simp add: sleep_def)
  have log: "wb_calls w2 = wb_calls w @ (if is_ok (url_for (al_web A) POLL_METHOD)
      then [(POLL_METHOD, Post, al_enc_poll A req)] else [])"
    using call_log [of "al_web A" c POLL_METHOD Post "al_enc_poll A req" "al_dec_poll A" w1] call calls by simp
  note unfold = poll_loop.simps [of A c session deadline first req w, folded assms(2), folded POLL_METHOD_def,
    unfolded Let_def if_not_P [OF assms(1)]]
  show ?thesis
  proof (cases r)
    case (Inl e)
    then show ?thesis using stop [of "Inl e" w2] log call unfold by (simp split: if_splits)
  next
    case (Inr v)
    obtain er resp where v: "v = (er, resp)" by (cases v)
    have sent: "wb_calls w2 = wb_calls w @ [(POLL_METHOD, Post, al_enc_poll A req)]"
      using call_ok_log call calls Inr by metis
    have time: "wb_now w1 \<le> wb_now w2"
      using call_time [of w1 "al_web A" c POLL_METHOD Post "al_enc_poll A req" "al_dec_poll A"] call by simp
    let ?m = "(POLL_METHOD, Post, al_enc_poll A req)"
    show ?thesis
    proof (cases "er = OK")
      case refused: False
      let ?r = "case map_non_ok_eresult er of Some out \<Rightarrow> Inr out
          | None \<Rightarrow> Inl (AuthRejected (''PollAuthSessionStatus eresult '' @ show_int er))"
      have "poll_loop A c session deadline first req w = Some (?r, w2)"
        using call unfold Inr v refused by simp
      moreover have "polled ?r [?m]" using map_non_ok_refuses polled_refusal by (auto split: option.split)
      ultimately show ?thesis using stop sent by simp
    next
      case True
      show ?thesis
      proof (cases "opt_filter (\<lambda>s. s \<noteq> []) (po_refresh_token resp)")
        case None
        then show ?thesis using again sent time call unfold Inr v True by (simp add: Let_def)
      next
        case (Some rt)
        then have "rt \<noteq> []" by (simp add: opt_filter_Some_iff)
        then show ?thesis
          using Some stop [of _ w2 "[?m]"] sent call unfold Inr v True by (simp add: Let_def)
      qed
    qed
  qed
qed
lemma poll_retries:
  assumes "secs 1 \<le> bs_poll_interval session"
  shows "\<exists>r w' ms. poll_loop A c session deadline False req w = Some (r, w') \<and>
     wb_calls w' = wb_calls w @ ms \<and> polled r ms \<and> (ms = [] \<or> secs (length ms) < deadline - wb_now w)"
proof (induction "deadline - wb_now w" arbitrary: req w rule: less_induct)
  case less
  define w1 where "w1 = sleep (bs_poll_interval session) w"
  have w1: "wb_now w + secs 1 \<le> wb_now w1" "wb_calls w1 = wb_calls w"
    using assms by (simp_all add: w1_def sleep_def)
  show ?case
  proof (cases "deadline \<le> wb_now w1")
    case True
    then have "poll_loop A c session deadline False req w = Some (Inl (Timeout ''auth poll exceeded 120s''), w1)"
      by (subst poll_loop.simps) (simp add: w1_def)
    then show ?thesis using w1 by simp
  next
    case alive: False
    then have "\<not> (\<not> False \<and> deadline \<le> wb_now w1)" "w1 = (if False then w else sleep (bs_poll_interval session) w)"
      by (simp_all add: w1_def)
    then show ?thesis
    proof (cases rule: poll_once [where A = A and c = c and req = req])
      case (stop r w2 ms)
      then show ?thesis using alive w1 by (cases ms) auto
    next
      case (again req' w2 m)
      then have "deadline - wb_now w2 < deadline - wb_now w" using alive w1 by linarith
      from less [OF this, of req'] obtain r w' ms where IH:
        "poll_loop A c session deadline False req' w2 = Some (r, w')" "wb_calls w' = wb_calls w2 @ ms"
        "polled r ms" "ms = [] \<or> secs (length ms) < deadline - wb_now w2" by blast
      have "secs (length (m # ms)) < deadline - wb_now w" using IH(4) again(4) alive w1 by auto
      then show ?thesis using IH again polled_Cons [OF IH(3) again(3)] by auto
    qed
  qed
qed

lemma poll_for_token_ends:
  assumes "secs 1 \<le> bs_poll_interval session"
  shows "\<exists>r w' ms. poll_for_token A c session w = Some (r, w') \<and>
     wb_calls w' = wb_calls w @ ms \<and> polled r ms \<and> length ms \<le> 120"
proof -
  define req where "req = \<lparr>pr_client_id = Some (bs_client_id session), pr_request_id = Some (bs_request_id session)\<rparr>"
  let ?deadline = "wb_now w + POLL_BUDGET"
  have start: "poll_for_token A c session w = poll_loop A c session ?deadline True req w"
    by (simp add: poll_for_token_def req_def)
  have "\<not> (\<not> True \<and> ?deadline \<le> wb_now w)" "w = (if True then w else sleep (bs_poll_interval session) w)"
    by simp_all
  then show ?thesis
  proof (cases rule: poll_once [where A = A and c = c and req = req])
    case (stop r w2 ms)
    then show ?thesis using start by auto
  next
    case (again req' w2 m)
    from poll_retries [OF assms, of A c ?deadline req' w2] obtain r w' ms where
      "poll_loop A c session ?deadline False req' w2 = Some (r, w')" "wb_calls w' = wb_calls w2 @ ms"
      "polled r ms" "ms = [] \<or> secs (length ms) < ?deadline - wb_now w2" by blast
    then show ?thesis using start again polled_Cons [of r ms m] by (auto simp: POLL_BUDGET_def)
  qed
qed

text \<open>The order of the calls: the key, the session, at most one guard code, and then only polls.\<close>

definition flow_order :: "bool \<Rightarrow> nat \<Rightarrow> string list" where
  "flow_order guarded k =
     [''GetPasswordRSAPublicKey'', ''BeginAuthSessionViaCredentials''] @
     (if guarded then [''UpdateAuthSessionWithSteamGuardCode''] else []) @ replicate k POLL_METHOD"

definition follows_flow :: "sign_in_outcome result \<Rightarrow> (string \<times> http_method \<times> bytes) list \<Rightarrow> bool" where
  "follows_flow r ms \<longleftrightarrow>
     (case r of
        Inr (Success _ t _) \<Rightarrow> expose t \<noteq> [] \<and> (\<exists>guarded k. map fst ms = flow_order guarded (Suc k))
      | Inr out \<Rightarrow> refusal out \<and> (\<exists>guarded k. prefix (map fst ms) (flow_order guarded k))
      | Inl _ \<Rightarrow> \<exists>guarded k. prefix (map fst ms) (flow_order guarded k))"

lemma follows_early:
  "prefix (map fst ms) (flow_order guarded k) \<Longrightarrow> follows_flow (Inl e) ms"
  "prefix (map fst ms) (flow_order guarded k) \<Longrightarrow> refusal out \<Longrightarrow> follows_flow (Inr out) ms"
  by (auto simp: follows_flow_def refusal_def split: sign_in_outcome.splits)

lemma follows_polled:
  assumes "polled r ms" "map fst ns = flow_order guarded 0"
  shows "follows_flow r (ns @ ms)"
proof -
  have "map fst ms = replicate (length ms) POLL_METHOD"
    using assms(1) by (intro replicate_eqI) (auto simp: polled_def)
  then have all: "map fst (ns @ ms) = flow_order guarded (length ms)"
    using assms(2) by (simp add: flow_order_def)
  then show ?thesis
    using assms(1) unfolding follows_flow_def polled_def
    by (auto split: sum.splits sign_in_outcome.splits) (metis Suc_pred length_greater_0_conv prefix_order.refl)+
qed

text \<open>One step of the flow: it adds the calls \<open>ms\<close>, and ends the flow only with an error or a refusal.\<close>

definition flow_step :: "string \<Rightarrow> web \<Rightarrow> 'a early_exit result \<times> web \<Rightarrow> bool" where
  "flow_step m w answer \<longleftrightarrow>
     (\<exists>ms. wb_calls (snd answer) = wb_calls w @ ms \<and> (map fst ms = [m] \<or> ms = [] \<and> (\<exists>e. fst answer = Inl e))) \<and>
     (\<forall>out. fst answer = Inr (Outcome out) \<longrightarrow> refusal out)"

lemma on_answer_step:
  assumes "\<And>resp out. f resp \<noteq> Inr (Outcome out)"
  shows "flow_step m w (on_answer m (call E c m verb req dec w) f)"
proof -
  obtain r w' where answer: "on_answer m (call E c m verb req dec w) f = (r, w')" by fastforce
  then show ?thesis
  proof (cases rule: on_answer_cases)
    case (unsent e)
    then show ?thesis by (auto simp: flow_step_def answer)
  next
    case sent
    then show ?thesis using assms by (fastforce simp: flow_step_def answer)
  qed
qed

lemma fetch_rsa_key_step: "flow_step ''GetPasswordRSAPublicKey'' w (fetch_rsa_key A c account w)"
  unfolding fetch_rsa_key_def by (rule on_answer_step) (simp add: and_then_Inr_iff)

lemma begin_session_step: "flow_step ''BeginAuthSessionViaCredentials'' w (begin_session A c account pw ts w)"
  unfolding begin_session_def Let_def by (rule on_answer_step) (simp add: and_then_Inr_iff case_prod_beta)

lemma resolve_guard_step:
  "flow_step ''UpdateAuthSessionWithSteamGuardCode'' w (resolve_guard A c session secret w) \<or>
   snd (resolve_guard A c session secret w) = w \<and>
     (\<forall>out. fst (resolve_guard A c session secret w) = Inr (Outcome out) \<longrightarrow> refusal out)"
  unfolding resolve_guard_def Let_def
  by (auto simp: refusal_def intro: on_answer_step split: option.split sum.split)

lemma flow_stepE:
  assumes "flow_step m w (r, w')"
  obtains (fail) e ms where "r = Inl e" "wb_calls w' = wb_calls w @ ms" "ms = [] \<or> map fst ms = [m]"
  | (refused) out ms where "r = Inr (Outcome out)" "refusal out" "wb_calls w' = wb_calls w @ ms" "map fst ms = [m]"
  | (go) x ms where "r = Inr (Continue x)" "wb_calls w' = wb_calls w @ ms" "map fst ms = [m]"
  using assms unfolding flow_step_def by (cases r; cases "projr r") auto

text \<open>The rest of a flow, after the calls \<open>before\<close>.\<close>

definition flow_ends :: "string list \<Rightarrow> web \<Rightarrow> (sign_in_outcome result \<times> web) option \<Rightarrow> bool" where
  "flow_ends before w rest \<longleftrightarrow>
     (\<exists>r w' ms. rest = Some (r, w') \<and> wb_calls w' = wb_calls w @ ms \<and>
        (\<forall>ns. map fst ns = before \<longrightarrow> follows_flow r (ns @ ms)) \<and> length before + length ms \<le> 123)"

lemma flow_ends_more:
  assumes "wb_calls w' = wb_calls w @ ms" "flow_ends (before @ map fst ms) w' rest"
  shows "flow_ends before w rest"
proof -
  obtain r w'' ks where *: "rest = Some (r, w'')" "wb_calls w'' = wb_calls w' @ ks"
    "\<forall>ns. map fst ns = before @ map fst ms \<longrightarrow> follows_flow r (ns @ ks)" "length before + length ms + length ks \<le> 123"
    using assms(2) unfolding flow_ends_def by auto
  have "follows_flow r (ns @ ms @ ks)" if "map fst ns = before" for ns
    using * that by (metis append.assoc map_append)
  then show ?thesis using * assms(1) unfolding flow_ends_def by auto
qed

lemma flow_ends_early:
  assumes "wb_calls w' = wb_calls w @ ms" "prefix (before @ map fst ms) (flow_order guarded 0)"
  shows "flow_ends before w (Some (Inl e, w'))" and "refusal out \<Longrightarrow> flow_ends before w (Some (Inr out, w'))"
proof -
  have "length (before @ map fst ms) \<le> 3" using prefix_length_le [OF assms(2)] by (simp add: flow_order_def split: if_splits)
  then show "flow_ends before w (Some (Inl e, w'))" "refusal out \<Longrightarrow> flow_ends before w (Some (Inr out, w'))"
    using assms follows_early [where guarded = guarded and k = 0] unfolding flow_ends_def by auto
qed

lemma flow_ends_polling:
  assumes "secs 1 \<le> bs_poll_interval session" "before = flow_order guarded 0"
  shows "flow_ends before w (poll_for_token A c session w)"
proof -
  have "length before \<le> 3" using assms(2) by (simp add: flow_order_def)
  then show ?thesis
    using poll_for_token_ends [OF assms(1), of A c w] follows_polled assms(2) unfolding flow_ends_def by fastforce
qed

lemma guard_phase_ends:
  assumes "secs 1 \<le> bs_poll_interval session"
  shows "flow_ends (flow_order False 0) w
     (case resolve_guard A c session secret w of
        (Inl e, w) \<Rightarrow> Some (Inl e, w)
      | (Inr (Outcome out), w) \<Rightarrow> Some (Inr out, w)
      | (Inr (Continue _), w) \<Rightarrow> poll_for_token A c session w)"
proof -
  obtain r w' where res: "resolve_guard A c session secret w = (r, w')" by fastforce
  from resolve_guard_step [of w A c session secret] show ?thesis
  proof
    assume "flow_step ''UpdateAuthSessionWithSteamGuardCode'' w (resolve_guard A c session secret w)"
    then have "flow_step ''UpdateAuthSessionWithSteamGuardCode'' w (r, w')" by (simp only: res)
    then show ?thesis
    proof (cases rule: flow_stepE)
      case (fail e ms)
      then show ?thesis using flow_ends_early(1) [of w' w ms "flow_order False 0" True e]
        by (auto simp: res flow_order_def)
    next
      case (refused out ms)
      then show ?thesis using flow_ends_early(2) [of w' w ms "flow_order False 0" True out]
        by (auto simp: res flow_order_def)
    next
      case (go x ms)
      then have "flow_ends (flow_order False 0 @ map fst ms) w' (poll_for_token A c session w')"
        by (intro flow_ends_polling [where guarded = True] assms) (simp add: flow_order_def)
      then show ?thesis using go flow_ends_more by (fastforce simp: res)
    qed
  next
    assume "snd (resolve_guard A c session secret w) = w \<and>
        (\<forall>out. fst (resolve_guard A c session secret w) = Inr (Outcome out) \<longrightarrow> refusal out)"
    then show ?thesis
      using flow_ends_early [of w w "[]" "flow_order False 0" False] flow_ends_polling [OF assms, of _ False w A c]
      by (auto simp: res split: sum.split early_exit.split)
  qed
qed

lemma begin_phase_ends:
  "flow_ends [''GetPasswordRSAPublicKey''] w
     (case begin_session A c account pw ts w of
        (Inl e, w) \<Rightarrow> Some (Inl e, w)
      | (Inr (Outcome out), w) \<Rightarrow> Some (Inr out, w)
      | (Inr (Continue session), w) \<Rightarrow>
          (case resolve_guard A c session secret w of
             (Inl e, w) \<Rightarrow> Some (Inl e, w)
           | (Inr (Outcome out), w) \<Rightarrow> Some (Inr out, w)
           | (Inr (Continue _), w) \<Rightarrow> poll_for_token A c session w))"
proof -
  obtain r w' where res: "begin_session A c account pw ts w = (r, w')" by fastforce
  have "flow_step ''BeginAuthSessionViaCredentials'' w (r, w')"
    using begin_session_step [of w A c account pw ts] by (simp only: res)
  then show ?thesis
  proof (cases rule: flow_stepE)
    case (fail e ms)
    then show ?thesis using flow_ends_early(1) [of w' w ms "[''GetPasswordRSAPublicKey'']" False e]
      by (auto simp: res flow_order_def)
  next
    case (refused out ms)
    then show ?thesis using flow_ends_early(2) [of w' w ms "[''GetPasswordRSAPublicKey'']" False out]
      by (auto simp: res flow_order_def)
  next
    case (go session ms)
    have before: "[''GetPasswordRSAPublicKey''] @ map fst ms = flow_order False 0" using go by (simp add: flow_order_def)
    show ?thesis unfolding res go(1)
      using guard_phase_ends [OF begin_session_interval [OF res [unfolded go(1)]], of w' A c secret]
      unfolding before [symmetric] by (simp add: flow_ends_more [OF go(2)])
  qed
qed

lemma password_flow_ends_well: "flow_ends [] w (execute_password_flow A creds proxy w)"
proof (cases "new_client (al_web A) proxy w")
  case (Inl e)
  then show ?thesis using flow_ends_early(1) [of w w "[]" "[]"] by (simp add: execute_password_flow_def)
next
  case (Inr c)
  obtain r w' where res: "fetch_rsa_key A c (pw_account_name creds) w = (r, w')" by fastforce
  have "flow_step ''GetPasswordRSAPublicKey'' w (r, w')"
    using fetch_rsa_key_step [of w A c "pw_account_name creds"] by (simp only: res)
  then show ?thesis
  proof (cases rule: flow_stepE)
    case (fail e ms)
    then show ?thesis using flow_ends_early(1) [of w' w ms "[]" False e]
      by (auto simp: execute_password_flow_def Inr res flow_order_def)
  next
    case (refused out ms)
    then show ?thesis using flow_ends_early(2) [of w' w ms "[]" False out]
      by (auto simp: execute_password_flow_def Inr res flow_order_def)
  next
    case (go key ms)
    have "flow_ends [''GetPasswordRSAPublicKey''] w' (Some (Inl e, w'))" for e
      using flow_ends_early(1) [of w' w' "[]" "[''GetPasswordRSAPublicKey'']" False] by (simp add: flow_order_def)
    then show ?thesis
      using begin_phase_ends [where w = w' and A = A and c = c and account = "pw_account_name creds" and
          ts = "rk_timestamp key" and secret = "pw_shared_secret creds"]
        flow_ends_more [OF go(2), of "[]"] go
      by (auto simp: execute_password_flow_def Inr res split: sum.split)
  qed
qed

lemma refresh_flow_cases:
  obtains (success) sid where "execute_refresh_token_flow A token w = Inr (Success sid token None)"
  | (expired) "execute_refresh_token_flow A token w = Inr TokenRejected"
  | (undecodable) t where "execute_refresh_token_flow A token w = Inl (AuthRejected t)"
proof -
  have "\<exists>t. e = AuthRejected t" if "token_claims (al_jwt A) (expose token) = Inl e" for e
    using token_claims_rejects [OF that] by (simp add: is_auth_rejected_iff)
  then have "(\<exists>sid. execute_refresh_token_flow A token w = Inr (Success sid token None)) \<or>
      execute_refresh_token_flow A token w = Inr TokenRejected \<or>
      (\<exists>t. execute_refresh_token_flow A token w = Inl (AuthRejected t))"
    by (cases "token_claims (al_jwt A) (expose token)") (auto simp: execute_refresh_token_flow_def)
  then show ?thesis using that by blast
qed

text \<open>With a store, in terms of the token that it holds for the account.\<close>

definition usable_token :: "('p, 'c, 'j, 'k) auth_lib \<Rightarrow> web \<Rightarrow> string option \<Rightarrow> u64 option" where
  "usable_token A w stored =
     (case stored of
        None \<Rightarrow> None
      | Some t \<Rightarrow>
          (case execute_refresh_token_flow A (RefreshToken t) w of
             Inr (Success sid _ _) \<Rightarrow> Some sid
           | _ \<Rightarrow> None))"

text \<open>What a sign-in may do to the stored tokens \<open>m\<close>: the token it returns is the one stored, and nothing
  is stored otherwise.  After a failed save nothing is known.\<close>

definition store_follows :: "sign_in_outcome result \<Rightarrow> string \<Rightarrow> (string \<rightharpoonup> string) \<Rightarrow> (string \<rightharpoonup> string) \<Rightarrow> bool" where
  "store_follows r account m m' \<longleftrightarrow>
     (case r of
        Inl (TokenStore _) \<Rightarrow> True
      | Inr (Success _ t _) \<Rightarrow> m' = m(account \<mapsto> expose t)
      | _ \<Rightarrow> m' = m)"

lemma store_follows_simps [simp]:
  "store_follows (Inl (TokenStore e)) account m m'"
  "store_follows (Inr (Success sid t a)) account m m' \<longleftrightarrow> m' = m(account \<mapsto> expose t)"
  "store_follows (Inr TokenRejected) account m m' \<longleftrightarrow> m' = m"
  by (simp_all add: store_follows_def)

lemma store_follows_same: "(\<And>sid t a. r \<noteq> Inr (Success sid t a)) \<Longrightarrow> store_follows r account m m"
  by (auto simp: store_follows_def split: sum.split error.split sign_in_outcome.split)

lemma flow_ends_Some:
  assumes "flow_ends [] w rest"
  obtains r w' where "rest = Some (r, w')" "r \<noteq> Inr TokenRejected"
  using assms by (fastforce simp: flow_ends_def follows_flow_def refusal_def)

context saved_tokens
begin

lemma password_and_save_follows:
  assumes "si_credentials s = Password creds"
  shows "\<exists>r store' w'. password_and_save A S s account store w = Some (r, store', w') \<and> r \<noteq> Inr TokenRejected \<and>
     store_follows r account (saved store) (saved store') \<and>
     ((\<exists>e. r = Inl (TokenStore e)) \<or> execute_password_flow A creds (si_proxy s) w = Some (r, w'))"
proof -
  have exe: "execute A s w = execute_password_flow A creds (si_proxy s) w" using assms by (simp add: execute_def)
  obtain r w' where flow: "execute_password_flow A creds (si_proxy s) w = Some (r, w')" "r \<noteq> Inr TokenRejected"
    using password_flow_ends_well by (rule flow_ends_Some)
  show ?thesis
  proof (cases "\<exists>sid t a. r = Inr (Success sid t a)")
    case True
    then obtain sid t a where r: "r = Inr (Success sid t a)" by blast
    show ?thesis
      using save_saves [of store account "expose t"] flow
      by (cases "ts_save S store account (expose t)")
        (auto simp: password_and_save_def exe r split: sum.split)
  next
    case False
    then have "password_and_save A S s account store w = Some (r, store, w')"
      using flow by (auto simp: password_and_save_def exe split: sum.split sign_in_outcome.split)
    then show ?thesis using flow False store_follows_same by fastforce
  qed
qed

lemma with_store:
  assumes "si_credentials s = Password creds"
  shows "\<exists>r store' w'. execute_with_store A S s store w = Some (r, store', w') \<and> r \<noteq> Inr TokenRejected \<and>
     store_follows r (pw_account_name creds) (saved store) (saved store') \<and>
     ((\<exists>e. r = Inl (TokenStore e)) \<or>
      (case usable_token A w (saved store (pw_account_name creds)) of
         Some sid \<Rightarrow> w' = w \<and>
           r = Inr (Success sid (RefreshToken (the (saved store (pw_account_name creds)))) None)
       | None \<Rightarrow> execute_password_flow A creds (si_proxy s) w = Some (r, w')))"
proof -
  let ?account = "pw_account_name creds"
  obtain loaded store1 where load: "ts_load S store ?account = (loaded, store1)" by fastforce
  then have kept: "saved store1 = saved store" using load_keeps [of store ?account] by simp
  have fall: "\<exists>r store' w'. password_and_save A S s ?account store1 w = Some (r, store', w') \<and> r \<noteq> Inr TokenRejected \<and>
      store_follows r ?account (saved store) (saved store') \<and>
      ((\<exists>e. r = Inl (TokenStore e)) \<or> execute_password_flow A creds (si_proxy s) w = Some (r, w'))"
    using password_and_save_follows [OF assms, of A ?account store1 w] by (simp add: kept)
  show ?thesis
  proof (cases loaded)
    case (Inl e)
    then show ?thesis using assms load by (simp add: execute_with_store_def)
  next
    case (Inr stored)
    then have stored: "saved store ?account = stored" using load load_saved [of store ?account] by simp
    show ?thesis
    proof (cases stored)
      case None
      then show ?thesis using assms load Inr stored fall by (simp add: execute_with_store_def usable_token_def)
    next
      case (Some t)
      let ?attempt = "case si_proxy s of None \<Rightarrow> with_refresh_token t | Some p \<Rightarrow> through_proxy p (with_refresh_token t)"
      have attempt: "execute A ?attempt w = Some (execute_refresh_token_flow A (RefreshToken t) w, w)"
        by (simp add: execute_def with_refresh_token_def through_proxy_def credentials_refresh_token_def split: option.split)
      show ?thesis
      proof (cases rule: refresh_flow_cases [of A "RefreshToken t" w])
        case (success sid)
        then show ?thesis
          using save_saves [of store1 ?account t] attempt assms load Inr Some stored kept
          by (cases "ts_save S store1 ?account t")
            (auto simp: execute_with_store_def Let_def usable_token_def split: sum.split)
      next
        case expired
        then show ?thesis
          using fall attempt assms load Inr Some stored by (simp add: execute_with_store_def Let_def usable_token_def)
      next
        case (undecodable e)
        then show ?thesis
          using fall attempt assms load Inr Some stored by (simp add: execute_with_store_def Let_def usable_token_def)
      qed
    qed
  qed
qed

end

section \<open>Properties\<close>

text \<open>C29: the password flow always comes to an end, whatever Steam answers and however long the answers
  take: the polls are at least a second apart within their two minutes, so it makes at most 123 web calls
  before it returns an outcome or an error.\<close>

theorem password_flow_terminates:
  "\<exists>r w'. execute_password_flow A creds proxy w = Some (r, w') \<and>
     length (wb_calls w') \<le> length (wb_calls w) + 123"
  using password_flow_ends_well [of w A creds proxy] unfolding flow_ends_def by fastforce

text \<open>C30: the calls of a password sign-in follow the protocol: the key, the session, at most one guard code and
  then only polls, with nothing after the flow has ended.  A success went through all of it and carries a
  token that is not empty; every other outcome is one that Steam asked for.\<close>

theorem password_flow_protocol:
  assumes "execute_password_flow A creds proxy w = Some (r, w')"
  shows "\<exists>ms guarded k. wb_calls w' = wb_calls w @ ms \<and>
    (case r of
       Inr (Success _ t _) \<Rightarrow> expose t \<noteq> [] \<and> 0 < k \<and> map fst ms = flow_order guarded k
     | Inr out \<Rightarrow> out \<noteq> TokenRejected \<and> prefix (map fst ms) (flow_order guarded k)
     | Inl _ \<Rightarrow> prefix (map fst ms) (flow_order guarded k))"
proof -
  obtain ms where "wb_calls w' = wb_calls w @ ms" "follows_flow r ms"
    using password_flow_ends_well [of w A creds proxy] assms unfolding flow_ends_def by auto
  then show ?thesis
    by (cases r) (auto simp: follows_flow_def refusal_def split: sign_in_outcome.splits intro!: exI [of _ ms])
qed

text \<open>C28: over any store that keeps its documented promises, a sign-in by password comes to an end, never ends
  in a rejected token, and leaves exactly the token it returned in the store.  A stored token that decodes
  and has not expired is returned without a single web call; an absent, expired or corrupted one leads
  to the password flow.\<close>

theorem sign_in_with_store:
  assumes "saved_tokens S saved" "si_credentials s = Password creds"
  shows "\<exists>r store' w'. execute_with_store A S s store w = Some (r, store', w') \<and> r \<noteq> Inr TokenRejected \<and>
     store_follows r (pw_account_name creds) (saved store) (saved store') \<and>
     ((\<exists>e. r = Inl (TokenStore e)) \<or>
      (case usable_token A w (saved store (pw_account_name creds)) of
         Some sid \<Rightarrow> w' = w \<and>
           r = Inr (Success sid (RefreshToken (the (saved store (pw_account_name creds)))) None)
       | None \<Rightarrow> execute_password_flow A creds (si_proxy s) w = Some (r, w')))"
  by (rule saved_tokens.with_store [OF assms])
section \<open>Samples\<close>

definition sample_response :: http_response where
  "sample_response = \<lparr>hr_status = 200, hr_status_text = ''200 OK'', hr_headers = [(''x-eresult'', [49])],
     hr_text = Inr [], hr_bytes = Inr []\<rparr>"

definition sample_reqwest :: "(unit, unit) reqwest" where
  "sample_reqwest = \<lparr>rq_proxy_all = (\<lambda>_. Inr ()), rq_basic_auth = (\<lambda>p _ _. p), rq_build = (\<lambda>_ _ _ _. Inr ()),
     rq_get = (\<lambda>_ _ _. Inr sample_response), rq_post_form = (\<lambda>_ _ _. Inr sample_response)\<rparr>"

definition sample_auth :: "(unit, unit, unit, unit) auth_lib" where
  "sample_auth = \<lparr>
     al_web = \<lparr>we_url_parse = Inr, we_b64_encode = bytes_str, we_header_to_str = (\<lambda>bs. Some (bytes_str bs)),
       we_reqwest = (\<lambda>_. sample_reqwest), we_took = (\<lambda>_. 80)\<rparr>,
     al_jwt = \<lparr>jl_b64url_decode = (\<lambda>s. Inr (as_bytes s)), jl_json_from_slice = (\<lambda>_. Inr ()),
       jl_get_str = (\<lambda>_ k. Some ''42''), jl_get_u64 = (\<lambda>_ _. None)\<rparr>,
     al_rsa = \<lparr>rl_parse_bytes = (\<lambda>_ _. Some 5), rl_new = (\<lambda>_ _. Inr ()), rl_encrypt = (\<lambda>_ bs. Inr (rev bs))\<rparr>,
     al_b64_decode = (\<lambda>s. Inr (as_bytes s)), al_hmac_sha1 = (\<lambda>_ _. replicate 20 0), al_system_time = int,
     al_enc_rsa = (\<lambda>_. []), al_dec_rsa = (\<lambda>_. Inr \<lparr>rp_publickey_mod = Some ''c5'', rp_publickey_exp = Some ''03'',
       rp_timestamp = Some 1\<rparr>),
     al_enc_begin = (\<lambda>_. []), al_dec_begin = (\<lambda>_. Inr \<lparr>br_client_id = Some 1, br_request_id = Some [],
       br_interval = None, br_allowed_confirmations = [], br_steamid = Some 7\<rparr>),
     al_enc_guard = (\<lambda>_. []), al_dec_guard = (\<lambda>_. Inr ()),
     al_enc_poll = (\<lambda>_. []), al_dec_poll = (\<lambda>_. Inr \<lparr>po_new_client_id = None, po_refresh_token = Some ''a.b.c'',
       po_access_token = None\<rparr>)\<rparr>"

definition sample_creds :: password_credentials where
  "sample_creds = \<lparr>pw_account_name = ''bot01'', pw_password = ''hunter2'', pw_shared_secret = None\<rparr>"

definition sample_web :: web where
  "sample_web = \<lparr>wb_now = 0, wb_calls = []\<rparr>"

lemma sample_call:
  assumes "dec [] = Inr x"
  shows "call (al_web sample_auth) c m verb req dec w =
    (Inr (1, x), \<lparr>wb_now = wb_now w + 80, wb_calls = wb_calls w @ [(m, verb, req)]\<rparr>)"
proof -
  have "bytes_str [49] = ''1''" "show_nat 1 = ''1''" by code_simp+
  then have "parse_i32 (bytes_str [49]) = Some 1"
    using parse_nat_show [of 1 "2 ^ 31"] by (simp add: parse_i32_def)
  then show ?thesis
    using assms by (cases verb) (simp_all add: call_def read_response_def sample_auth_def sample_reqwest_def
        sample_response_def url_for_def header_get_def Let_def)
qed

lemma sample_claims: "token_claims (al_jwt sample_auth) ''a.b.c'' = Inr \<lparr>rc_steam_id = 42, rc_exp = None\<rparr>"
proof -
  have "split_on (\<lambda>c. c = CHR ''.'') ''a.b.c'' = [''a'', ''b'', ''c'']" by code_simp
  moreover have "show_word (42 :: u64) = ''42''" by code_simp
  then have "parse_u64 ''42'' = Inr 42" using parse_u64_show [of 42] by simp
  ultimately show ?thesis by (simp add: token_claims_def decode_payload_def sample_auth_def)
qed

lemma sample_password_flow:
  "execute_password_flow sample_auth sample_creds None sample_web =
     Some (Inr (Success 42 (RefreshToken ''a.b.c'') None),
       \<lparr>wb_now = 240, wb_calls = [(''GetPasswordRSAPublicKey'', Get, []), (''BeginAuthSessionViaCredentials'', Post, []),
          (''PollAuthSessionStatus'', Post, [])]\<rparr>)"
proof -
  let ?A = sample_auth
  have codecs: "al_enc_rsa ?A x = []" "al_enc_begin ?A b = []" "al_enc_poll ?A p = []" for x b p
    by (simp_all add: sample_auth_def)
  have "new_client (al_web ?A) None sample_web = Inr ()"
    by (simp add: new_client_def client_def sample_auth_def sample_reqwest_def)
  moreover have "fetch_rsa_key ?A () (pw_account_name sample_creds) sample_web =
      (Inr (Continue \<lparr>rk_mod_hex = ''c5'', rk_exp_hex = ''03'', rk_timestamp = 1\<rparr>),
       \<lparr>wb_now = 80, wb_calls = [(''GetPasswordRSAPublicKey'', Get, [])]\<rparr>)"
    unfolding fetch_rsa_key_def codecs
    by (subst sample_call, simp add: sample_auth_def) (simp_all add: on_answer_def sample_web_def)
  moreover have "\<exists>e. encrypt_password (we_b64_encode (al_web ?A)) (al_rsa ?A) (pw_password sample_creds) ''c5'' ''03'' = Inr e"
    by (simp add: encrypt_password_def sample_auth_def)
  moreover have "begin_session ?A () (pw_account_name sample_creds) e 1 w =
      (Inr (Continue \<lparr>bs_client_id = 1, bs_request_id = [], bs_session_steamid = 7, bs_poll_interval = secs 5,
         bs_guards = [], bs_email_domain_hint = None\<rparr>),
       \<lparr>wb_now = wb_now w + 80, wb_calls = wb_calls w @ [(''BeginAuthSessionViaCredentials'', Post, [])]\<rparr>)" for e w
    unfolding begin_session_def codecs Let_def
    by (subst sample_call, simp add: sample_auth_def)
      (simp_all add: on_answer_def compute_poll_interval_def POLL_DEFAULT_INTERVAL_SECS_def)
  moreover have "resolve_guard ?A () session None w = (Inr (Continue ()), w)" if "bs_guards session = []" for session w
    using that by (simp add: resolve_guard_def)
  moreover have "poll_for_token ?A () session w =
      Some (Inr (Success 42 (RefreshToken ''a.b.c'') None),
       \<lparr>wb_now = wb_now w + 80, wb_calls = wb_calls w @ [(''PollAuthSessionStatus'', Post, [])]\<rparr>)" for session w
    unfolding poll_for_token_def
    by (subst poll_loop.simps, subst sample_call, simp add: sample_auth_def)
      (simp add: codecs steam_id_from_refresh_token_def sample_claims)
  ultimately show ?thesis by (auto simp: execute_password_flow_def sample_creds_def)
qed

theorem password_flow_protocol_witness:
  "\<exists>ms guarded k. wb_calls (snd (the (execute_password_flow sample_auth sample_creds None sample_web))) = ms \<and>
     ms \<noteq> [] \<and> 0 < k \<and> map fst ms = flow_order guarded k"
proof -
  have "wb_calls sample_web = []" by (simp add: sample_web_def)
  then show ?thesis using password_flow_protocol [OF sample_password_flow] unfolding sample_password_flow by simp
qed

theorem sign_in_with_store_witness:
  "\<exists>r store' w'. execute_with_store sample_auth memory_store \<lparr>si_credentials = Password sample_creds, si_proxy = None\<rparr>
       [''bot01'' \<mapsto> ''a.b.c''] sample_web = Some (r, store', w') \<and>
     ((\<exists>e. r = Inl (TokenStore e)) \<or>
      w' = sample_web \<and> r = Inr (Success 42 (RefreshToken ''a.b.c'') None) \<and> store' ''bot01'' = Some ''a.b.c'')"
proof -
  let ?m = "[''bot01'' \<mapsto> ''a.b.c'']"
  let ?s = "\<lparr>si_credentials = Password sample_creds, si_proxy = None\<rparr>"
  have account: "pw_account_name sample_creds = ''bot01''" by (simp add: sample_creds_def)
  have usable: "usable_token sample_auth sample_web (Some ''a.b.c'') = Some 42"
    by (simp add: usable_token_def execute_refresh_token_flow_def sample_claims)
  obtain r store' w' where *: "execute_with_store sample_auth memory_store ?s ?m sample_web = Some (r, store', w')"
    "store_follows r ''bot01'' ?m store'"
    "(\<exists>e. r = Inl (TokenStore e)) \<or> w' = sample_web \<and> r = Inr (Success 42 (RefreshToken ''a.b.c'') None)"
    using sign_in_with_store [OF in_memory.saved_tokens_axioms, of ?s sample_creds sample_auth ?m sample_web]
    by (auto simp: account usable)
  then show ?thesis by auto
qed

end
