(* ===== verification/Program.thy ===== *)
theory Program
  imports Session_Run Friends Persona Cs2 Signin
begin

text \<open>
  The setting of the programs in \<^verbatim>\<open>examples/\<close>, which use the crate end to end.  A program is a function
  on a \<open>world\<close>: environment variables, files, what was printed, the traffic of a sign-in, the sessions
  asked for and the handle of the open one.  It goes on with a value or stops: \<^verbatim>\<open>main\<close> returned an error,
  the process exited or panicked, or a future never completes.

  The record \<open>library\<close> collects what a program takes from outside: the third-party code below the crate,
  the other side of the session and of the Game Coordinator, and the file system's refusals.  An
  environment variable that is not Unicode reads as unset, as in \<^verbatim>\<open>env::var(..).ok()\<close>; log output is left
  out, as everywhere.
\<close>

section \<open>Programs\<close>

datatype line = Stdout string | Stderr string

datatype main_error =
    Message string
  | Library error
  | ParseInt string
  | FileError string

datatype ending =
    Erred main_error
  | Exited nat
  | Panicked string
  | Hangs

datatype 'a outcome = Go 'a | Stop ending

record world =
  wo_vars :: "string \<rightharpoonup> string"
  wo_files :: "string \<rightharpoonup> bytes"
  wo_lines :: "line list"
  wo_web :: web
  wo_spawned :: "session_config list"
  wo_handle :: handle

type_synonym 'a program = "world \<Rightarrow> 'a outcome \<times> world"

definition ret :: "'a \<Rightarrow> 'a program" where
  "ret x w = (Go x, w)"

definition stop :: "ending \<Rightarrow> 'a program" where
  "stop e w = (Stop e, w)"

definition bind :: "'a program \<Rightarrow> ('a \<Rightarrow> 'b program) \<Rightarrow> 'b program" where
  "bind p f w = (case p w of (Go x, w) \<Rightarrow> f x w | (Stop e, w) \<Rightarrow> (Stop e, w))"

definition print :: "line list \<Rightarrow> unit program" where
  "print ls w = (Go (), w\<lparr>wo_lines := wo_lines w @ ls\<rparr>)"

text \<open>The operator \<^verbatim>\<open>?\<close> in a \<^verbatim>\<open>main\<close>, \<^verbatim>\<open>expect\<close>, and an \<^verbatim>\<open>await\<close> that may never complete.\<close>

definition propagate :: "('e \<Rightarrow> main_error) \<Rightarrow> 'e + 'a \<Rightarrow> 'a program" where
  "propagate into r = (case r of Inl e \<Rightarrow> stop (Erred (into e)) | Inr x \<Rightarrow> ret x)"

definition expect :: "string \<Rightarrow> 'e + 'a \<Rightarrow> 'a program" where
  "expect msg r = (case r of Inl _ \<Rightarrow> stop (Panicked msg) | Inr x \<Rightarrow> ret x)"

definition await :: "'a poll \<Rightarrow> 'a program" where
  "await p = (case p of Pending \<Rightarrow> stop Hangs | Ready x \<Rightarrow> ret x)"

definition env_var :: "string \<Rightarrow> string option program" where
  "env_var name w = (Go (wo_vars w name), w)"

definition require_var :: "string \<Rightarrow> string \<Rightarrow> string program" where
  "require_var name msg = bind (env_var name) (\<lambda>v. propagate Message (ok_or msg v))"

text \<open>A call on the handle of the open session.\<close>

definition on_handle :: "(handle \<Rightarrow> 'a \<times> handle) \<Rightarrow> 'a program" where
  "on_handle f w = (case f (wo_handle w) of (x, h) \<Rightarrow> (Go x, w\<lparr>wo_handle := h\<rparr>))"

definition await_handle :: "(handle \<Rightarrow> 'a poll \<times> handle) \<Rightarrow> 'a program" where
  "await_handle f = bind (on_handle f) await"

text \<open>A call on a coordinator, whose session is a clone of that handle.\<close>

definition on_coordinator :: "coordinator \<Rightarrow> (coordinator \<Rightarrow> 'a \<times> coordinator) \<Rightarrow> 'a program" where
  "on_coordinator c f = on_handle (\<lambda>h. case f (c\<lparr>co_session := h\<rparr>) of (x, c) \<Rightarrow> (x, co_session c))"

definition await_coordinator :: "coordinator \<Rightarrow> (coordinator \<Rightarrow> 'a poll \<times> coordinator) \<Rightarrow> 'a program" where
  "await_coordinator c f = bind (on_coordinator c f) await"

fun for_each_item :: "('x \<Rightarrow> unit program) \<Rightarrow> 'x list \<Rightarrow> unit program" where
  "for_each_item body [] = ret ()"
| "for_each_item body (x # xs) = bind (body x) (\<lambda>_. for_each_item body xs)"

text \<open>The status the process ends with, if it ends: a \<^verbatim>\<open>main\<close> that returns an error gives 1, a panic 101.\<close>

fun exit_code :: "'a outcome \<Rightarrow> nat option" where
  "exit_code (Go _) = Some 0"
| "exit_code (Stop (Erred _)) = Some 1"
| "exit_code (Stop (Exited n)) = Some n"
| "exit_code (Stop (Panicked _)) = Some 101"
| "exit_code (Stop Hangs) = None"

fun on_stdout :: "line \<Rightarrow> bool" where
  "on_stdout (Stdout _) = True"
| "on_stdout (Stderr _) = False"

section \<open>The crate and what is below it\<close>

record ('p, 'c, 'j, 'k, 'f) library =
  lb_auth :: "('p, 'c, 'j, 'k) auth_lib"
  lb_url_parse :: "string \<Rightarrow> string + url"
  lb_reqwest :: "('p, 'c) reqwest"
  lb_wire :: wire
  lb_connector :: "nat \<Rightarrow> 'f connector"
  lb_up_at :: millis
  lb_env :: env
  lb_joined :: "unit poll"
  lb_friends :: friends_wire
  lb_persona :: persona_wire
  lb_gc :: gc_wire
  lb_gc_env :: gc_env
  lb_enc_profile :: "client_request_players_profile \<Rightarrow> bytes"
  lb_dec_profile :: "bytes \<Rightarrow> string + players_profile"
  lb_esc :: "bytes \<Rightarrow> string"
  lb_write_fault :: "string \<Rightarrow> string option"

definition execute_sign_in :: "('p, 'c, 'j, 'k, 'f) library \<Rightarrow> sign_in \<Rightarrow> sign_in_outcome result program" where
  "execute_sign_in L s w =
     (case execute (lb_auth L) s (wo_web w) of
        None \<Rightarrow> (Stop Hangs, w)
      | Some (r, web) \<Rightarrow> (Go r, w\<lparr>wo_web := web\<rparr>))"

definition handle_of :: "driver \<Rightarrow> handle" where
  "handle_of d = \<lparr>h_steam_id = d_steam_id d, h_now = d_now d, h_sent = [], h_next = 0, h_looks = 0\<rparr>"

definition open_session :: "('p, 'c, 'j, 'k, 'f) library \<Rightarrow> session_config \<Rightarrow> unit program" where
  "open_session L config w =
     (let w = w\<lparr>wo_spawned := wo_spawned w @ [config]\<rparr>
      in case spawn_session (lb_wire L) (lb_connector L) (lb_up_at L) config of
           Inl e \<Rightarrow> (Stop (Erred (Library e)), w)
         | Inr d \<Rightarrow> (Go (), w\<lparr>wo_handle := handle_of d\<rparr>))"

text \<open>\<^verbatim>\<open>handle.logoff().await?; let _ = join.await;\<close>\<close>

definition close_session :: "('p, 'c, 'j, 'k, 'f) library \<Rightarrow> unit program" where
  "close_session L =
     bind (await_handle (logoff (lb_env L))) (\<lambda>r.
     bind (propagate Library r) (\<lambda>_.
     await (lb_joined L)))"

definition read_file :: "string \<Rightarrow> bytes option program" where
  "read_file path w = (Go (wo_files w path), w)"

definition write_file :: "('p, 'c, 'j, 'k, 'f) library \<Rightarrow> string \<Rightarrow> bytes \<Rightarrow> (string + unit) program" where
  "write_file L path contents w =
     (case lb_write_fault L path of
        Some e \<Rightarrow> (Go (Inl e), w)
      | None \<Rightarrow> (Go (Inr ()), w\<lparr>wo_files := (wo_files w)(path \<mapsto> contents)\<rparr>))"

section \<open>Text\<close>

definition check_mark :: string where "check_mark = bytes_str [0xE2, 0x9C, 0x93]"
definition cross_mark :: string where "cross_mark = bytes_str [0xE2, 0x9C, 0x97]"
definition warning_sign :: string where "warning_sign = bytes_str [0xE2, 0x9A, 0xA0]"
definition right_arrow :: string where "right_arrow = bytes_str [0xE2, 0x86, 0x92]"
definition em_dash :: string where "em_dash = bytes_str [0xE2, 0x80, 0x94]"
definition ellipsis :: string where "ellipsis = bytes_str [0xE2, 0x80, 0xA6]"
definition newline :: string where "newline = [CHR 0x0A]"

text \<open>The derived \<^verbatim>\<open>Debug\<close> of the enumerations that are printed.\<close>

fun debug_state :: "persona_state \<Rightarrow> string" where
  "debug_state Offline = ''Offline''"
| "debug_state Online = ''Online''"
| "debug_state Busy = ''Busy''"
| "debug_state Away = ''Away''"
| "debug_state Snooze = ''Snooze''"
| "debug_state LookingToTrade = ''LookingToTrade''"
| "debug_state LookingToPlay = ''LookingToPlay''"
| "debug_state Invisible = ''Invisible''"
| "debug_state (UnknownState n) = debug_tuple ''Unknown'' [show_word n]"

fun debug_relationship :: "friend_relationship \<Rightarrow> string" where
  "debug_relationship NoRelationship = ''None''"
| "debug_relationship Blocked = ''Blocked''"
| "debug_relationship RequestRecipient = ''RequestRecipient''"
| "debug_relationship IsFriend = ''Friend''"
| "debug_relationship RequestInitiator = ''RequestInitiator''"
| "debug_relationship Ignored = ''Ignored''"
| "debug_relationship IgnoredFriend = ''IgnoredFriend''"
| "debug_relationship (UnknownRelationship n) = debug_tuple ''Unknown'' [show_word n]"

section \<open>Running programs\<close>

lemma bind_simps [simp]:
  "bind (ret x) f = f x"
  "bind (stop e) f = stop e"
  "bind (print ls) g w = g () (w\<lparr>wo_lines := wo_lines w @ ls\<rparr>)"
  "bind (env_var name) h w = h (wo_vars w name) w"
  "bind (bind p k) k' = bind p (\<lambda>x. bind (k x) k')"
  by (auto simp: bind_def ret_def stop_def print_def env_var_def fun_eq_iff split: prod.split outcome.split)

lemma bind_after [simp]:
  "bind (\<lambda>a. ret x (k a)) f w = f x (k w)"
  "bind (\<lambda>a. stop e (k a)) g w = (Stop e, k w)"
  "bind (\<lambda>a. bind p h (k a)) f' w = bind p (\<lambda>x. bind (h x) f') (k w)"
  by (simp_all add: bind_def ret_def stop_def split: prod.split outcome.split)

lemma propagate_simps [simp]:
  "propagate into (Inl e) = stop (Erred (into e))"
  "propagate into (Inr x) = ret x"
  "expect msg (Inl e') = stop (Panicked msg)"
  "expect msg (Inr y) = ret y"
  "await Pending = stop Hangs"
  "await (Ready z) = ret z"
  by (simp_all add: propagate_def expect_def await_def)

lemma bind_require_var [simp]:
  "bind (require_var name msg) f w =
     (case wo_vars w name of None \<Rightarrow> (Stop (Erred (Message msg)), w) | Some v \<Rightarrow> f v w)"
  by (simp add: require_var_def bind_def env_var_def ok_or_def propagate_def stop_def ret_def split: option.split)

lemma bind_execute [simp]:
  "bind (execute_sign_in L s) f w =
     (case execute (lb_auth L) s (wo_web w) of
        None \<Rightarrow> (Stop Hangs, w)
      | Some (r, web) \<Rightarrow> f r (w\<lparr>wo_web := web\<rparr>))"
  by (simp add: bind_def execute_sign_in_def split: option.split prod.split)

lemma bind_open [simp]:
  "bind (open_session L config) f w =
     (case spawn_session (lb_wire L) (lb_connector L) (lb_up_at L) config of
        Inl e \<Rightarrow> (Stop (Erred (Library e)), w\<lparr>wo_spawned := wo_spawned w @ [config]\<rparr>)
      | Inr d \<Rightarrow> f () (w\<lparr>wo_spawned := wo_spawned w @ [config], wo_handle := handle_of d\<rparr>))"
  by (simp add: bind_def open_session_def split: sum.split)

lemma bind_on_handle [simp]:
  "bind (on_handle g) f w = (case g (wo_handle w) of (x, h) \<Rightarrow> f x (w\<lparr>wo_handle := h\<rparr>))"
  by (simp add: bind_def on_handle_def split: prod.split)

lemma bind_await_handle [simp]:
  "bind (await_handle g) f w =
     (case g (wo_handle w) of
        (Pending, h) \<Rightarrow> (Stop Hangs, w\<lparr>wo_handle := h\<rparr>)
      | (Ready x, h) \<Rightarrow> f x (w\<lparr>wo_handle := h\<rparr>))"
  by (auto simp: await_handle_def stop_def split: prod.split poll.split)

section \<open>Best effort\<close>

text \<open>A part of a program that always goes on: it adds to the output and changes neither the variables
  nor what was spawned.\<close>

definition best_effort :: "'a program \<Rightarrow> bool" where
  "best_effort p \<longleftrightarrow>
     (\<forall>w. \<exists>x w' ls. p w = (Go x, w') \<and> wo_lines w' = wo_lines w @ ls \<and>
        wo_vars w' = wo_vars w \<and> wo_spawned w' = wo_spawned w)"

lemma best_effortE:
  assumes "best_effort p"
  obtains x w' ls where "p w = (Go x, w')" "wo_lines w' = wo_lines w @ ls" "wo_vars w' = wo_vars w"
    "wo_spawned w' = wo_spawned w"
  using assms unfolding best_effort_def by blast

lemma best_effort_ret: "best_effort (ret x)"
  by (simp add: best_effort_def ret_def)

lemma best_effort_print: "best_effort (print ls)"
  by (simp add: best_effort_def print_def)

lemma best_effort_env_var: "best_effort (env_var name)"
  by (simp add: best_effort_def env_var_def)

lemma best_effort_on_handle: "best_effort (on_handle g)"
  by (simp add: best_effort_def on_handle_def split: prod.split)

lemma best_effort_write_file: "best_effort (write_file L path contents)"
  by (simp add: best_effort_def write_file_def split: option.split)

lemma best_effort_bind:
  assumes "best_effort p" "\<And>x. best_effort (f x)"
  shows "best_effort (bind p f)"
  unfolding best_effort_def
proof
  fix w :: world
  obtain x w1 l1 where 1: "p w = (Go x, w1)" "wo_lines w1 = wo_lines w @ l1" "wo_vars w1 = wo_vars w"
    "wo_spawned w1 = wo_spawned w" using assms(1) by (rule best_effortE)
  obtain y w2 l2 where 2: "f x w1 = (Go y, w2)" "wo_lines w2 = wo_lines w1 @ l2" "wo_vars w2 = wo_vars w1"
    "wo_spawned w2 = wo_spawned w1" using assms(2) by (rule best_effortE)
  show "\<exists>y w' ls. bind p f w = (Go y, w') \<and> wo_lines w' = wo_lines w @ ls \<and>
      wo_vars w' = wo_vars w \<and> wo_spawned w' = wo_spawned w"
    using 1 2 by (simp add: bind_def)
qed

lemma best_effort_await_handle:
  assumes "\<And>h. fst (g h) \<noteq> Pending"
  shows "best_effort (await_handle g)"
  unfolding best_effort_def
proof
  fix w :: world
  obtain x h where "g (wo_handle w) = (Ready x, h)"
    using assms [of "wo_handle w"] by (metis poll.exhaust prod.collapse)
  then show "\<exists>x w' ls. await_handle g w = (Go x, w') \<and> wo_lines w' = wo_lines w @ ls \<and>
      wo_vars w' = wo_vars w \<and> wo_spawned w' = wo_spawned w"
    by (simp add: await_handle_def ret_def)
qed

lemma best_effort_coordinator:
  "best_effort (on_coordinator c f)"
  "(\<And>c. fst (g c) \<noteq> Pending) \<Longrightarrow> best_effort (await_coordinator c g)"
  using best_effort_await_handle [of "\<lambda>h. case g (c\<lparr>co_session := h\<rparr>) of (x, c) \<Rightarrow> (x, co_session c)"]
  by (simp_all add: on_coordinator_def await_coordinator_def await_handle_def best_effort_on_handle case_prod_beta)

lemma best_effort_for_each:
  assumes "\<And>x. best_effort (body x)"
  shows "best_effort (for_each_item body xs)"
  by (induction xs) (simp_all add: best_effort_ret best_effort_bind assms)

lemma best_effort_cases:
  "(\<And>e. best_effort (f e)) \<Longrightarrow> (\<And>x. best_effort (g x)) \<Longrightarrow> best_effort (case_sum f g r)"
  "best_effort p \<Longrightarrow> (\<And>x. best_effort (g' x)) \<Longrightarrow> best_effort (case_option p g' v)"
  "best_effort q \<Longrightarrow> best_effort q' \<Longrightarrow> best_effort (if b then q else q')"
  by (simp_all split: sum.split option.split)

lemmas best_effort_intros =
  best_effort_ret best_effort_print best_effort_env_var best_effort_on_handle best_effort_write_file
  best_effort_bind best_effort_await_handle best_effort_coordinator best_effort_for_each best_effort_cases

text \<open>Calls on a session that leaves no accepted command without an answer.\<close>

lemma logoff_ready:
  assumes "writes_finish E"
  shows "fst (logoff E h) = Ready (Inr ()) \<or> fst (logoff E h) = Ready (Inl (WebSocket ''session driver stopped''))"
  using assms by (auto simp: writes_finish_def logoff_def queue_command_def Let_def split: sum.split option.split)

lemma summary_ready: "writes_finish E \<Longrightarrow> fst (request_player_summary P E h sid) \<noteq> Pending"
  using notify_finishes
  by (auto simp: request_player_summary_def Let_def split: prod.split poll.split sum.split) (metis fst_conv)+

lemma attach_ready: "writes_finish E \<Longrightarrow> fst (attach G E h appid v) \<noteq> Pending"
  using launch_finishes
  by (auto simp: attach_def split: prod.split poll.split sum.split) (metis fst_conv)+

lemma gc_send_ready: "writes_finish E \<Longrightarrow> fst (gc_send G E c t b) \<noteq> Pending"
  using notify_finishes by (auto simp: gc_send_def Let_def split: prod.split) (metis fst_conv)

lemma request_matching_ready: "writes_finish E \<Longrightarrow> fst (request_matching G E V c s b r t dec accept) \<noteq> Pending"
  using gc_send_ready
  by (auto simp: request_matching_def Let_def split: prod.split poll.split sum.split) (metis fst_conv)+

lemma profile_ready: "writes_finish E \<Longrightarrow> fst (request_player_profile G E V enc dec c a) \<noteq> Pending"
  by (auto simp: request_player_profile_def Let_def split: prod.split poll.split)
    (metis fst_conv request_matching_ready)+

text \<open>A driver that has stopped is such a session, at every point of its life.\<close>

lemma stopped_session_finishes:
  assumes "reachable (driver_start W) (driver_step W) d'" "d_phase d' = Ended r"
  shows "writes_finish (session_env d look rx d')"
  using ended_answers [OF assms] by (auto simp: writes_finish_def session_env_def map_of_eq_None_iff)

section \<open>Parts that only talk to the session\<close>

text \<open>However it ends, such a part leaves the variables, the files, the sign-in and the list of sessions alone.\<close>

definition session_only :: "'a program \<Rightarrow> bool" where
  "session_only p \<longleftrightarrow>
     (\<forall>w. wo_vars (snd (p w)) = wo_vars w \<and> wo_files (snd (p w)) = wo_files w \<and>
          wo_web (snd (p w)) = wo_web w \<and> wo_spawned (snd (p w)) = wo_spawned w)"

lemma session_only_basic:
  "session_only (ret x)" "session_only (stop e)" "session_only (print ls)" "session_only (env_var name)"
  "session_only (on_handle g)"
  by (simp_all add: session_only_def ret_def stop_def print_def env_var_def on_handle_def split: prod.split)

lemma session_only_bind:
  assumes "session_only p" "\<And>x. session_only (f x)"
  shows "session_only (bind p f)"
  using assms unfolding session_only_def bind_def by (auto split: prod.split outcome.split) (metis snd_conv)+

lemma session_only_propagate: "session_only (propagate into r)" "session_only (await x)"
  by (simp_all add: propagate_def await_def session_only_basic split: sum.split poll.split)

lemma session_only_await_handle: "session_only (await_handle g)"
  by (simp add: await_handle_def session_only_basic session_only_bind session_only_propagate)

lemmas session_only_intros = session_only_basic session_only_bind session_only_propagate session_only_await_handle

lemma session_only_close: "session_only (close_session L)"
  unfolding close_session_def by (intro session_only_intros)

section \<open>Samples\<close>

definition sample_library :: "(unit, unit, unit, unit, unit) library" where
  "sample_library =
     \<lparr>lb_auth = sample_auth, lb_url_parse = (\<lambda>_. Inl ''relative URL without a base''), lb_reqwest = sample_reqwest,
      lb_wire = sample_wire, lb_connector = (\<lambda>_. good_connector), lb_up_at = 9, lb_env = answering_env,
      lb_joined = Ready (), lb_friends = sample_friends, lb_persona = sample_persona, lb_gc = sample_gc,
      lb_gc_env = reply_gc_env, lb_enc_profile = (\<lambda>_. []), lb_dec_profile = (\<lambda>_. Inl ''no profile''),
      lb_esc = (\<lambda>_. []), lb_write_fault = (\<lambda>_. None)\<rparr>"

definition sample_world :: world where
  "sample_world =
     \<lparr>wo_vars = [''STEAM_ACCOUNT'' \<mapsto> ''bot01'', ''STEAM_PASSWORD'' \<mapsto> ''hunter2''], wo_files = (\<lambda>_. None),
      wo_lines = [], wo_web = sample_web, wo_spawned = [], wo_handle = sample_handle\<rparr>"

text \<open>The sample codec drops what a logon carries, so the sample session opens for every account and token.\<close>

lemma sample_spawn: "spawn_session sample_wire (\<lambda>_. good_connector) 9 config = Inr (spawn_driver config 9 sample_session)"
proof -
  have send: "conn_send sample_wire c EMSG_CLIENT_LOGON (w_enc_logon sample_wire) (logon_request a t) =
      conn_send sample_wire c EMSG_CLIENT_LOGON (w_enc_logon sample_wire) (logon_request ''acc'' ''tok'')" for c a t
    by (simp add: conn_send_def encode_def encode_into_def Let_def sample_wire_def)
  have logon: "logon sample_wire c a t = logon sample_wire c ''acc'' ''tok''" for c a t
    by (simp only: logon_def send [of _ a t])
  have dial: "attempt sample_wire good_connector i a t proxy = attempt sample_wire good_connector i ''acc'' ''tok'' proxy"
    for i a t proxy
    by (rule ext) (simp only: attempt_def logon [of _ a t])
  have "establish sample_wire good_connector a t proxy = Inr sample_session" for a t proxy
    using sample_establish [of proxy] by (simp only: establish_def dial [of _ a t])
  then show ?thesis
    by (simp add: spawn_session_def establish_resilient_def INITIAL_CONNECT_ATTEMPTS_def numeral_eq_Suc)
qed

end
