(* ===== verification/Example_Tools.thy ===== *)
theory Example_Tools
  imports Program
begin

text \<open>
  The small programs: \<^verbatim>\<open>examples/01_totp.rs\<close> prints a guard code, \<^verbatim>\<open>02_proxy_test.rs\<close> fetches a page through
  a proxy, \<^verbatim>\<open>03_ws_echo.rs\<close> talks to an echo server.  Sockets and the WebSocket library are the arguments
  \<open>N\<close> and \<open>K\<close>; \<open>flush\<close> and the printed form of a message belong to them.
\<close>

section \<open>Example 01: a guard code\<close>

definition main_01 :: "('p, 'c, 'j, 'k) auth_lib \<Rightarrow> unit program" where
  "main_01 A =
     bind (env_var ''SHARED_SECRET'') (\<lambda>v.
     bind (expect ''set SHARED_SECRET to the base64-encoded TOTP secret'' (ok_or () v)) (\<lambda>secret w.
     case generate_auth_code (al_b64_decode A) (al_hmac_sha1 A) (unix_clock A (wo_web w)) secret None of
       Inr code \<Rightarrow> print [Stdout code] w
     | Inl e \<Rightarrow>
         bind (print [Stderr (''failed to generate code: '' @ display_error e)]) (\<lambda>_. stop (Exited 1)) w))"

section \<open>Example 02: a request through a proxy\<close>

definition ip_request :: string where
  "ip_request = ''GET /ip HTTP/1.1'' @ crlf @ ''Host: httpbin.org'' @ crlf @ ''Connection: close'' @ crlf @ crlf"

definition read_to_end :: "byte_stream \<Rightarrow> (string + bytes) poll" where
  "read_to_end s =
     (case bs_tail s of
        TailEof \<Rightarrow> Ready (Inr (bs_incoming s))
      | TailError e \<Rightarrow> Ready (Inl e)
      | TailStall \<Rightarrow> Pending)"

definition main_02 ::
    "(string \<Rightarrow> string + url) \<Rightarrow> net \<Rightarrow> (byte_stream \<Rightarrow> (string + unit) poll) \<Rightarrow> unit program" where
  "main_02 url_parse N flush =
     bind (env_var ''PROXY_URL'') (\<lambda>v.
     bind (expect ''set PROXY_URL to a socks5:// or http:// URL'' (ok_or () v)) (\<lambda>proxy_url.
     bind (expect ''parse proxy URL'' (parse url_parse proxy_url)) (\<lambda>proxy.
     bind (print [Stdout (''Using proxy: '' @ display proxy)]) (\<lambda>_.
     bind (expect ''proxy connect'' (connect_via_proxy N proxy ''httpbin.org'' 80)) (\<lambda>stream.
     bind (await (net_write N stream (as_bytes ip_request))) (\<lambda>r.
     bind (expect ''write request'' r) (\<lambda>_.
     let stream = stream\<lparr>bs_sent := bs_sent stream @ as_bytes ip_request\<rparr> in
     bind (await (flush stream)) (\<lambda>r.
     bind (expect ''flush'' r) (\<lambda>_.
     bind (await (read_to_end stream)) (\<lambda>r.
     bind (expect ''read response'' r) (\<lambda>buf.
     print [Stdout (bytes_str (from_utf8_lossy buf))])))))))))))"

section \<open>Example 03: an echo server\<close>

definition ECHO_URL :: string where
  "ECHO_URL = ''wss://echo.websocket.events''"

text \<open>\<^verbatim>\<open>ws.next().await\<close>, and the \<^verbatim>\<open>if let Some(Ok(message))\<close> around it.\<close>

definition next_message :: "ws_stream \<Rightarrow> (ws_message option \<times> ws_stream) poll" where
  "next_message rd =
     (case rd of
        [] \<Rightarrow> Pending
      | (_, WsItem m) # rest \<Rightarrow> Ready (Some m, rest)
      | (_, WsError _) # rest \<Rightarrow> Ready (None, rest)
      | (_, WsEnd) # rest \<Rightarrow> Ready (None, (0, WsEnd) # rest))"

definition print_message :: "string \<Rightarrow> (ws_message \<Rightarrow> string) \<Rightarrow> ws_message option \<Rightarrow> unit program" where
  "print_message who debug m =
     (case m of None \<Rightarrow> ret () | Some m \<Rightarrow> print [Stdout (who @ '': '' @ debug m)])"

definition main_03 ::
    "(string \<Rightarrow> string + url) \<Rightarrow> net \<Rightarrow> ws_lib \<Rightarrow> (ws_message \<Rightarrow> string) \<Rightarrow> unit program" where
  "main_03 url_parse N K debug =
     bind (env_var ''PROXY_URL'') (\<lambda>v.
     bind (case v of
             None \<Rightarrow> ret None
           | Some url \<Rightarrow> bind (expect ''parse proxy URL'' (parse url_parse url)) (\<lambda>p. ret (Some p))) (\<lambda>proxy.
     bind (print [Stdout (case proxy of
                            Some p \<Rightarrow> ''Using proxy: '' @ display p
                          | None \<Rightarrow> ''Direct connection (no proxy)'')]) (\<lambda>_.
     bind (expect ''ws connect'' (connect_ws url_parse N K ECHO_URL proxy)) (\<lambda>ws.
     bind (await (next_message (ws_read ws))) (\<lambda>(welcome, rd).
     bind (print_message ''server'' debug welcome) (\<lambda>_.
     bind (expect ''send'' (fst (sink_send (ws_write ws) (WsText ''hello from steamroids'')))) (\<lambda>_.
     bind (await (next_message rd)) (\<lambda>(reply, _).
     print_message ''echoed'' debug reply))))))))"

end
