(* ===== verification/Example_Signin.thy ===== *)
theory Example_Signin
  imports Program
begin

text \<open>
  The two sign-in programs: \<^verbatim>\<open>examples/04_signin_credentials.rs\<close> with a password and
  \<^verbatim>\<open>05_signin_refresh_token.rs\<close> with a saved token.  Each turns every outcome of a sign-in into output and
  an exit code.
\<close>

section \<open>Programs\<close>

definition success_lines ::
    "bool \<Rightarrow> u64 \<Rightarrow> refresh_token \<Rightarrow> string option \<Rightarrow> line list" where
  "success_lines hint sid token access_token =
     [Stdout (check_mark @ '' logged in''),
      Stdout (''  steam_id      : '' @ show_word sid),
      Stdout (''  refresh_token : '' @ expose token)] @
     (case access_token of None \<Rightarrow> [] | Some text \<Rightarrow> [Stdout (''  access_token  : '' @ text)]) @
     (if hint then [Stdout [], Stdout ''Persist refresh_token to reuse via example 05 (no 2FA next time).''] else [])"

definition fail_with :: "line list \<Rightarrow> nat \<Rightarrow> unit program" where
  "fail_with ls code = bind (print ls) (\<lambda>_. stop (Exited code))"

definition report_04 :: "(bytes \<Rightarrow> string) \<Rightarrow> sign_in_outcome result \<Rightarrow> unit program" where
  "report_04 esc r =
     (case r of
        Inr (Success sid token access_token) \<Rightarrow> print (success_lines True sid token access_token)
      | Inr NeedsMobileGuardCode \<Rightarrow>
          fail_with [Stderr (cross_mark @ '' 2FA required but no SHARED_SECRET provided'')] 2
      | Inr (NeedsEmailGuardCode email_domain) \<Rightarrow>
          fail_with [Stderr (cross_mark @ '' email Steam Guard required (sent to '' @ ellipsis @ ''@'' @ email_domain @ '')''),
                     Stderr ''  email-Guard handling is not in scope for this example''] 2
      | Inr InvalidCredentials \<Rightarrow> fail_with [Stderr (cross_mark @ '' bad username or password'')] 1
      | Inr TokenRejected \<Rightarrow>
          fail_with [Stderr (cross_mark @ '' token rejected (unexpected for password flow)'')] 1
      | Inr (RateLimited retry_hint) \<Rightarrow>
          fail_with [Stderr (cross_mark @ '' rate-limited by Steam (retry after '' @
                             debug_option debug_duration retry_hint @ '')'')] 3
      | Inr other \<Rightarrow> fail_with [Stderr (cross_mark @ '' unhandled sign-in outcome: '' @ debug_outcome esc other)] 1
      | Inl (NotImplemented stage) \<Rightarrow>
          fail_with [Stderr (warning_sign @ '' wired but not yet implemented: '' @ stage),
                     Stderr ''  (proxy validation + TOTP derivation already ran successfully)''] 75
      | Inl e \<Rightarrow> fail_with [Stderr (cross_mark @ '' transport / protocol error: '' @ display_error e)] 1)"

text \<open>The optional proxy of a sign-in, announced before it is used.\<close>

definition route_through :: "('p, 'c, 'j, 'k, 'f) library \<Rightarrow> string option \<Rightarrow> sign_in \<Rightarrow> sign_in program" where
  "route_through L proxy_url signin =
     (case proxy_url of
        None \<Rightarrow> ret signin
      | Some url \<Rightarrow>
          bind (propagate Library (parse (lb_url_parse L) url)) (\<lambda>proxy.
          bind (print [Stderr (right_arrow @ '' routing through proxy: '' @ px_host proxy)]) (\<lambda>_.
          ret (through_proxy proxy signin))))"

definition main_04 :: "('p, 'c, 'j, 'k, 'f) library \<Rightarrow> unit program" where
  "main_04 L =
     bind (require_var ''STEAM_ACCOUNT'' ''STEAM_ACCOUNT env var not set'') (\<lambda>account.
     bind (require_var ''STEAM_PASSWORD'' ''STEAM_PASSWORD env var not set'') (\<lambda>password.
     bind (env_var ''SHARED_SECRET'') (\<lambda>shared_secret.
     bind (env_var ''PROXY_URL'') (\<lambda>proxy_url.
     let shared_secret = opt_filter (\<lambda>s. s \<noteq> []) shared_secret;
         proxy_url = opt_filter (\<lambda>s. s \<noteq> []) proxy_url;
         signin = with_password account password;
         signin = (case shared_secret of None \<Rightarrow> signin | Some secret \<Rightarrow> with_shared_secret secret signin)
     in bind (route_through L proxy_url signin) (\<lambda>signin.
        bind (execute_sign_in L signin) (report_04 (lb_esc L)))))))"

definition report_05 :: "(bytes \<Rightarrow> string) \<Rightarrow> sign_in_outcome result \<Rightarrow> unit program" where
  "report_05 esc r =
     (case r of
        Inr (Success sid token access_token) \<Rightarrow> print (success_lines False sid token access_token)
      | Inr TokenRejected \<Rightarrow>
          fail_with [Stderr (cross_mark @ '' refresh token rejected '' @ em_dash @
                             '' fall back to password flow (example 04)'')] 1
      | Inr (RateLimited retry_hint) \<Rightarrow>
          fail_with [Stderr (cross_mark @ '' rate-limited by Steam (retry after '' @
                             debug_option debug_duration retry_hint @ '')'')] 3
      | Inr other \<Rightarrow>
          fail_with [Stderr (cross_mark @ '' unexpected outcome for refresh-token flow: '' @ debug_outcome esc other)] 1
      | Inl (NotImplemented stage) \<Rightarrow>
          fail_with [Stderr (warning_sign @ '' wired but not yet implemented: '' @ stage)] 75
      | Inl e \<Rightarrow> fail_with [Stderr (cross_mark @ '' transport / protocol error: '' @ display_error e)] 1)"

definition main_05 :: "('p, 'c, 'j, 'k, 'f) library \<Rightarrow> unit program" where
  "main_05 L =
     bind (require_var ''REFRESH_TOKEN'' ''REFRESH_TOKEN env var not set'') (\<lambda>token.
     bind (env_var ''PROXY_URL'') (\<lambda>proxy_url.
     bind (route_through L proxy_url (with_refresh_token token)) (\<lambda>signin.
     bind (execute_sign_in L signin) (report_05 (lb_esc L)))))"

section \<open>What the programs do\<close>

lemma success_on_stdout: "filter on_stdout (success_lines hint sid t a) = success_lines hint sid t a"
  by (cases a) (simp_all add: success_lines_def)

lemma fail_with_run: "fail_with ls code w = (Stop (Exited code), w\<lparr>wo_lines := wo_lines w @ ls\<rparr>)"
  by (simp add: fail_with_def stop_def)

lemma route_through_cases:
  obtains (routed) s' ls where "route_through L url s w = (Go s', w\<lparr>wo_lines := wo_lines w @ ls\<rparr>)"
      "si_credentials s' = si_credentials s" "\<forall>l \<in> set ls. \<exists>host. l = Stderr (right_arrow @ '' routing through proxy: '' @ host)"
  | (unusable) e where "route_through L url s w = (Stop (Erred (Library e)), w)"
proof (cases url)
  case None
  then show ?thesis by (intro routed [of s "[]"]) (simp_all add: route_through_def ret_def)
next
  case (Some u)
  show ?thesis
  proof (cases "parse (lb_url_parse L) u")
    case (Inl e)
    then show ?thesis using Some by (intro unusable [of e]) (simp add: route_through_def stop_def)
  next
    case (Inr p)
    then show ?thesis using Some
      by (intro routed [of "through_proxy p s" "[Stderr (right_arrow @ '' routing through proxy: '' @ px_host p)]"])
        (simp_all add: route_through_def through_proxy_def ret_def)
  qed
qed

definition rejected_line :: line where
  "rejected_line = Stderr (cross_mark @ '' token rejected (unexpected for password flow)'')"

text \<open>What a password sign-in may end with, and how it is reported.\<close>

lemma password_outcome:
  assumes "si_credentials s = Password creds"
  obtains r web where "execute A s web0 = Some (r, web)"
    "\<And>sid t a. r = Inr (Success sid t a) \<Longrightarrow> expose t \<noteq> []" "r \<noteq> Inr TokenRejected"
proof -
  obtain r web ms where "execute_password_flow A creds (si_proxy s) web0 = Some (r, web)" "follows_flow r ms"
    using password_flow_ends_well [of web0 A creds "si_proxy s"] unfolding flow_ends_def by auto
  then have "execute A s web0 = Some (r, web)" "\<And>sid t a. r = Inr (Success sid t a) \<Longrightarrow> expose t \<noteq> []" "r \<noteq> Inr TokenRejected"
    using assms by (auto simp: execute_def follows_flow_def refusal_def)
  then show ?thesis by (rule that)
qed

definition reported :: "unit outcome \<Rightarrow> line list \<Rightarrow> bool" where
  "reported x ls \<longleftrightarrow>
     (\<exists>sid t a. x = Go () \<and> expose t \<noteq> [] \<and> filter on_stdout ls = success_lines True sid t a) \<or>
     exit_code x \<in> {Some 1, Some 2, Some 3, Some 75} \<and> filter on_stdout ls = [] \<and> rejected_line \<notin> set ls"

lemma reported_failure:
  assumes "Some code \<in> {Some 1, Some 2, Some 3, Some 75}" "filter on_stdout ls = []" "rejected_line \<notin> set ls"
  shows "\<exists>x ls'. fail_with ls code w = (x, w\<lparr>wo_lines := wo_lines w @ ls'\<rparr>) \<and> reported x ls'"
  using assms by (intro exI [of _ "Stop (Exited code)"] exI [of _ ls]) (simp add: fail_with_run reported_def)

lemma report_04_run:
  assumes "\<And>sid t a. r = Inr (Success sid t a) \<Longrightarrow> expose t \<noteq> []" "r \<noteq> Inr TokenRejected"
  shows "\<exists>x ls. report_04 esc r w = (x, w\<lparr>wo_lines := wo_lines w @ ls\<rparr>) \<and> reported x ls"
proof (cases "\<exists>sid t a. r = Inr (Success sid t a)")
  case True
  then obtain sid t a where "r = Inr (Success sid t a)" by blast
  then show ?thesis using assms(1)
    by (intro exI [of _ "Go ()"] exI [of _ "success_lines True sid t a"])
      (auto simp: report_04_def print_def success_on_stdout reported_def)
next
  case False
  then show ?thesis using assms(2) unfolding report_04_def
    by (auto simp: rejected_line_def cross_mark_def warning_sign_def bytes_str_def
        split: sum.split sign_in_outcome.split error.split intro!: reported_failure)
qed

text \<open>C38: The password program always ends.  It exits with 0 exactly when it has printed a refresh token, which is
  not empty; otherwise standard output stays empty, the status is one of those the code names, and
  the arm for a rejected token is never taken.\<close>

theorem password_program:
  "\<exists>x w' ls. main_04 L w = (x, w') \<and> wo_lines w' = wo_lines w @ ls \<and>
     reported x ls"
proof (cases "wo_vars w ''STEAM_ACCOUNT''")
  case None
  then show ?thesis by (simp add: main_04_def reported_def)
next
  case account: (Some account)
  show ?thesis
  proof (cases "wo_vars w ''STEAM_PASSWORD''")
    case None
    then show ?thesis using account by (simp add: main_04_def reported_def)
  next
    case password: (Some password)
    define url where "url = opt_filter (\<lambda>s. s \<noteq> []) (wo_vars w ''PROXY_URL'')"
    define s where "s = (case opt_filter (\<lambda>s. s \<noteq> []) (wo_vars w ''SHARED_SECRET'') of
      None \<Rightarrow> with_password account password | Some secret \<Rightarrow> with_shared_secret secret (with_password account password))"
    have main: "main_04 L w = bind (route_through L url s) (\<lambda>s. bind (execute_sign_in L s) (report_04 (lb_esc L))) w"
      using account password by (simp add: main_04_def url_def s_def Let_def)
    obtain creds where s: "si_credentials s = Password creds"
      by (cases "opt_filter (\<lambda>s. s \<noteq> []) (wo_vars w ''SHARED_SECRET'')")
        (auto simp: s_def with_password_def credentials_password_def with_shared_secret_def)
    show ?thesis
    proof (cases rule: route_through_cases [of L url s w])
      case (routed s' ls)
      obtain r web where r: "execute (lb_auth L) s' (wo_web w) = Some (r, web)"
        "\<And>sid t a. r = Inr (Success sid t a) \<Longrightarrow> expose t \<noteq> []" "r \<noteq> Inr TokenRejected"
        using password_outcome [of s' creds "lb_auth L" "wo_web w"] routed(2) s by metis
      have quiet: "filter on_stdout ls = []" "rejected_line \<notin> set ls"
        using routed(3) by (auto simp: filter_empty_conv rejected_line_def cross_mark_def right_arrow_def bytes_str_def)
      obtain x ls' where "report_04 (lb_esc L) r (w\<lparr>wo_lines := wo_lines w @ ls, wo_web := web\<rparr>) =
          (x, w\<lparr>wo_web := web, wo_lines := wo_lines w @ ls @ ls'\<rparr>)" "reported x ls'"
        using report_04_run [of r "lb_esc L" "w\<lparr>wo_lines := wo_lines w @ ls, wo_web := web\<rparr>"] r(2, 3) by auto
      then show ?thesis using quiet
        by (auto simp: main bind_def [of "route_through L url s"] routed(1) r(1) reported_def)
    next
      case (unusable e)
      then show ?thesis by (simp add: main bind_def [of "route_through L url s"] reported_def)
    qed
  qed
qed

text \<open>The token program validates locally, as its documentation says: it makes no web request, prints the
  token it was given when the token decodes and has not expired, and exits with 1 otherwise.\<close>

theorem token_program:
  "\<exists>x w' ls. main_05 L w = (x, w') \<and> wo_web w' = wo_web w \<and> wo_lines w' = wo_lines w @ ls \<and>
     ((\<exists>sid t. x = Go () \<and> wo_vars w ''REFRESH_TOKEN'' = Some t \<and>
         filter on_stdout ls = success_lines False sid (RefreshToken t) None) \<or>
      exit_code x = Some 1 \<and> filter on_stdout ls = [])"
proof (cases "wo_vars w ''REFRESH_TOKEN''")
  case None
  then show ?thesis by (simp add: main_05_def)
next
  case (Some t)
  let ?s = "with_refresh_token t"
  have main: "main_05 L w = bind (route_through L (wo_vars w ''PROXY_URL'') ?s)
      (\<lambda>s. bind (execute_sign_in L s) (report_05 (lb_esc L))) w"
    using Some by (simp add: main_05_def)
  show ?thesis
  proof (cases rule: route_through_cases [of L "wo_vars w ''PROXY_URL''" ?s w])
    case (routed s' ls)
    have ex: "execute (lb_auth L) s' web = Some (execute_refresh_token_flow (lb_auth L) (RefreshToken t) web, web)" for web
      using routed(2) by (simp add: execute_def with_refresh_token_def credentials_refresh_token_def)
    have quiet: "filter on_stdout ls = []" using routed(3) by (auto simp: filter_empty_conv)
    show ?thesis
      by (cases rule: refresh_flow_cases [of "lb_auth L" "RefreshToken t" "wo_web w"])
        (auto simp: main bind_def [of "route_through _ _ _"] routed(1) ex report_05_def print_def fail_with_run success_on_stdout quiet Some)
  next
    case (unusable e)
    then show ?thesis by (simp add: main bind_def [of "route_through _ _ _"])
  qed
qed

end
