(* ===== verification/Example_Session.thy ===== *)
theory Example_Session
  imports Program
begin

text \<open>
  The programs that sign in, open a session and use one service: \<^verbatim>\<open>examples/07_scan_one_profile.rs\<close> (the
  Game Coordinator), \<^verbatim>\<open>08_profile_details.rs\<close> (persona and profile) and \<^verbatim>\<open>09_friends.rs\<close> (friends).
\<close>

section \<open>Signing in and opening a session\<close>

text \<open>\<^verbatim>\<open>env::var("PROXY_URL").ok().map(|u| ProxyConfig::parse(&u)).transpose()?\<close>\<close>

definition parse_proxy :: "('p, 'c, 'j, 'k, 'f) library \<Rightarrow> string option \<Rightarrow> proxy_config option program" where
  "parse_proxy L url =
     (case url of
        None \<Rightarrow> ret None
      | Some u \<Rightarrow> bind (propagate Library (parse (lb_url_parse L) u)) (\<lambda>p. ret (Some p)))"

definition build_sign_in :: "string \<Rightarrow> string \<Rightarrow> string option \<Rightarrow> proxy_config option \<Rightarrow> sign_in" where
  "build_sign_in account password shared_secret proxy =
     (let signin = with_password account password;
          signin = (case shared_secret of None \<Rightarrow> signin | Some secret \<Rightarrow> with_shared_secret secret signin)
      in case proxy of None \<Rightarrow> signin | Some p \<Rightarrow> through_proxy p signin)"

definition announce_proxy :: "proxy_config option \<Rightarrow> unit program" where
  "announce_proxy proxy =
     (case proxy of
        None \<Rightarrow> ret ()
      | Some p \<Rightarrow> print [Stderr (right_arrow @ '' routing through proxy: '' @ display p)])"

text \<open>\<^verbatim>\<open>match signin.execute().await? { Success .. => .., other => exit(1) }\<close>\<close>

definition token_or_exit :: "('p, 'c, 'j, 'k, 'f) library \<Rightarrow> sign_in \<Rightarrow> (u64 \<times> refresh_token) program" where
  "token_or_exit L signin =
     bind (execute_sign_in L signin) (\<lambda>r.
     bind (propagate Library r) (\<lambda>out.
     case out of
       Success sid token _ \<Rightarrow> ret (sid, token)
     | other \<Rightarrow>
         bind (print [Stderr (cross_mark @ '' sign-in did not succeed: '' @ debug_outcome (lb_esc L) other)])
           (\<lambda>_. stop (Exited 1))))"

definition session_config_for :: "string \<Rightarrow> refresh_token \<Rightarrow> proxy_config option \<Rightarrow> session_config" where
  "session_config_for account token proxy =
     \<lparr>sc_account_name = account, sc_refresh_token = expose token, sc_proxy = proxy\<rparr>"

text \<open>An explicit \<^verbatim>\<open>TARGET_STEAMID\<close>, or the account's own.\<close>

definition target_id :: "u64 \<Rightarrow> u64 program" where
  "target_id own =
     bind (env_var ''TARGET_STEAMID'') (\<lambda>v.
     case v of None \<Rightarrow> ret own | Some s \<Rightarrow> propagate ParseInt (parse_u64 s))"

section \<open>Example 07: one profile through the Game Coordinator\<close>

definition profile_lines :: "player_profile \<Rightarrow> line list" where
  "profile_lines p =
     [Stdout [], Stdout (''CS2 profile for account '' @ show_word (pp_account_id p) @ '':''),
      Stdout (''  level       : '' @ show_int (pp_level p)),
      Stdout (''  current XP  : '' @ show_int (pp_current_xp p)),
      Stdout (case pp_competitive_rank p of
                Some rank \<Rightarrow> ''  competitive : rank '' @ show_word rank @ '' ('' @
                  show_word (unwrap_or 0 (pp_competitive_wins p)) @ '' wins)''
              | None \<Rightarrow> ''  competitive : unranked / not played'')]"

definition main_07 :: "('p, 'c, 'j, 'k, 'f) library \<Rightarrow> unit program" where
  "main_07 L =
     bind (require_var ''STEAM_ACCOUNT'' ''STEAM_ACCOUNT env var not set'') (\<lambda>account.
     bind (require_var ''STEAM_PASSWORD'' ''STEAM_PASSWORD env var not set'') (\<lambda>password.
     bind (env_var ''SHARED_SECRET'') (\<lambda>shared_secret.
     bind (env_var ''PROXY_URL'') (\<lambda>url.
     bind (parse_proxy L url) (\<lambda>proxy.
     bind (announce_proxy proxy) (\<lambda>_.
     bind (token_or_exit L (build_sign_in account password shared_secret proxy)) (\<lambda>(sid, token).
     bind (print [Stdout (check_mark @ '' signed in as '' @ show_word sid)]) (\<lambda>_.
     bind (target_id sid) (\<lambda>target.
     bind (open_session L (session_config_for account token proxy)) (\<lambda>_.
     bind (on_handle (\<lambda>h. (steam_id h, h))) (\<lambda>up.
     bind (print [Stdout (check_mark @ '' CM session up (steam_id '' @ show_word up @ '')'')]) (\<lambda>_.
     bind (await_handle (cs2_attach (lb_gc L) (lb_env L))) (\<lambda>r.
     bind (propagate Library r) (\<lambda>(gc, _).
     bind (on_coordinator gc (\<lambda>c. wait_ready (lb_gc_env L) c (secs 20))) (\<lambda>r.
     bind (propagate Library r) (\<lambda>_.
     bind (print [Stdout (check_mark @ '' CS2 Game Coordinator ready'')]) (\<lambda>_.
     bind (await_coordinator gc (\<lambda>c. request_player_profile (lb_gc L) (lb_env L) (lb_gc_env L) (lb_enc_profile L)
            (lb_dec_profile L) c (account_id_from_steam_id target))) (\<lambda>r.
     bind (propagate Library r) (\<lambda>profile.
     bind (print (profile_lines profile)) (\<lambda>_.
     close_session L))))))))))))))))))))"

section \<open>Example 08: persona and profile\<close>

definition summary_lines :: "player_summary \<Rightarrow> line list" where
  "summary_lines s =
     [Stdout [],
      Stdout (''SteamID     : '' @ show_word (ps_steam_id s)),
      Stdout (''Name        : '' @ ps_persona_name s),
      Stdout (''Profile URL : '' @ ps_profile_url s),
      Stdout (''Avatar      : '' @ ps_avatar_url s),
      Stdout (''Status      : '' @ debug_state (ps_state s))] @
     (case ps_current_game s of
        None \<Rightarrow> []
      | Some g \<Rightarrow> [Stdout (''In game     : '' @ ga_name g @ '' (app '' @ show_word (ga_app_id g) @ '')'')])"

definition location :: "profile_info \<Rightarrow> string list" where
  "location i = List.map_filter id [pi_city i, pi_state i, pi_country i]"

definition info_lines :: "profile_info \<Rightarrow> line list" where
  "info_lines i =
     (case pi_real_name i of None \<Rightarrow> [] | Some name \<Rightarrow> [Stdout (''Real name   : '' @ name)]) @
     (if location i = [] then [] else [Stdout (''Location    : '' @ comma_separated (location i))]) @
     (case pi_summary i of None \<Rightarrow> [] | Some s \<Rightarrow> [Stdout (''Summary     : '' @ s)])"

definition main_08 :: "('p, 'c, 'j, 'k, 'f) library \<Rightarrow> unit program" where
  "main_08 L =
     bind (require_var ''STEAM_ACCOUNT'' ''STEAM_ACCOUNT env var not set'') (\<lambda>account.
     bind (require_var ''STEAM_PASSWORD'' ''STEAM_PASSWORD env var not set'') (\<lambda>password.
     bind (env_var ''SHARED_SECRET'') (\<lambda>shared_secret.
     bind (env_var ''PROXY_URL'') (\<lambda>url.
     bind (parse_proxy L url) (\<lambda>proxy.
     bind (announce_proxy proxy) (\<lambda>_.
     bind (token_or_exit L (build_sign_in account password shared_secret proxy)) (\<lambda>(sid, token).
     bind (open_session L (session_config_for account token proxy)) (\<lambda>_.
     bind (target_id sid) (\<lambda>target.
     bind (await_handle (\<lambda>h. request_player_summary (lb_persona L) (lb_env L) h target)) (\<lambda>r.
     bind (propagate Library r) (\<lambda>summary.
     bind (print (summary_lines summary)) (\<lambda>_.
     bind (on_handle (\<lambda>h. request_profile_info (lb_persona L) (lb_env L) h target)) (\<lambda>r.
     bind (print (case r of
                    Inr info \<Rightarrow> info_lines info
                  | Inl e \<Rightarrow> [Stderr (''(profile info unavailable: '' @ display_error e @ '')'')])) (\<lambda>_.
     close_session L))))))))))))))"

section \<open>Example 09: friends\<close>

definition resolve_vanity :: "('p, 'c, 'j, 'k, 'f) library \<Rightarrow> proxy_config option \<Rightarrow> string option \<Rightarrow> unit program" where
  "resolve_vanity L proxy v =
     (case v of
        None \<Rightarrow> ret ()
      | Some vanity \<Rightarrow>
          bind (propagate Library (resolve_vanity_url (lb_reqwest L) vanity proxy)) (\<lambda>r.
          print [Stdout (''vanity '' @ [CHR 0x27] @ vanity @ [CHR 0x27] @ '' '' @ right_arrow @
            (case r of
               Some sid \<Rightarrow> '' SteamID '' @ show_word sid @ '' ('' @ profile_url sid @ '')''
             | None \<Rightarrow> '' no such custom URL''))]))"

text \<open>One line per friend, with the name the persona service gives or a placeholder.\<close>

definition print_friend :: "('p, 'c, 'j, 'k, 'f) library \<Rightarrow> friend \<Rightarrow> unit program" where
  "print_friend L f =
     bind (await_handle (\<lambda>h. request_player_summary (lb_persona L) (lb_env L) h (fr_steam_id f))) (\<lambda>r.
     let name = (case r of Inr s \<Rightarrow> ps_persona_name s | Inl _ \<Rightarrow> ''<name unavailable>'')
     in print [Stdout (''  '' @ show_word (fr_steam_id f) @ '' '' @ debug_relationship (fr_relationship f) @ '' '' @
                       em_dash @ '' '' @ name)])"

definition print_friends :: "('p, 'c, 'j, 'k, 'f) library \<Rightarrow> nat \<Rightarrow> friend list \<Rightarrow> unit program" where
  "print_friends L limit friends =
     bind (for_each_item (print_friend L) (take limit friends)) (\<lambda>_.
     if length friends > limit
     then print [Stdout (''  '' @ ellipsis @ '' and '' @ show_nat (length friends - limit) @ '' more'')]
     else ret ())"

definition add_one :: "('p, 'c, 'j, 'k, 'f) library \<Rightarrow> string option \<Rightarrow> unit program" where
  "add_one L v =
     (case v of
        None \<Rightarrow> ret ()
      | Some text \<Rightarrow>
          bind (propagate ParseInt (parse_u64 text)) (\<lambda>sid.
          bind (on_handle (\<lambda>h. add_friend (lb_friends L) (lb_env L) h sid)) (\<lambda>r.
          bind (propagate Library r) (\<lambda>added.
          print [Stdout (newline @ ''+ friend request sent to '' @ show_word (ad_steam_id added) @ '' ('' @
                         ad_persona_name added @ '')'')]))))"

definition remove_one :: "('p, 'c, 'j, 'k, 'f) library \<Rightarrow> string option \<Rightarrow> unit program" where
  "remove_one L v =
     (case v of
        None \<Rightarrow> ret ()
      | Some text \<Rightarrow>
          bind (propagate ParseInt (parse_u64 text)) (\<lambda>sid.
          bind (await_handle (\<lambda>h. remove_friend (lb_friends L) (lb_env L) h sid)) (\<lambda>r.
          bind (propagate Library r) (\<lambda>_.
          print [Stdout (''- removed friend '' @ text)]))))"

definition main_09 :: "('p, 'c, 'j, 'k, 'f) library \<Rightarrow> unit program" where
  "main_09 L =
     bind (require_var ''STEAM_ACCOUNT'' ''STEAM_ACCOUNT env var not set'') (\<lambda>account.
     bind (require_var ''STEAM_PASSWORD'' ''STEAM_PASSWORD env var not set'') (\<lambda>password.
     bind (env_var ''SHARED_SECRET'') (\<lambda>shared_secret.
     bind (env_var ''PROXY_URL'') (\<lambda>url.
     bind (parse_proxy L url) (\<lambda>proxy.
     bind (env_var ''RESOLVE_VANITY'') (\<lambda>vanity.
     bind (resolve_vanity L proxy vanity) (\<lambda>_.
     bind (token_or_exit L (build_sign_in account password shared_secret proxy)) (\<lambda>(_, token).
     bind (open_session L (session_config_for account token proxy)) (\<lambda>_.
     bind (on_handle (request_friends_list (lb_friends L) (lb_env L))) (\<lambda>r.
     bind (propagate Library r) (\<lambda>friends.
     bind (print [Stdout (newline @ show_nat (length friends) @ '' friends:'')]) (\<lambda>_.
     bind (print_friends L 25 friends) (\<lambda>_.
     bind (env_var ''ADD_FRIEND'') (\<lambda>adding.
     bind (add_one L adding) (\<lambda>_.
     bind (env_var ''REMOVE_FRIEND'') (\<lambda>removing.
     bind (remove_one L removing) (\<lambda>_.
     close_session L)))))))))))))))))"

section \<open>Running the parts\<close>

definition announced :: "proxy_config option \<Rightarrow> line list" where
  "announced proxy =
     (case proxy of None \<Rightarrow> [] | Some p \<Rightarrow> [Stderr (right_arrow @ '' routing through proxy: '' @ display p)])"

lemma bind_announce [simp]:
  "bind (announce_proxy proxy) f w = f () (w\<lparr>wo_lines := wo_lines w @ announced proxy\<rparr>)"
  by (simp add: announce_proxy_def announced_def split: option.split)

lemma bind_token:
  assumes "execute (lb_auth L) s (wo_web w) = Some (Inr (Success sid token access), web)"
  shows "bind (token_or_exit L s) f w = f (sid, token) (w\<lparr>wo_web := web\<rparr>)"
  using assms by (simp add: token_or_exit_def)

lemma bind_target:
  assumes "wo_vars w ''TARGET_STEAMID'' = None \<and> target = sid \<or>
      (\<exists>s. wo_vars w ''TARGET_STEAMID'' = Some s \<and> parse_u64 s = Inr target)"
  shows "bind (target_id sid) f w = f target w"
  using assms by (auto simp: target_id_def)

end
