(* ===== verification/Example_Dump.thy ===== *)
theory Example_Dump
  imports Example_Session
begin

text \<open>
  \<^verbatim>\<open>examples/10_account_dump.rs\<close>: everything the crate can fetch about one account, section by section.  It is
  the longest composition of the crate's parts; each section is meant to be best effort.
\<close>

section \<open>Sections\<close>

definition rule :: string where
  "rule = ''============================================================''"

text \<open>\<^verbatim>\<open>{label:<13}\<close> pads on the right; the labels are ASCII.\<close>

definition print_opt :: "string \<Rightarrow> string option \<Rightarrow> line list" where
  "print_opt lbl value =
     [Stdout (lbl @ replicate (13 - length lbl) CHR '' '' @ '' : '' @ unwrap_or em_dash value)]"

text \<open>\<^verbatim>\<open>str::replace\<close>, left to right without overlap.\<close>

fun replace_from :: "nat \<Rightarrow> string \<Rightarrow> string \<Rightarrow> string \<Rightarrow> string" where
  "replace_from 0 pat new s = s"
| "replace_from (Suc n) pat new s =
     (case find_str pat s of
        None \<Rightarrow> s
      | Some i \<Rightarrow> take i s @ new @ replace_from n pat new (drop (i + length pat) s))"

definition replace :: "string \<Rightarrow> string \<Rightarrow> string \<Rightarrow> string" where
  "replace pat new s = replace_from (length s) pat new s"

definition save_avatar ::
    "('p, 'c, 'j, 'k, 'f) library \<Rightarrow> proxy_config option \<Rightarrow> u32 \<Rightarrow> string \<Rightarrow> unit program" where
  "save_avatar L proxy account_id url =
     (case fetch_avatar (lb_reqwest L) url proxy of
        Inl e \<Rightarrow> print [Stdout (''avatar image  : (download failed: '' @ display_error e @ '')'')]
      | Inr img \<Rightarrow>
          let path = ''avatar_'' @ show_word account_id @ ''.jpg''; count = show_nat (length img) in
          bind (write_file L path img) (\<lambda>r.
          print [Stdout (case r of
                           Inl e \<Rightarrow> ''avatar image  : ('' @ count @ '' bytes, but save failed: '' @ e @ '')''
                         | Inr _ \<Rightarrow> ''avatar image  : saved '' @ count @ '' bytes -> '' @ path)]))"

definition dump_persona ::
    "('p, 'c, 'j, 'k, 'f) library \<Rightarrow> proxy_config option \<Rightarrow> u64 \<Rightarrow> u32 \<Rightarrow> unit program" where
  "dump_persona L proxy target account_id =
     bind (await_handle (\<lambda>h. request_player_summary (lb_persona L) (lb_env L) h target)) (\<lambda>r.
     case r of
       Inl e \<Rightarrow> print [Stdout (''(unavailable: '' @ display_error e @ '')'')]
     | Inr s \<Rightarrow>
         bind (print
           [Stdout (''name          : '' @ ps_persona_name s),
            Stdout (''status        : '' @ debug_state (ps_state s)),
            Stdout (''avatar (full) : '' @ ps_avatar_url s),
            Stdout (''avatar (med.) : '' @ replace ''_full.jpg'' ''_medium.jpg'' (ps_avatar_url s)),
            Stdout (''avatar hash   : '' @ ps_avatar_hash s),
            Stdout (case ps_current_game s of
                      Some g \<Rightarrow> ''in game       : '' @ ga_name g @ '' (app '' @ show_word (ga_app_id g) @ '')''
                    | None \<Rightarrow> ''in game       : '' @ em_dash)]) (\<lambda>_.
         save_avatar L proxy account_id (ps_avatar_url s)))"

definition dump_profile :: "('p, 'c, 'j, 'k, 'f) library \<Rightarrow> u64 \<Rightarrow> unit program" where
  "dump_profile L target =
     bind (on_handle (\<lambda>h. request_profile_info (lb_persona L) (lb_env L) h target)) (\<lambda>r.
     print (case r of
       Inl e \<Rightarrow> [Stdout (''(unavailable: '' @ display_error e @ '')'')]
     | Inr p \<Rightarrow>
         print_opt ''real name'' (pi_real_name p) @
         [Stdout (''location      : '' @ (if location p = [] then em_dash else comma_separated (location p)))] @
         print_opt ''summary'' (pi_summary p) @
         [Stdout (''created (unix) : '' @ (case pi_created_at p of Some t \<Rightarrow> show_word t | None \<Rightarrow> em_dash))]))"

definition dump_friends :: "('p, 'c, 'j, 'k, 'f) library \<Rightarrow> friend list result \<Rightarrow> unit program" where
  "dump_friends L friends_list =
     (case friends_list of
        Inl e \<Rightarrow> print [Stdout (''(unavailable: '' @ display_error e @ '' '' @ em_dash @
                                '' call right after login to catch the pushed list)'')]
      | Inr fs \<Rightarrow>
          bind (print [Stdout (''count         : '' @ show_nat (length fs))]) (\<lambda>_. print_friends L 15 fs))"

definition dump_cs2 :: "('p, 'c, 'j, 'k, 'f) library \<Rightarrow> u32 \<Rightarrow> unit program" where
  "dump_cs2 L account_id =
     bind (await_handle (cs2_attach (lb_gc L) (lb_env L))) (\<lambda>r.
     case r of
       Inl e \<Rightarrow> print [Stdout (''(GC attach failed: '' @ display_error e @ '')'')]
     | Inr (gc, _) \<Rightarrow>
         bind (on_coordinator gc (\<lambda>c. wait_ready (lb_gc_env L) c (secs 20))) (\<lambda>r.
         case r of
           Inl e \<Rightarrow> print [Stdout (''(GC not ready: '' @ display_error e @ '' '' @ em_dash @
                                   '' account may lack a CS2 license)'')]
         | Inr _ \<Rightarrow>
             bind (await_coordinator gc (\<lambda>c. request_player_profile (lb_gc L) (lb_env L) (lb_gc_env L)
                    (lb_enc_profile L) (lb_dec_profile L) c account_id)) (\<lambda>r.
             print (case r of
                 Inl e \<Rightarrow> [Stdout (''(no profile data: '' @ display_error e @ '')'')]
               | Inr p \<Rightarrow>
                   [Stdout (''level         : '' @ show_int (pp_level p)),
                    Stdout (''current XP    : '' @ show_int (pp_current_xp p)),
                    Stdout (case pp_competitive_rank p of
                              Some rank \<Rightarrow> ''competitive   : rank '' @ show_word rank @ '' ('' @
                                show_word (unwrap_or 0 (pp_competitive_wins p)) @ '' wins)''
                            | None \<Rightarrow> ''competitive   : unranked / not played'')]))))"

definition titled :: "string \<Rightarrow> unit program \<Rightarrow> unit program" where
  "titled heading p = bind (print [Stdout (newline @ heading)]) (\<lambda>_. p)"

definition dump_sections ::
    "('p, 'c, 'j, 'k, 'f) library \<Rightarrow> proxy_config option \<Rightarrow> friend list result \<Rightarrow> u64 \<Rightarrow> unit program" where
  "dump_sections L proxy friends_list target =
     (let account_id = account_id_from_steam_id target in
      bind (titled ''--- persona summary ---'' (dump_persona L proxy target account_id)) (\<lambda>_.
      bind (titled ''--- profile info ---'' (dump_profile L target)) (\<lambda>_.
      bind (titled ''--- friends ---'' (dump_friends L friends_list)) (\<lambda>_.
      bind (titled ''--- CS2 profile ---'' (dump_cs2 L account_id)) (\<lambda>_.
      print [Stdout (newline @ rule)])))))"

section \<open>The program\<close>

definition main_10 :: "('p, 'c, 'j, 'k, 'f) library \<Rightarrow> unit program" where
  "main_10 L =
     bind (require_var ''STEAM_ACCOUNT'' ''STEAM_ACCOUNT env var not set'') (\<lambda>account.
     bind (require_var ''STEAM_PASSWORD'' ''STEAM_PASSWORD env var not set'') (\<lambda>password.
     bind (env_var ''SHARED_SECRET'') (\<lambda>shared_secret.
     bind (env_var ''PROXY_URL'') (\<lambda>url.
     bind (parse_proxy L (opt_filter (\<lambda>s. s \<noteq> []) url)) (\<lambda>proxy.
     bind (announce_proxy proxy) (\<lambda>_.
     bind (token_or_exit L (build_sign_in account password shared_secret proxy)) (\<lambda>(sid, token).
     bind (open_session L (session_config_for account token proxy)) (\<lambda>_.
     bind (on_handle (request_friends_list (lb_friends L) (lb_env L))) (\<lambda>friends_list.
     bind (target_id sid) (\<lambda>target.
     bind (print
       [Stdout (newline @ rule), Stdout '' ACCOUNT DUMP'', Stdout rule,
        Stdout (''login account : '' @ account),
        Stdout (''SteamID64     : '' @ show_word target),
        Stdout (''account id     : '' @ show_word (account_id_from_steam_id target)),
        Stdout (''profile URL    : '' @ profile_url target)]) (\<lambda>_.
     bind (dump_sections L proxy friends_list target) (\<lambda>_.
     close_session L))))))))))))"

section \<open>Best effort\<close>

lemma best_effort_friend: "writes_finish (lb_env L) \<Longrightarrow> best_effort (print_friend L f)"
  unfolding print_friend_def Let_def by (intro best_effort_intros summary_ready)

lemma best_effort_friends: "writes_finish (lb_env L) \<Longrightarrow> best_effort (print_friends L n fs)"
  unfolding print_friends_def by (intro best_effort_intros best_effort_friend)

lemma best_effort_sections:
  assumes "writes_finish (lb_env L)"
  shows "best_effort (dump_persona L proxy target account_id)" "best_effort (dump_profile L target)"
    "best_effort (dump_friends L fl)" "best_effort (dump_cs2 L account_id)"
proof -
  show "best_effort (dump_persona L proxy target account_id)"
    unfolding dump_persona_def save_avatar_def Let_def
    by (intro best_effort_intros summary_ready assms)
  show "best_effort (dump_profile L target)"
    unfolding dump_profile_def by (intro best_effort_intros)
  show "best_effort (dump_friends L fl)"
    unfolding dump_friends_def by (intro best_effort_intros best_effort_friends assms)
  have "fst (cs2_attach (lb_gc L) (lb_env L) h) \<noteq> Pending" for h
    using attach_ready [OF assms] by (simp add: cs2_attach_def)
  then show "best_effort (dump_cs2 L account_id)"
    unfolding dump_cs2_def case_prod_beta by (intro best_effort_intros profile_ready assms)
qed

lemma titled_run:
  assumes "best_effort p"
  obtains w' ls where "titled heading p w = (Go (), w')" "wo_lines w' = wo_lines w @ Stdout (newline @ heading) # ls"
    "wo_spawned w' = wo_spawned w" "wo_vars w' = wo_vars w"
proof -
  let ?w = "w\<lparr>wo_lines := wo_lines w @ [Stdout (newline @ heading)]\<rparr>"
  obtain x w' ls where "p ?w = (Go x, w')" "wo_lines w' = wo_lines ?w @ ls" "wo_spawned w' = wo_spawned ?w"
    "wo_vars w' = wo_vars ?w" using assms by (rule best_effortE)
  then show ?thesis by (intro that [of w' ls]) (simp_all add: titled_def)
qed

definition dump_output :: "line list \<Rightarrow> line list \<Rightarrow> line list \<Rightarrow> line list \<Rightarrow> line list" where
  "dump_output persona profile friends cs2 =
     Stdout (newline @ ''--- persona summary ---'') # persona @
     Stdout (newline @ ''--- profile info ---'') # profile @
     Stdout (newline @ ''--- friends ---'') # friends @
     Stdout (newline @ ''--- CS2 profile ---'') # cs2 @ [Stdout (newline @ rule)]"

lemma sections_complete:
  assumes "writes_finish (lb_env L)"
  obtains w' l1 l2 l3 l4 where "dump_sections L proxy fl target w = (Go (), w')"
    "wo_lines w' = wo_lines w @ dump_output l1 l2 l3 l4" "wo_spawned w' = wo_spawned w"
    "\<And>fs. fl = Inr fs \<Longrightarrow> \<exists>l. l3 = Stdout (''count         : '' @ show_nat (length fs)) # l"
proof -
  note be = best_effort_sections [OF assms]
  let ?a = "account_id_from_steam_id target"
  obtain w1 l1 where 1: "titled ''--- persona summary ---'' (dump_persona L proxy target ?a) w = (Go (), w1)"
    "wo_lines w1 = wo_lines w @ Stdout (newline @ ''--- persona summary ---'') # l1" "wo_spawned w1 = wo_spawned w"
    using be(1) by (rule titled_run)
  obtain w2 l2 where 2: "titled ''--- profile info ---'' (dump_profile L target) w1 = (Go (), w2)"
    "wo_lines w2 = wo_lines w1 @ Stdout (newline @ ''--- profile info ---'') # l2" "wo_spawned w2 = wo_spawned w1"
    using be(2) by (rule titled_run)
  obtain w3 l3 where 3: "titled ''--- friends ---'' (dump_friends L fl) w2 = (Go (), w3)"
    "wo_lines w3 = wo_lines w2 @ Stdout (newline @ ''--- friends ---'') # l3" "wo_spawned w3 = wo_spawned w2"
    using be(3) by (rule titled_run)
  obtain w4 l4 where 4: "titled ''--- CS2 profile ---'' (dump_cs2 L ?a) w3 = (Go (), w4)"
    "wo_lines w4 = wo_lines w3 @ Stdout (newline @ ''--- CS2 profile ---'') # l4" "wo_spawned w4 = wo_spawned w3"
    using be(4) by (rule titled_run)
  have count: "\<exists>l. l3 = Stdout (''count         : '' @ show_nat (length fs)) # l" if fl: "fl = Inr fs" for fs
  proof -
    let ?v = "w2\<lparr>wo_lines := wo_lines w2 @ [Stdout (newline @ ''--- friends ---''),
      Stdout (''count         : '' @ show_nat (length fs))]\<rparr>"
    obtain x w' l where "print_friends L 15 fs ?v = (Go x, w')" "wo_lines w' = wo_lines ?v @ l"
      using best_effort_friends [OF assms] by (rule best_effortE)
    then show ?thesis using 3(1, 2) by (simp add: titled_def dump_friends_def fl)
  qed
  let ?w = "w4\<lparr>wo_lines := wo_lines w4 @ [Stdout (newline @ rule)]\<rparr>"
  have "dump_sections L proxy fl target w = (Go (), ?w)"
    by (simp add: dump_sections_def Let_def bind_def 1 2 3 4 print_def)
  then show ?thesis
    by (rule that [OF _ _ _ count]) (simp_all add: 1 2 3 4 dump_output_def)
qed

lemma close_session_run:
  assumes "writes_finish (lb_env L)" "lb_joined L = Ready ()"
  obtains x h where "close_session L w = (x, w\<lparr>wo_handle := h\<rparr>)"
    "x = Go () \<or> x = Stop (Erred (Library (WebSocket ''session driver stopped'')))"
proof -
  obtain r h where r: "logoff (lb_env L) (wo_handle w) = (r, h)" by fastforce
  then have "r = Ready (Inr ()) \<or> r = Ready (Inl (WebSocket ''session driver stopped''))"
    using logoff_ready [OF assms(1), of "wo_handle w"] by simp
  then show ?thesis
    using that [of _ h] r assms(2) by (auto simp: close_session_def ret_def stop_def)
qed

text \<open>C15: One part that is missing never takes the rest of the dump with it.  Once the account is signed in and
  the session is up, every section is printed in its place and the frame is closed, whatever the
  services answer or fail to answer, as long as the session drops no command it has accepted.  The
  friends section reports the list asked for with the first call on the new session.  The program
  then succeeds unless the session has stopped meanwhile.\<close>

theorem dump_completes:
  assumes "wo_vars w ''STEAM_ACCOUNT'' = Some account" "wo_vars w ''STEAM_PASSWORD'' = Some password"
    and "parse_proxy L (opt_filter (\<lambda>s. s \<noteq> []) (wo_vars w ''PROXY_URL'')) w = (Go proxy, w)"
    and "execute (lb_auth L) (build_sign_in account password (wo_vars w ''SHARED_SECRET'') proxy) (wo_web w) =
           Some (Inr (Success sid token access), web)"
    and "spawn_session (lb_wire L) (lb_connector L) (lb_up_at L) (session_config_for account token proxy) = Inr d"
    and "wo_vars w ''TARGET_STEAMID'' = None \<and> target = sid \<or>
         (\<exists>s. wo_vars w ''TARGET_STEAMID'' = Some s \<and> parse_u64 s = Inr target)"
    and "writes_finish (lb_env L)" "lb_joined L = Ready ()"
  shows "\<exists>x w' frame l1 l2 l3 l4. main_10 L w = (x, w') \<and>
     wo_lines w' = wo_lines w @ frame @ dump_output l1 l2 l3 l4 \<and>
     wo_spawned w' = wo_spawned w @ [session_config_for account token proxy] \<and>
     (\<forall>fs. fst (request_friends_list (lb_friends L) (lb_env L) (handle_of d)) = Inr fs \<longrightarrow>
        (\<exists>l. l3 = Stdout (''count         : '' @ show_nat (length fs)) # l)) \<and>
     (x = Go () \<or> x = Stop (Erred (Library (WebSocket ''session driver stopped''))))"
proof -
  let ?C = "session_config_for account token proxy"
  obtain fl h where fl: "request_friends_list (lb_friends L) (lb_env L) (handle_of d) = (fl, h)" by fastforce
  define frame where "frame = announced proxy @
    [Stdout (newline @ rule), Stdout '' ACCOUNT DUMP'', Stdout rule,
     Stdout (''login account : '' @ account), Stdout (''SteamID64     : '' @ show_word target),
     Stdout (''account id     : '' @ show_word (account_id_from_steam_id target)),
     Stdout (''profile URL    : '' @ profile_url target)]"
  define v where "v = w\<lparr>wo_web := web, wo_spawned := wo_spawned w @ [?C], wo_handle := h, wo_lines := wo_lines w @ frame\<rparr>"
  have target: "wo_vars v = wo_vars w \<Longrightarrow> bind (target_id sid) f v = f target v" for f :: "u64 \<Rightarrow> unit program" and v
    using bind_target [of v target sid f] assms(6) by simp
  have main: "main_10 L w = bind (dump_sections L proxy fl target) (\<lambda>_. close_session L) v"
    using assms(1, 2, 4, 5)
    by (simp add: main_10_def bind_def [of "parse_proxy _ _"] assms(3) bind_token target fl frame_def v_def)
  obtain w' l1 l2 l3 l4 where s: "dump_sections L proxy fl target v = (Go (), w')"
    "wo_lines w' = wo_lines v @ dump_output l1 l2 l3 l4" "wo_spawned w' = wo_spawned v"
    "\<And>fs. fl = Inr fs \<Longrightarrow> \<exists>l. l3 = Stdout (''count         : '' @ show_nat (length fs)) # l"
    using assms(7) by (rule sections_complete) blast
  obtain x h' where "close_session L w' = (x, w'\<lparr>wo_handle := h'\<rparr>)"
    "x = Go () \<or> x = Stop (Erred (Library (WebSocket ''session driver stopped'')))"
    using assms(7, 8) by (rule close_session_run)
  then show ?thesis
    using s by (intro exI [of _ x] exI [of _ "w'\<lparr>wo_handle := h'\<rparr>"] exI [of _ frame] exI [of _ l1] exI [of _ l2]
        exI [of _ l3] exI [of _ l4]) (simp add: main bind_def fl v_def)
qed

section \<open>Witnesses\<close>

theorem dump_completes_witness:
  "\<exists>x w' frame l1 l2 l3 l4. main_10 sample_library sample_world = (x, w') \<and>
     wo_lines w' = frame @ dump_output l1 l2 l3 l4 \<and>
     wo_spawned w' = [\<lparr>sc_account_name = ''bot01'', sc_refresh_token = ''a.b.c'', sc_proxy = None\<rparr>] \<and>
     (x = Go () \<or> x = Stop (Erred (Library (WebSocket ''session driver stopped''))))"
proof -
  let ?L = sample_library and ?w = sample_world
  let ?C = "session_config_for ''bot01'' (RefreshToken ''a.b.c'') None"
  have w: "wo_vars ?w ''STEAM_ACCOUNT'' = Some ''bot01''" "wo_vars ?w ''STEAM_PASSWORD'' = Some ''hunter2''"
    "parse_proxy ?L (opt_filter (\<lambda>s. s \<noteq> []) (wo_vars ?w ''PROXY_URL'')) ?w = (Go None, ?w)"
    "wo_lines ?w = []" "wo_spawned ?w = []" "wo_vars ?w ''TARGET_STEAMID'' = None"
    by (simp_all add: sample_world_def parse_proxy_def ret_def)
  have lib: "spawn_session (lb_wire ?L) (lb_connector ?L) (lb_up_at ?L) ?C = Inr (spawn_driver ?C 9 sample_session)"
    "writes_finish (lb_env ?L)" "lb_joined ?L = Ready ()"
    by (simp_all add: sample_library_def sample_spawn answering_env_writes)
  have "execute (lb_auth ?L) (build_sign_in ''bot01'' ''hunter2'' (wo_vars ?w ''SHARED_SECRET'') None) (wo_web ?w) =
      Some (Inr (Success 42 (RefreshToken ''a.b.c'') None), snd (the (execute_password_flow sample_auth sample_creds None sample_web)))"
    using sample_password_flow
    by (simp add: sample_library_def sample_world_def build_sign_in_def with_password_def credentials_password_def
        execute_def sample_creds_def)
  from dump_completes [OF w(1-3) this lib(1) _ lib(2-3), of 42] w(6) show ?thesis
    unfolding w(4-5) append_Nil by (simp only: session_config_for_def refresh_token.sel) blast
qed

end
