(* ===== verification/Example_Persist.thy ===== *)
theory Example_Persist
  imports Example_Session
begin

text \<open>
  \<^verbatim>\<open>examples/11_persist_login.rs\<close>: the refresh token is kept in a file of the caller's, so that only the
  first run needs the password.
\<close>

section \<open>The program\<close>

definition load_token :: "string \<Rightarrow> string option program" where
  "load_token store =
     bind (read_file store) (\<lambda>contents.
     ret (opt_filter (\<lambda>s. s \<noteq> []) (map_option (\<lambda>b. trim (bytes_str b)) (opt_filter valid_utf8 contents))))"

definition save_token :: "('p, 'c, 'j, 'k, 'f) library \<Rightarrow> string \<Rightarrow> string \<Rightarrow> (string + unit) program" where
  "save_token L store token = write_file L store (as_bytes token)"

definition quoted :: "string \<Rightarrow> string" where
  "quoted s = [CHR 0x27] @ s @ [CHR 0x27]"

definition first_login ::
    "('p, 'c, 'j, 'k, 'f) library \<Rightarrow> string \<Rightarrow> string \<Rightarrow> proxy_config option \<Rightarrow> refresh_token program" where
  "first_login L account store proxy =
     bind (print [Stdout (right_arrow @ '' no saved token; doing the one-time password + 2FA login'')]) (\<lambda>_.
     bind (require_var ''STEAM_PASSWORD'' ''STEAM_PASSWORD needed for the first login'') (\<lambda>password.
     bind (env_var ''SHARED_SECRET'') (\<lambda>shared_secret.
     bind (token_or_exit L
            (build_sign_in account password (opt_filter (\<lambda>s. s \<noteq> []) shared_secret) proxy)) (\<lambda>(_, token).
     bind (save_token L store (expose token)) (\<lambda>r.
     bind (propagate FileError r) (\<lambda>_.
     bind (print [Stdout (check_mark @ '' logged in; persisted the refresh token to your store ('' @ quoted store @ '')'')]) (\<lambda>_.
     ret token)))))))"

definition refresh_token_for ::
    "('p, 'c, 'j, 'k, 'f) library \<Rightarrow> string \<Rightarrow> string \<Rightarrow> proxy_config option \<Rightarrow> refresh_token program" where
  "refresh_token_for L account store proxy =
     bind (load_token store) (\<lambda>saved.
     case saved of
       Some token \<Rightarrow>
         bind (print [Stdout (right_arrow @ '' found a saved token in '' @ quoted store @
                ''; logging in without password / 2FA'')]) (\<lambda>_.
         ret (RefreshToken token))
     | None \<Rightarrow> first_login L account store proxy)"

definition persona_line :: "player_summary result \<Rightarrow> line" where
  "persona_line r =
     Stdout (case r of
       Inr me \<Rightarrow> ''  persona: '' @ ps_persona_name me @ '' '' @ em_dash @ '' '' @ ps_profile_url me
     | Inl e \<Rightarrow> ''  (persona fetch skipped: '' @ display_error e @ '')'')"

definition use_token :: "('p, 'c, 'j, 'k, 'f) library \<Rightarrow> string \<Rightarrow> proxy_config option \<Rightarrow> refresh_token \<Rightarrow> unit program" where
  "use_token L account proxy refresh =
     bind (open_session L (session_config_for account refresh proxy)) (\<lambda>_.
     bind (on_handle (\<lambda>h. (steam_id h, h))) (\<lambda>sid.
     bind (print [Stdout (check_mark @ '' session up for steam_id '' @ show_word sid)]) (\<lambda>_.
     bind (await_handle (\<lambda>h. request_player_summary (lb_persona L) (lb_env L) h sid)) (\<lambda>r.
     bind (print [persona_line r]) (\<lambda>_.
     bind (close_session L) (\<lambda>_.
     print [Stdout (newline @ ''Run again '' @ em_dash @ '' it now logs in straight from the saved token.'')]))))))"

definition main_11 :: "('p, 'c, 'j, 'k, 'f) library \<Rightarrow> unit program" where
  "main_11 L =
     bind (require_var ''STEAM_ACCOUNT'' ''STEAM_ACCOUNT env var not set'') (\<lambda>account.
     bind (env_var ''TOKEN_FILE'') (\<lambda>file.
     let store = unwrap_or ''refresh_token.txt'' file in
     bind (env_var ''PROXY_URL'') (\<lambda>url.
     bind (parse_proxy L (opt_filter (\<lambda>s. s \<noteq> []) url)) (\<lambda>proxy.
     bind (refresh_token_for L account store proxy) (use_token L account proxy)))))"

section \<open>Two runs\<close>

lemma bind_write_file:
  "bind (write_file L path contents) f w =
     (case lb_write_fault L path of
        Some e \<Rightarrow> f (Inl e) w
      | None \<Rightarrow> f (Inr ()) (w\<lparr>wo_files := (wo_files w)(path \<mapsto> contents)\<rparr>))"
  by (simp add: bind_def write_file_def split: option.split)

lemma bind_load:
  "bind (load_token store) f w =
     f (opt_filter (\<lambda>s. s \<noteq> []) (map_option (\<lambda>b. trim (bytes_str b)) (opt_filter valid_utf8 (wo_files w store)))) w"
  by (simp add: bind_def load_token_def read_file_def ret_def)

lemma parse_proxy_elsewhere:
  "parse_proxy L url w = (Go proxy, w') \<Longrightarrow> lb_url_parse L2 = lb_url_parse L \<Longrightarrow>
     bind (parse_proxy L2 url) f v = f proxy v"
  by (cases "case url of None \<Rightarrow> Inr undefined | Some u \<Rightarrow> parse (lb_url_parse L) u")
    (auto simp: parse_proxy_def ret_def stop_def split: option.splits)

text \<open>The second half of the program: one session for the token, and nothing else changes outside.\<close>

lemma use_token_run:
  "wo_spawned (snd (use_token L account proxy t w)) = wo_spawned w @ [session_config_for account t proxy] \<and>
   wo_files (snd (use_token L account proxy t w)) = wo_files w \<and> wo_web (snd (use_token L account proxy t w)) = wo_web w"
proof -
  define k where "k = bind (on_handle (\<lambda>h. (steam_id h, h))) (\<lambda>sid.
     bind (print [Stdout (check_mark @ '' session up for steam_id '' @ show_word sid)]) (\<lambda>_.
     bind (await_handle (\<lambda>h. request_player_summary (lb_persona L) (lb_env L) h sid)) (\<lambda>r.
     bind (print [persona_line r]) (\<lambda>_.
     bind (close_session L) (\<lambda>_.
     print [Stdout (newline @ ''Run again '' @ em_dash @ '' it now logs in straight from the saved token.'')])))))"
  have "session_only k" unfolding k_def by (intro session_only_intros session_only_close)
  then have "wo_spawned (snd (k v)) = wo_spawned v \<and> wo_files (snd (k v)) = wo_files v \<and> wo_web (snd (k v)) = wo_web v" for v
    unfolding session_only_def by blast
  moreover have "use_token L account proxy t = bind (open_session L (session_config_for account t proxy)) (\<lambda>_. k)"
    unfolding use_token_def k_def by (rule refl)
  ultimately show ?thesis by (simp split: sum.split)
qed

text \<open>A token as it is issued: not empty, text, and without white space around it.\<close>

definition storable :: "string \<Rightarrow> bool" where
  "storable t \<longleftrightarrow> t \<noteq> [] \<and> trim t = t \<and> valid_utf8 (as_bytes t)"

lemma saved_token_used:
  assumes "wo_files w store = Some (as_bytes t)" "storable t"
  shows "\<exists>ls. bind (refresh_token_for L account store proxy) f w = f (RefreshToken t) (w\<lparr>wo_lines := wo_lines w @ ls\<rparr>)"
  using assms by (auto simp: refresh_token_for_def bind_load storable_def)

lemma first_login_saves:
  assumes "wo_files w store = None" "wo_vars w ''STEAM_PASSWORD'' = Some password"
    and "execute (lb_auth L) (build_sign_in account password (opt_filter (\<lambda>s. s \<noteq> []) (wo_vars w ''SHARED_SECRET'')) proxy)
           (wo_web w) = Some (Inr (Success sid t access), web)" "lb_write_fault L store = None"
  shows "\<exists>ls. bind (refresh_token_for L account store proxy) f w =
    f t (w\<lparr>wo_web := web, wo_files := (wo_files w)(store \<mapsto> as_bytes (expose t)), wo_lines := wo_lines w @ ls\<rparr>)"
  using assms by (auto simp: refresh_token_for_def bind_load first_login_def bind_token save_token_def bind_write_file)

text \<open>C25: The login persists.  After a first run that had to sign in, a second run from the file it left behind
  opens its session with the very token that was issued, for the same account through the same proxy;
  it needs no password and makes no web request, whatever has become of everything else.\<close>

theorem login_persists:
  fixes w w2 :: world
  defines "store \<equiv> unwrap_or ''refresh_token.txt'' (wo_vars w ''TOKEN_FILE'')"
  assumes "wo_vars w ''STEAM_ACCOUNT'' = Some account" "wo_vars w ''STEAM_PASSWORD'' = Some password"
    and "parse_proxy L (opt_filter (\<lambda>s. s \<noteq> []) (wo_vars w ''PROXY_URL'')) w = (Go proxy, w)"
    and "wo_files w store = None" "lb_write_fault L store = None"
    and "execute (lb_auth L) (build_sign_in account password (opt_filter (\<lambda>s. s \<noteq> []) (wo_vars w ''SHARED_SECRET'')) proxy)
           (wo_web w) = Some (Inr (Success sid t access), web)" "storable (expose t)"
    and "wo_files w2 = wo_files (snd (main_11 L w))" "lb_url_parse L2 = lb_url_parse L"
    and "\<forall>x \<in> {''STEAM_ACCOUNT'', ''TOKEN_FILE'', ''PROXY_URL''}. wo_vars w2 x = wo_vars w x"
  shows "wo_spawned (snd (main_11 L w)) = wo_spawned w @ [session_config_for account t proxy] \<and>
    wo_spawned (snd (main_11 L2 w2)) = wo_spawned w2 @ [session_config_for account t proxy] \<and>
    wo_web (snd (main_11 L2 w2)) = wo_web w2"
proof -
  obtain ls where "bind (refresh_token_for L account store proxy) (use_token L account proxy) w =
      use_token L account proxy t
        (w\<lparr>wo_web := web, wo_files := (wo_files w)(store \<mapsto> as_bytes (expose t)), wo_lines := wo_lines w @ ls\<rparr>)"
    using first_login_saves [OF assms(5, 3, 7, 6)] by blast
  then have first: "main_11 L w = use_token L account proxy t
      (w\<lparr>wo_web := web, wo_files := (wo_files w)(store \<mapsto> as_bytes (expose t)), wo_lines := wo_lines w @ ls\<rparr>)"
    using assms(2) by (simp add: main_11_def store_def parse_proxy_elsewhere [OF assms(4) refl])
  then have "wo_files w2 store = Some (as_bytes (expose t))" using assms(9) by (simp add: use_token_run)
  then obtain ls' where "bind (refresh_token_for L2 account store proxy) (use_token L2 account proxy) w2 =
      use_token L2 account proxy t (w2\<lparr>wo_lines := wo_lines w2 @ ls'\<rparr>)"
    using saved_token_used [OF _ assms(8)] by (metis refresh_token.collapse)
  then have "main_11 L2 w2 = use_token L2 account proxy t (w2\<lparr>wo_lines := wo_lines w2 @ ls'\<rparr>)"
    using assms(2, 11) by (simp add: main_11_def store_def parse_proxy_elsewhere [OF assms(4, 10)])
  then show ?thesis using first by (simp add: use_token_run)
qed

section \<open>Witnesses\<close>

definition later_world :: world where
  "later_world = snd (main_11 sample_library sample_world)
     \<lparr>wo_vars := [''STEAM_ACCOUNT'' \<mapsto> ''bot01''], wo_lines := [], wo_web := sample_web, wo_spawned := []\<rparr>"

theorem login_persists_witness:
  "wo_spawned (snd (main_11 sample_library sample_world)) =
     [\<lparr>sc_account_name = ''bot01'', sc_refresh_token = ''a.b.c'', sc_proxy = None\<rparr>] \<and>
   wo_vars later_world ''STEAM_PASSWORD'' = None \<and>
   wo_spawned (snd (main_11 sample_library later_world)) =
     [\<lparr>sc_account_name = ''bot01'', sc_refresh_token = ''a.b.c'', sc_proxy = None\<rparr>] \<and>
   wo_web (snd (main_11 sample_library later_world)) = sample_web"
proof -
  let ?L = sample_library and ?w = sample_world
  have w: "wo_vars ?w ''STEAM_ACCOUNT'' = Some ''bot01''" "wo_vars ?w ''STEAM_PASSWORD'' = Some ''hunter2''"
    "parse_proxy ?L (opt_filter (\<lambda>s. s \<noteq> []) (wo_vars ?w ''PROXY_URL'')) ?w = (Go None, ?w)"
    "wo_files ?w p = None" "wo_spawned ?w = []" for p
    by (simp_all add: sample_world_def parse_proxy_def ret_def)
  have later: "wo_vars later_world = [''STEAM_ACCOUNT'' \<mapsto> ''bot01'']" "wo_spawned later_world = []"
    "wo_web later_world = sample_web" "wo_files later_world = wo_files (snd (main_11 ?L ?w))"
    by (simp_all add: later_world_def)
  have same: "\<forall>x \<in> {''STEAM_ACCOUNT'', ''TOKEN_FILE'', ''PROXY_URL''}. wo_vars later_world x = wo_vars ?w x"
    by (simp add: later sample_world_def)
  have fault: "lb_write_fault ?L p = None" for p by (simp add: sample_library_def)
  have plain: "storable (expose (RefreshToken ''a.b.c''))" by code_simp
  have "execute (lb_auth ?L) (build_sign_in ''bot01'' ''hunter2''
        (opt_filter (\<lambda>s. s \<noteq> []) (wo_vars ?w ''SHARED_SECRET'')) None) (wo_web ?w) =
      Some (Inr (Success 42 (RefreshToken ''a.b.c'') None), snd (the (execute_password_flow sample_auth sample_creds None sample_web)))"
    using sample_password_flow
    by (simp add: sample_library_def sample_world_def build_sign_in_def with_password_def credentials_password_def
        execute_def sample_creds_def)
  from login_persists [OF w(1-4) fault this plain later(4) refl same] show ?thesis
    by (simp add: w(5) later session_config_for_def)
qed

end
