(* ===== verification/Tests.thy ===== *)
theory Tests
  imports Steam_Error Rust_Fmt
begin

text \<open>
  The crate's own unit tests, run against the model.  Each \<^verbatim>\<open>#[test]\<close> is a proposition of the same name, made
  of the test's assertions on the model's definitions, and is shown to hold: by evaluation where the test
  is a computation, for every behaviour of the code outside the crate that the test relies on where it
  calls such code.  A test thereby checks a definition against what its authors expect of the code.

  This theory holds the assertions the tests share.
\<close>

definition ok_and :: "'e + 'a \<Rightarrow> ('a \<Rightarrow> bool) \<Rightarrow> bool" where
  "ok_and r p = (case r of Inl _ \<Rightarrow> False | Inr x \<Rightarrow> p x)"

definition err_and :: "'e + 'a \<Rightarrow> ('e \<Rightarrow> bool) \<Rightarrow> bool" where
  "err_and r p = (case r of Inl e \<Rightarrow> p e | Inr _ \<Rightarrow> False)"

definition some_and :: "'a option \<Rightarrow> ('a \<Rightarrow> bool) \<Rightarrow> bool" where
  "some_and v p = (case v of None \<Rightarrow> False | Some x \<Rightarrow> p x)"

definition contains :: "string \<Rightarrow> string \<Rightarrow> bool" where
  "contains s pat \<longleftrightarrow> find_str pat s \<noteq> None"

definition ends_with :: "string \<Rightarrow> string \<Rightarrow> bool" where
  "ends_with pat s = starts_with (rev pat) (rev s)"

text \<open>A JSON literal, with a grave accent for each double quote.\<close>

definition raw_json :: "string \<Rightarrow> string" where
  "raw_json s = map (\<lambda>c. if c = CHR 0x60 then CHR 0x22 else c) s"

lemma assertions [simp]:
  "ok_and (Inr x) p = p x" "\<not> ok_and (Inl e) p" "err_and (Inl e') q = q e'" "\<not> err_and (Inr x') q"
  "some_and (Some y) r = r y" "\<not> some_and None r"
  by (simp_all add: ok_and_def err_and_def some_and_def)

fun is_codec :: "error \<Rightarrow> bool" where
  "is_codec (Codec _) = True"
| "is_codec _ = False"

fun is_invalid_config :: "error \<Rightarrow> bool" where
  "is_invalid_config (InvalidConfig _) = True"
| "is_invalid_config _ = False"

fun is_network :: "error \<Rightarrow> bool" where
  "is_network (Network _) = True"
| "is_network _ = False"

fun is_remote :: "error \<Rightarrow> bool" where
  "is_remote (Remote _) = True"
| "is_remote _ = False"

fun is_timeout :: "error \<Rightarrow> bool" where
  "is_timeout (Timeout _) = True"
| "is_timeout _ = False"

fun is_web_socket :: "error \<Rightarrow> bool" where
  "is_web_socket (WebSocket _) = True"
| "is_web_socket _ = False"

fun is_base64 :: "error \<Rightarrow> bool" where
  "is_base64 (Base64 _) = True"
| "is_base64 _ = False"

fun is_logon_retryable :: "error \<Rightarrow> bool" where
  "is_logon_retryable (LogonRetryable _) = True"
| "is_logon_retryable _ = False"

text \<open>\<^verbatim>\<open>matches!(err, Error::Remote(ref m) if m.contains(..))\<close>\<close>

definition remote_with :: "string \<Rightarrow> error \<Rightarrow> bool" where
  "remote_with text e = (case e of Remote m \<Rightarrow> contains m text | _ \<Rightarrow> False)"

section \<open>Decimal text\<close>

text \<open>Evaluating the decimal text of a literal.\<close>

lemma show_nat_numeral:
  "show_nat (numeral k) = (if (numeral k :: nat) < 10 then [digit_char (numeral k)]
     else show_nat (numeral k div 10) @ [digit_char (numeral k mod 10)])"
  by (subst show_nat.simps) simp

lemma show_nat_small: "show_nat 0 = ''0''" "show_nat 1 = ''1''" "show_nat (Suc 0) = ''1''"
  by code_simp+

lemma digit_chars: "digit_char 0 = CHR ''0''" "digit_char 1 = CHR ''1''" "digit_char (Suc 0) = CHR ''1''" "digit_char 2 = CHR ''2''" "digit_char 3 = CHR ''3''"
  "digit_char 4 = CHR ''4''" "digit_char 5 = CHR ''5''" "digit_char 6 = CHR ''6''" "digit_char 7 = CHR ''7''"
  "digit_char 8 = CHR ''8''" "digit_char 9 = CHR ''9''"
  by code_simp+

lemmas show_decimal = show_nat_numeral show_nat_small digit_chars

section \<open>UTF-8 text\<close>

lemma valid_utf8_step: "utf8_step (b # bs) = (True, n) \<Longrightarrow> valid_utf8 (b # bs) = valid_utf8 (drop n (b # bs))"
  by (simp add: valid_utf8.simps [of "b # bs"])

lemma valid_utf8_eval:
  "valid_utf8 []"
  "b < 0x80 \<Longrightarrow> valid_utf8 (b # bs) = valid_utf8 bs"
  "0xC2 \<le> b \<Longrightarrow> b \<le> 0xDF \<Longrightarrow> is_cont c \<Longrightarrow> valid_utf8 (b # c # bs) = valid_utf8 bs"
  "0xE0 \<le> b \<Longrightarrow> b \<le> 0xEF \<Longrightarrow> second3 b c \<Longrightarrow> is_cont d \<Longrightarrow> valid_utf8 (b # c # d # bs) = valid_utf8 bs"
  "0xF0 \<le> b \<Longrightarrow> b \<le> 0xF4 \<Longrightarrow> second4 b c \<Longrightarrow> is_cont d \<Longrightarrow> is_cont e \<Longrightarrow>
     valid_utf8 (b # c # d # e # bs) = valid_utf8 bs"
proof -
  show "valid_utf8 []" by (simp add: valid_utf8.simps [of "[]"])
  show "b < 0x80 \<Longrightarrow> valid_utf8 (b # bs) = valid_utf8 bs"
    using valid_utf8_step [of b bs 1] by (simp add: utf8_step_def safe_get_def)
  show "0xC2 \<le> b \<Longrightarrow> b \<le> 0xDF \<Longrightarrow> is_cont c \<Longrightarrow> valid_utf8 (b # c # bs) = valid_utf8 bs"
    using valid_utf8_step [of b "c # bs" 2] by (simp add: utf8_step_def safe_get_def word_less_nat_alt word_le_nat_alt)
  show "0xE0 \<le> b \<Longrightarrow> b \<le> 0xEF \<Longrightarrow> second3 b c \<Longrightarrow> is_cont d \<Longrightarrow> valid_utf8 (b # c # d # bs) = valid_utf8 bs"
    using valid_utf8_step [of b "c # d # bs" 3] by (simp add: utf8_step_def safe_get_def word_less_nat_alt word_le_nat_alt)
  show "0xF0 \<le> b \<Longrightarrow> b \<le> 0xF4 \<Longrightarrow> second4 b c \<Longrightarrow> is_cont d \<Longrightarrow> is_cont e \<Longrightarrow>
     valid_utf8 (b # c # d # e # bs) = valid_utf8 bs"
    using valid_utf8_step [of b "c # d # e # bs" 4] by (simp add: utf8_step_def safe_get_def word_less_nat_alt word_le_nat_alt)
qed

section \<open>Debug text\<close>

text \<open>A string of unremarkable ASCII characters is printed between quotes as it is.\<close>

definition unescaped :: "char \<Rightarrow> bool" where
  "unescaped c \<longleftrightarrow> (let n = (of_char c :: nat) in 32 \<le> n \<and> n < 127 \<and> n \<noteq> 34 \<and> n \<noteq> 92)"

lemma escape_debug_plain: "list_all unescaped s \<Longrightarrow> escape_debug esc (as_bytes s) = s"
proof (induction s)
  case Nil
  then show ?case by (simp add: as_bytes_def escape_debug.simps [of _ "[]"])
next
  case (Cons c s)
  let ?n = "of_char c :: nat"
  have n: "32 \<le> ?n" "?n < 127" "?n \<noteq> 34" "?n \<noteq> 92" using Cons.prems by (simp_all add: unescaped_def Let_def)
  have "(of_char c :: byte) = of_nat ?n" by (rule of_nat_of_char [symmetric])
  then have u: "unat (of_char c :: byte) = ?n" using n by (simp add: unsigned_of_nat take_bit_eq_mod)
  then have "snd (utf8_step (as_bytes (c # s))) = 1"
    using n by (simp add: utf8_step_def safe_get_def as_bytes_def word_less_nat_alt)
  moreover have "escape_ascii ?n = [c]" using n by (simp add: escape_ascii_def Let_def)
  ultimately show ?case using Cons u
    by (simp add: escape_debug.simps [of esc "of_char c # map of_char s"] as_bytes_def)
qed

lemma debug_str_plain: "list_all unescaped s \<Longrightarrow> debug_str esc s = [CHR 0x22] @ s @ [CHR 0x22]"
proof -
  have "char_of (34 :: nat) = CHR 0x22" by code_simp
  then show "list_all unescaped s \<Longrightarrow> ?thesis" by (simp add: debug_str_def escape_debug_plain)
qed

end
