(* ===== verification/Tests_Session.thy ===== *)
theory Tests_Session
  imports Tests Handle
begin

text \<open>
  The unit tests of \<^verbatim>\<open>src/session/\<close>: the state, the connection with its batches and its liveness clock, and the
  driver with its handle.  A test that encodes a message relies on prost to decode it again.
  The serde round trip of the state is left out.
\<close>

section \<open>state.rs\<close>

definition is_ready_only_when_logged_on :: bool where
  "is_ready_only_when_logged_on \<longleftrightarrow>
     is_ready (LoggedOn 1) \<and> \<not> is_ready Connecting \<and> \<not> is_ready (LoggedOff ''x'') \<and> \<not> is_ready (Failed ''x'')"

definition labels_cover_every_state :: bool where
  "labels_cover_every_state \<longleftrightarrow>
     label Disconnected = ''disconnected'' \<and> label Authenticating = ''authenticating'' \<and>
     label Connecting = ''connecting'' \<and> label (LoggedOn 1) = ''logged_on'' \<and>
     label (LoggedOff ''x'') = ''logged_off'' \<and> label (Failed ''x'') = ''failed''"

lemma state_tests: "is_ready_only_when_logged_on" "labels_cover_every_state"
  by code_simp+

section \<open>connection.rs: batches\<close>

definition framed :: "wire \<Rightarrow> u32 \<Rightarrow> u64 \<Rightarrow> bytes" where
  "framed W emsg steamid =
     encode (w_enc_header W) (w_enc_header W) emsg (default_header\<lparr>hdr_steamid := Some steamid\<rparr>) default_header"

definition multi_body :: "(cmsg_multi \<Rightarrow> bytes) \<Rightarrow> bytes list \<Rightarrow> bytes" where
  "multi_body enc_multi messages =
     enc_multi \<lparr>mu_size_unzipped = Some 0,
       mu_message_body = Some (concat (map (\<lambda>m. u32_to_le (of_nat (length m)) @ m) messages))\<rparr>"

primrec nest_multi :: "wire \<Rightarrow> (cmsg_multi \<Rightarrow> bytes) \<Rightarrow> nat \<Rightarrow> bytes" where
  "nest_multi W enc_multi 0 = multi_body enc_multi [framed W 703 1]"
| "nest_multi W enc_multi (Suc n) =
     multi_body enc_multi [encode_raw (w_enc_header W) EMSG_MULTI default_header (nest_multi W enc_multi n)]"

definition decode_multi_splits_embedded_messages :: "wire \<Rightarrow> (cmsg_multi \<Rightarrow> bytes) \<Rightarrow> bool" where
  "decode_multi_splits_embedded_messages W enc_multi =
     ok_and (decode_multi W (multi_body enc_multi [framed W 703 1, framed W 751 2]) 0) (\<lambda>msgs.
       length msgs = 2 \<and> sm_emsg (msgs ! 0) = 703 \<and> hdr_steamid (sm_header (msgs ! 0)) = Some 1 \<and>
       sm_emsg (msgs ! 1) = 751 \<and> hdr_steamid (sm_header (msgs ! 1)) = Some 2)"

definition decode_multi_flattens_nested_multi :: "wire \<Rightarrow> (cmsg_multi \<Rightarrow> bytes) \<Rightarrow> bool" where
  "decode_multi_flattens_nested_multi W enc_multi =
     ok_and (w_dec_multi W (multi_body enc_multi [framed W 751 9])) (\<lambda>inner.
       let inner_framed = encode (w_enc_header W) enc_multi EMSG_MULTI default_header inner
       in ok_and (decode_multi W (multi_body enc_multi [framed W 703 1, inner_framed]) 0) (\<lambda>msgs.
            length msgs = 2 \<and> sm_emsg (msgs ! 1) = 751 \<and> hdr_steamid (sm_header (msgs ! 1)) = Some 9))"

definition decode_multi_handles_gzip :: "wire \<Rightarrow> (cmsg_multi \<Rightarrow> bytes) \<Rightarrow> (bytes \<Rightarrow> bytes) \<Rightarrow> bool" where
  "decode_multi_handles_gzip W enc_multi gzip =
     (let payload = concat (map (\<lambda>m. u32_to_le (of_nat (length m)) @ m) [framed W 703 1, framed W 751 2]);
          body = enc_multi \<lparr>mu_size_unzipped = Some (of_nat (length payload)), mu_message_body = Some (gzip payload)\<rparr>
      in ok_and (decode_multi W body 0) (\<lambda>msgs. length msgs = 2 \<and> sm_emsg (msgs ! 0) = 703 \<and> sm_emsg (msgs ! 1) = 751))"

definition decode_multi_rejects_invalid_gzip :: "wire \<Rightarrow> (cmsg_multi \<Rightarrow> bytes) \<Rightarrow> bool" where
  "decode_multi_rejects_invalid_gzip W enc_multi =
     err_and (decode_multi W (enc_multi \<lparr>mu_size_unzipped = Some 4096, mu_message_body = Some [1, 2, 3]\<rparr>) 0) is_codec"

definition decode_multi_rejects_truncated_embedded_message :: "wire \<Rightarrow> (cmsg_multi \<Rightarrow> bytes) \<Rightarrow> bool" where
  "decode_multi_rejects_truncated_embedded_message W enc_multi =
     err_and (decode_multi W (enc_multi \<lparr>mu_size_unzipped = Some 0,
       mu_message_body = Some (u32_to_le 100 @ replicate 10 0)\<rparr>) 0) is_codec"

definition decode_multi_rejects_decompression_bomb :: "wire \<Rightarrow> (cmsg_multi \<Rightarrow> bytes) \<Rightarrow> (bytes \<Rightarrow> bytes) \<Rightarrow> bool" where
  "decode_multi_rejects_decompression_bomb W enc_multi gzip =
     (let bomb = gzip (replicate (MAX_MULTI_UNZIPPED + 4096) 0)
      in length bomb < 64 * 1024 \<and>
         err_and (decode_multi W (enc_multi \<lparr>mu_size_unzipped = Some 1, mu_message_body = Some bomb\<rparr>) 0) is_codec)"

definition decode_multi_rejects_absurd_size_unzipped :: "wire \<Rightarrow> (cmsg_multi \<Rightarrow> bytes) \<Rightarrow> bool" where
  "decode_multi_rejects_absurd_size_unzipped W enc_multi =
     err_and (decode_multi W (enc_multi \<lparr>mu_size_unzipped = Some 0xFFFFFFFF, mu_message_body = Some [1, 2, 3]\<rparr>) 0) is_codec"

definition decode_multi_rejects_deep_nesting :: "wire \<Rightarrow> (cmsg_multi \<Rightarrow> bytes) \<Rightarrow> bool" where
  "decode_multi_rejects_deep_nesting W enc_multi =
     err_and (decode_multi W (nest_multi W enc_multi (MAX_MULTI_DEPTH + 2)) 0) is_codec"

definition decode_multi_allows_nesting_within_the_cap :: "wire \<Rightarrow> (cmsg_multi \<Rightarrow> bytes) \<Rightarrow> bool" where
  "decode_multi_allows_nesting_within_the_cap W enc_multi =
     ok_and (decode_multi W (nest_multi W enc_multi (MAX_MULTI_DEPTH - 1)) 0) (\<lambda>msgs.
       length msgs = 1 \<and> sm_emsg (msgs ! 0) = 703)"

definition decode_multi_allows_exactly_the_cap :: "wire \<Rightarrow> (cmsg_multi \<Rightarrow> bytes) \<Rightarrow> bool" where
  "decode_multi_allows_exactly_the_cap W enc_multi =
     ok_and (decode_multi W (nest_multi W enc_multi MAX_MULTI_DEPTH) 0) (\<lambda>msgs.
       length msgs = 1 \<and> sm_emsg (msgs ! 0) = 703)"

definition decode_multi_rejects_one_past_the_cap :: "wire \<Rightarrow> (cmsg_multi \<Rightarrow> bytes) \<Rightarrow> bool" where
  "decode_multi_rejects_one_past_the_cap W enc_multi =
     err_and (decode_multi W (nest_multi W enc_multi (MAX_MULTI_DEPTH + 1)) 0) is_codec"

text \<open>What the tests need of prost: the headers decode again and take few bytes, a batch decodes again, and its
  encoding adds a few bytes to the payload.\<close>

definition prost_codes :: "wire \<Rightarrow> (cmsg_multi \<Rightarrow> bytes) \<Rightarrow> bool" where
  "prost_codes W enc_multi \<longleftrightarrow>
     (\<forall>h \<in> {default_header} \<union> (\<lambda>s. default_header\<lparr>hdr_steamid := Some s\<rparr>) ` {1, 2, 9}.
        w_dec_header W (w_enc_header W h) = Inr h \<and> length (w_enc_header W h) \<le> 100) \<and>
     (\<forall>m. w_dec_multi W (enc_multi m) = Inr m \<and>
        length (enc_multi m) \<le> 100 + length (unwrap_or [] (mu_message_body m)))"

lemma emsg_small: "(703 :: u32) AND EMSG_MASK = 703" "(751 :: u32) AND EMSG_MASK = 751" "(1 :: u32) AND EMSG_MASK = 1"
  by (simp_all add: EMSG_MASK_def PROTO_MASK_def)

lemma framed_decodes:
  assumes "prost_codes W enc_multi" "s \<in> {1, 2, 9}" "emsg \<in> {703, 751}"
  shows "try_decode (w_dec_header W) (framed W emsg s) = Inr (Some \<lparr>sm_emsg = emsg,
      sm_header = default_header\<lparr>hdr_steamid := Some s\<rparr>, sm_body = w_enc_header W default_header\<rparr>)"
    and "length (framed W emsg s) \<le> 208"
proof -
  let ?h = "default_header\<lparr>hdr_steamid := Some s\<rparr>"
  have h: "w_dec_header W (w_enc_header W ?h) = Inr ?h" "length (w_enc_header W ?h) \<le> 100"
    "length (w_enc_header W default_header) \<le> 100"
    using assms(1, 2) by (auto simp: prost_codes_def)
  moreover have "emsg AND EMSG_MASK = emsg" using assms(3) emsg_small by auto
  ultimately show "try_decode (w_dec_header W) (framed W emsg s) = Inr (Some \<lparr>sm_emsg = emsg, sm_header = ?h,
      sm_body = w_enc_header W default_header\<rparr>)"
    by (simp add: framed_def encode_frame try_decode_frame)
  show "length (framed W emsg s) \<le> 208" using h(2, 3) by (simp add: framed_def encode_frame)
qed

lemma multi_body_batch: "multi_body enc_multi fs = enc_multi \<lparr>mu_size_unzipped = Some 0, mu_message_body = Some (batch fs)\<rparr>"
  by (simp add: multi_body_def batch_def)

lemma decode_multi_plain:
  assumes "prost_codes W enc_multi" "d \<le> MAX_MULTI_DEPTH"
  shows "decode_multi W (enc_multi \<lparr>mu_size_unzipped = Some 0, mu_message_body = Some p\<rparr>) d = multi_loop W p [] d"
  using assms
  by (simp add: prost_codes_def multi_payload_def
      decode_multi.simps [of W "enc_multi \<lparr>mu_size_unzipped = Some 0, mu_message_body = Some p\<rparr>"])

lemma multi_loop_done: "multi_loop W [] out d = Inr out"
  by (subst multi_loop.simps) simp

lemma multi_loop_inner:
  assumes "length f < 2 ^ 32" "try_decode (w_dec_header W) f = Inr (Some m)" "sm_emsg m = EMSG_MULTI"
  shows "multi_loop W (u32_to_le (of_nat (length f)) @ f @ cur) out d =
    and_then (decode_multi W (sm_body m) (d + 1)) (\<lambda>ms. multi_loop W cur (out @ ms) d)"
proof -
  have "unat (of_nat (length f) :: u32) = length f"
    using assms(1) by (simp add: unsigned_of_nat take_bit_nat_eq_self)
  then show ?thesis using assms by (subst multi_loop.simps) (simp add: and_then_def split: sum.split)
qed

text \<open>A batch inside a frame, as both the nested tests build it.\<close>

lemma multi_frame_decodes:
  assumes "prost_codes W enc_multi"
  shows "try_decode (w_dec_header W) (frame EMSG_MULTI (w_enc_header W default_header) body) =
      Inr (Some \<lparr>sm_emsg = EMSG_MULTI, sm_header = default_header, sm_body = body\<rparr>)"
    and "length (frame EMSG_MULTI (w_enc_header W default_header) body) \<le> 108 + length body"
proof -
  have h: "w_dec_header W (w_enc_header W default_header) = Inr default_header" "length (w_enc_header W default_header) \<le> 100"
    using assms by (auto simp: prost_codes_def)
  then show "try_decode (w_dec_header W) (frame EMSG_MULTI (w_enc_header W default_header) body) =
      Inr (Some \<lparr>sm_emsg = EMSG_MULTI, sm_header = default_header, sm_body = body\<rparr>)"
    using emsg_small(3) by (simp add: try_decode_frame)
  show "length (frame EMSG_MULTI (w_enc_header W default_header) body) \<le> 108 + length body"
    using h(2) by simp
qed

lemma multi_body_length:
  assumes "prost_codes W enc_multi"
  shows "length (multi_body enc_multi [f]) \<le> 104 + length f"
proof -
  let ?m = "\<lparr>mu_size_unzipped = Some 0, mu_message_body = Some (batch [f])\<rparr>"
  have "length (enc_multi ?m) \<le> 100 + length (unwrap_or [] (mu_message_body ?m))"
    using assms by (auto simp only: prost_codes_def)
  then show ?thesis by (simp add: multi_body_batch batch_def)
qed

lemma nest_multi_length:
  assumes "prost_codes W enc_multi"
  shows "length (nest_multi W enc_multi n) \<le> 312 + n * 212"
proof -
  note m = multi_body_length [OF assms]
  show ?thesis
  proof (induction n)
    case 0
    then show ?case using m [of "framed W 703 1"] framed_decodes(2) [OF assms, of 1 703] by simp
  next
    case (Suc n)
    then show ?case
      using m [of "frame EMSG_MULTI (w_enc_header W default_header) (nest_multi W enc_multi n)"]
        multi_frame_decodes(2) [OF assms, of "nest_multi W enc_multi n"]
      by (simp add: encode_raw_frame)
  qed
qed

lemma nest_multi_decodes:
  assumes "prost_codes W enc_multi" "n \<le> 1000"
  shows "if d + n \<le> MAX_MULTI_DEPTH
    then decode_multi W (nest_multi W enc_multi n) d = Inr [\<lparr>sm_emsg = 703,
      sm_header = default_header\<lparr>hdr_steamid := Some 1\<rparr>, sm_body = w_enc_header W default_header\<rparr>]
    else \<exists>t. decode_multi W (nest_multi W enc_multi n) d = Inl (Codec t)"
  using assms(2)
proof (induction n arbitrary: d)
  case 0
  show ?case
    using framed_decodes [OF assms(1), of 1 703] multi_loop_frame [of "framed W 703 1" W _ "[]" "[]" d]
    by (simp add: multi_body_batch batch_def decode_multi_plain [OF assms(1)] multi_loop_done)
      (simp add: decode_multi.simps)
next
  case (Suc n)
  let ?f = "frame EMSG_MULTI (w_enc_header W default_header) (nest_multi W enc_multi n)"
  have "length ?f \<le> 108 + (312 + n * 212)"
    using multi_frame_decodes(2) [OF assms(1), of "nest_multi W enc_multi n"] nest_multi_length [OF assms(1), of n] by linarith
  then have short: "length ?f < 2 ^ 32" using Suc.prems by simp
  have step: "decode_multi W (nest_multi W enc_multi (Suc n)) d = decode_multi W (nest_multi W enc_multi n) (d + 1)"
    if "d \<le> MAX_MULTI_DEPTH"
    using that multi_loop_inner [OF short multi_frame_decodes(1) [OF assms(1)], of "[]" "[]" d]
    by (simp add: encode_raw_frame multi_body_batch batch_def decode_multi_plain [OF assms(1)] multi_loop_done and_then_def split: sum.split)
  show ?case
  proof (cases "d \<le> MAX_MULTI_DEPTH")
    case True
    then show ?thesis using step Suc.IH [of "Suc d"] Suc.prems by (auto split: if_splits)
  next
    case False
    then show ?thesis by (simp add: decode_multi.simps [of W "multi_body enc_multi fs" for fs])
  qed
qed

lemma nesting_tests:
  assumes "prost_codes W enc_multi"
  shows "decode_multi_rejects_deep_nesting W enc_multi" "decode_multi_allows_nesting_within_the_cap W enc_multi"
    "decode_multi_allows_exactly_the_cap W enc_multi" "decode_multi_rejects_one_past_the_cap W enc_multi"
  using nest_multi_decodes [OF assms, of 3 0] nest_multi_decodes [OF assms, of 4 0]
    nest_multi_decodes [OF assms, of 5 0] nest_multi_decodes [OF assms, of 6 0]
  by (auto simp: decode_multi_rejects_deep_nesting_def decode_multi_allows_nesting_within_the_cap_def
      decode_multi_allows_exactly_the_cap_def decode_multi_rejects_one_past_the_cap_def MAX_MULTI_DEPTH_def)

lemma batch_tests:
  assumes codes: "prost_codes W enc_multi"
  shows "decode_multi_splits_embedded_messages W enc_multi" "decode_multi_flattens_nested_multi W enc_multi"
    "decode_multi_rejects_truncated_embedded_message W enc_multi" "decode_multi_rejects_absurd_size_unzipped W enc_multi"
proof -
  let ?m = "\<lambda>emsg s. \<lparr>sm_emsg = emsg, sm_header = default_header\<lparr>hdr_steamid := Some s\<rparr>, sm_body = w_enc_header W default_header\<rparr>"
  have loop: "multi_loop W (u32_to_le (of_nat (length (framed W emsg s))) @ framed W emsg s @ cur) out d =
      multi_loop W cur (out @ [?m emsg s]) d" if "s \<in> {1, 2, 9}" "emsg \<in> {703, 751}" for emsg s cur out d
    using that framed_decodes [OF codes that] by (intro multi_loop_frame) auto
  show "decode_multi_splits_embedded_messages W enc_multi"
    using loop [of 1 703 "u32_to_le (of_nat (length (framed W 751 2))) @ framed W 751 2"] loop [of 2 751 "[]"]
    by (simp add: decode_multi_splits_embedded_messages_def multi_body_batch batch_def decode_multi_plain [OF codes]
        multi_loop_done)
  let ?inner = "multi_body enc_multi [framed W 751 9]"
  let ?f = "frame EMSG_MULTI (w_enc_header W default_header) ?inner"
  have inner: "decode_multi W ?inner 1 = Inr [?m 751 9]"
    using loop [of 9 751 "[]" "[]" 1] by (simp add: multi_body_batch batch_def decode_multi_plain [OF codes] multi_loop_done MAX_MULTI_DEPTH_def)
  have "length ?inner \<le> 104 + length (framed W 751 9)"
    using multi_body_length [OF codes] .
  then have "length ?f < 2 ^ 32"
    using multi_frame_decodes(2) [OF codes, of ?inner] framed_decodes(2) [OF codes, of 9 751] by simp
  from multi_loop_inner [OF this multi_frame_decodes(1) [OF codes], of "[]" _ 0]
  have "multi_loop W (u32_to_le (of_nat (length ?f)) @ ?f) out 0 = Inr (out @ [?m 751 9])" for out
    by (simp add: inner [unfolded One_nat_def] multi_loop_done)
  then have "decode_multi W (multi_body enc_multi [framed W 703 1, ?f]) 0 = Inr [?m 703 1, ?m 751 9]"
    using loop [of 1 703 "u32_to_le (of_nat (length ?f)) @ ?f" "[]" 0]
    by (simp add: multi_body_batch batch_def decode_multi_plain [OF codes])
  moreover have "w_dec_multi W ?inner = Inr \<lparr>mu_size_unzipped = Some 0, mu_message_body = Some (batch [framed W 751 9])\<rparr>"
    using codes by (simp add: prost_codes_def multi_body_batch)
  ultimately show "decode_multi_flattens_nested_multi W enc_multi"
    by (simp add: decode_multi_flattens_nested_multi_def encode_frame multi_body_batch [of enc_multi "[framed W 751 9]", symmetric])
  have "multi_loop W (u32_to_le 100 @ replicate 10 0) [] 0 = Inl (Codec ''truncated message inside Multi'')"
    by (subst multi_loop.simps) simp
  then show "decode_multi_rejects_truncated_embedded_message W enc_multi"
    by (simp add: decode_multi_rejects_truncated_embedded_message_def decode_multi_plain [OF codes])
  show "decode_multi_rejects_absurd_size_unzipped W enc_multi"
    using codes
    by (simp add: decode_multi_rejects_absurd_size_unzipped_def prost_codes_def multi_payload_def Let_def MAX_MULTI_UNZIPPED_def
        decode_multi.simps [of W "enc_multi m" for m])
qed

text \<open>\<open>gzip\<close> is undone by the decoder and makes little of zeros; three arbitrary bytes are no gzip stream.\<close>

lemma gzip_tests:
  assumes codes: "prost_codes W enc_multi" and gzip: "\<And>data. w_inflate W (gzip data) = (data, None)"
    and bomb: "length (gzip (replicate (MAX_MULTI_UNZIPPED + 4096) 0)) < 64 * 1024"
    and garbage: "w_inflate W [1, 2, 3] = ([], Some e)"
  shows "decode_multi_handles_gzip W enc_multi gzip" "decode_multi_rejects_invalid_gzip W enc_multi"
    "decode_multi_rejects_decompression_bomb W enc_multi gzip"
proof -
  have dec: "decode_multi W (enc_multi m) 0 = and_then (multi_payload W m) (\<lambda>payload. multi_loop W payload [] 0)" for m
    using codes by (simp add: prost_codes_def decode_multi.simps [of W "enc_multi m"])
  let ?fs = "[framed W 703 1, framed W 751 2]"
  let ?ms = "map (\<lambda>(emsg, s). \<lparr>sm_emsg = emsg, sm_header = default_header\<lparr>hdr_steamid := Some s\<rparr>,
    sm_body = w_enc_header W default_header\<rparr>) [(703, 1), (751, 2)]"
  have len: "length (batch ?fs) \<le> 424" "0 < length (batch ?fs)"
    using framed_decodes(2) [OF codes, of 1 703] framed_decodes(2) [OF codes, of 2 751] by (simp_all add: batch_def)
  then have "unat (of_nat (length (batch ?fs)) :: u32) = length (batch ?fs)"
    by (simp add: unsigned_of_nat take_bit_nat_eq_self)
  then have "multi_payload W \<lparr>mu_size_unzipped = Some (of_nat (length (batch ?fs))), mu_message_body = Some (gzip (batch ?fs))\<rparr> =
      Inr (batch ?fs)"
    using len by (simp add: multi_payload_def gunzip_def gzip Let_def MAX_MULTI_UNZIPPED_def)
  moreover have "multi_loop W (batch ?fs) [] 0 = Inr ([] @ ?ms)"
    using framed_decodes [OF codes, of 1 703] framed_decodes [OF codes, of 2 751] by (intro multi_loop_batch) auto
  ultimately show "decode_multi_handles_gzip W enc_multi gzip"
    by (simp add: decode_multi_handles_gzip_def dec Let_def batch_def [symmetric] batch_def [of ?fs, simplified, symmetric])
  show "decode_multi_rejects_invalid_gzip W enc_multi"
    by (simp add: decode_multi_rejects_invalid_gzip_def dec multi_payload_def gunzip_def garbage MAX_MULTI_UNZIPPED_def)
  have "multi_payload W \<lparr>mu_size_unzipped = Some 1, mu_message_body = Some (gzip (replicate (MAX_MULTI_UNZIPPED + 4096) 0))\<rparr> =
      Inl (Codec (''Multi inflated past '' @ show_nat MAX_MULTI_UNZIPPED @ '' cap''))"
    by (simp add: multi_payload_def gunzip_def gzip Let_def) (simp add: MAX_MULTI_UNZIPPED_def)
  then show "decode_multi_rejects_decompression_bomb W enc_multi gzip"
    using bomb by (simp add: decode_multi_rejects_decompression_bomb_def dec Let_def)
qed

section \<open>connection.rs: liveness and the logon verdict\<close>

text \<open>The clock starts at zero with the liveness stamp, and the frames are there when it has been advanced.\<close>

definition read_frame_records_control_frames_as_activity :: bool where
  "read_frame_records_control_frames_as_activity =
     (let now = secs 300;
          frames = [(now, WsItem (WsPong [])), (now, WsItem (WsPing [])), (now, WsItem (WsBinary [1, 2, 3])), (now, WsEnd)];
          (frame, _, liveness) = read_frame frames 0
      in frame = Ready (Inr [1, 2, 3]) \<and> idle_for now liveness = 0)"

definition read_frame_touches_liveness_on_a_pong_alone :: bool where
  "read_frame_touches_liveness_on_a_pong_alone =
     (let now = secs 120; (frame, _, liveness) = read_frame [(now, WsItem (WsPong [])), (now, WsEnd)] 0
      in secs 120 \<le> idle_for now 0 \<and> (case frame of Ready r \<Rightarrow> err_and r (\<lambda>_. True) | Pending \<Rightarrow> False) \<and>
         idle_for now liveness = 0)"

definition transient_logon_eresults_are_retryable :: bool where
  "transient_logon_eresults_are_retryable =
     list_all (\<lambda>er. is_logon_retryable (logon_rejection er []))
       [NO_CONNECTION, BUSY, TIMEOUT, SERVICE_UNAVAILABLE, TRY_ANOTHER_CM, RATE_LIMIT_EXCEEDED]"

definition try_another_cm_is_forty_eight :: bool where
  "try_another_cm_is_forty_eight \<longleftrightarrow>
     TRY_ANOTHER_CM = 48 \<and> logon_eresult_retryable 48 \<and> \<not> logon_eresult_retryable 42"

definition terminal_logon_eresults_are_auth_rejected :: bool where
  "terminal_logon_eresults_are_auth_rejected =
     list_all (\<lambda>er. is_auth_rejected (logon_rejection er [])) [5, 63, 85, 88, FAIL, 9999]"

lemma connection_tests:
  "read_frame_records_control_frames_as_activity" "read_frame_touches_liveness_on_a_pong_alone"
  "transient_logon_eresults_are_retryable" "try_another_cm_is_forty_eight" "terminal_logon_eresults_are_auth_rejected"
  by (simp_all add: read_frame_records_control_frames_as_activity_def read_frame_touches_liveness_on_a_pong_alone_def
      transient_logon_eresults_are_retryable_def try_another_cm_is_forty_eight_def
      terminal_logon_eresults_are_auth_rejected_def logon_rejection_def logon_eresult_retryable_def touch_def idle_for_def Let_def)

section \<open>driver.rs: the driver\<close>

definition test_msg :: "u32 \<Rightarrow> u64 option \<Rightarrow> bytes \<Rightarrow> steam_message" where
  "test_msg emsg jobid_target body =
     \<lparr>sm_emsg = emsg, sm_header = default_header\<lparr>hdr_jobid_target := jobid_target\<rparr>, sm_body = body\<rparr>"

text \<open>The driver of a test: an empty table, no events and no snapshots; the channels are numbered.\<close>

definition test_driver :: "driver \<Rightarrow> driver" where
  "test_driver d = d\<lparr>d_pending := [], d_events := [], d_snapshots := Map.empty, d_answers := [], d_closed := []\<rparr>"

definition pending_entry :: "channel \<Rightarrow> millis \<Rightarrow> pending" where
  "pending_entry ch deadline = \<lparr>pd_reply = ch, pd_deadline = deadline\<rparr>"

definition answered :: "driver \<Rightarrow> channel \<Rightarrow> (answer \<Rightarrow> bool) \<Rightarrow> bool" where
  "answered d ch p = some_and (map_of (d_answers d) ch) p"

definition reply_and :: "(steam_message result \<Rightarrow> bool) \<Rightarrow> answer \<Rightarrow> bool" where
  "reply_and p a = (case a of Reply r \<Rightarrow> p r | _ \<Rightarrow> False)"

definition dispatch_routes_reply_by_jobid :: "driver \<Rightarrow> bool" where
  "dispatch_routes_reply_by_jobid d =
     (let d' = dispatch ((test_driver d)\<lparr>d_pending := [(42, pending_entry 0 (d_now d + secs 60))]\<rparr>) (test_msg 751 (Some 42) [9])
      in d_pending d' = [] \<and> answered d' 0 (reply_and (\<lambda>r. ok_and r (\<lambda>m. sm_body m = [9]))))"

definition dispatch_broadcasts_unsolicited :: "driver \<Rightarrow> bool" where
  "dispatch_broadcasts_unsolicited d \<longleftrightarrow> map sm_body (d_events (dispatch (test_driver d) (test_msg 5 None [1, 2]))) = [[1, 2]]"

definition dispatch_unmatched_jobid_is_broadcast :: "driver \<Rightarrow> bool" where
  "dispatch_unmatched_jobid_is_broadcast d \<longleftrightarrow> map sm_body (d_events (dispatch (test_driver d) (test_msg 751 (Some 7) [3]))) = [[3]]"

definition dispatch_caches_first_snapshot_per_emsg :: "driver \<Rightarrow> bool" where
  "dispatch_caches_first_snapshot_per_emsg d =
     (let friends_list = POST_LOGIN_SNAPSHOT_EMSGS ! 0;
          d' = dispatch (dispatch (test_driver d) (test_msg friends_list None [1, 1])) (test_msg friends_list None [2, 2])
      in d_snapshots d' friends_list = Some [1, 1])"

definition dispatch_does_not_cache_unlisted_emsg :: "driver \<Rightarrow> bool" where
  "dispatch_does_not_cache_unlisted_emsg d \<longleftrightarrow> d_snapshots (dispatch (test_driver d) (test_msg 766 None [7])) = Map.empty"

lemma dispatch_tests:
  "dispatch_routes_reply_by_jobid d" "dispatch_broadcasts_unsolicited d" "dispatch_unmatched_jobid_is_broadcast d"
  "dispatch_caches_first_snapshot_per_emsg d" "dispatch_does_not_cache_unlisted_emsg d"
  by (simp_all add: dispatch_routes_reply_by_jobid_def dispatch_broadcasts_unsolicited_def
      dispatch_unmatched_jobid_is_broadcast_def dispatch_caches_first_snapshot_per_emsg_def
      dispatch_does_not_cache_unlisted_emsg_def dispatch_def test_driver_def pending_entry_def answered_def reply_and_def
      test_msg_def default_header_def take_pending_def tell_def POST_LOGIN_SNAPSHOT_EMSGS_def Let_def)

definition logged_off :: "(cmsg_client_logged_off \<Rightarrow> bytes) \<Rightarrow> i32 option \<Rightarrow> steam_message" where
  "logged_off enc eresult = test_msg EMSG_CLIENT_LOGGED_OFF None (enc \<lparr>lf_eresult = eresult\<rparr>)"

definition is_logged_off_exit :: "(string \<Rightarrow> bool) \<Rightarrow> loop_exit \<Rightarrow> bool" where
  "is_logged_off_exit p x = (case x of LoggedOffExit reason \<Rightarrow> p reason | _ \<Rightarrow> False)"

definition classify_logoff_treats_transient_eresults_as_disconnect :: "wire \<Rightarrow> (cmsg_client_logged_off \<Rightarrow> bytes) \<Rightarrow> bool" where
  "classify_logoff_treats_transient_eresults_as_disconnect W enc =
     list_all (\<lambda>er. classify_logoff W (logged_off enc (Some er)) = DisconnectedExit)
       [NO_CONNECTION, SERVICE_UNAVAILABLE, TRY_ANOTHER_CM]"

definition classify_logoff_heals_the_load_balancing_logoff :: "wire \<Rightarrow> (cmsg_client_logged_off \<Rightarrow> bytes) \<Rightarrow> bool" where
  "classify_logoff_heals_the_load_balancing_logoff W enc \<longleftrightarrow>
     classify_logoff W (logged_off enc (Some 48)) = DisconnectedExit \<and>
     is_logged_off_exit (\<lambda>_. True) (classify_logoff W (logged_off enc (Some 42)))"

definition classify_logoff_treats_other_eresults_as_terminal :: "wire \<Rightarrow> (cmsg_client_logged_off \<Rightarrow> bytes) \<Rightarrow> bool" where
  "classify_logoff_treats_other_eresults_as_terminal W enc =
     list_all (\<lambda>er. is_logged_off_exit (\<lambda>_. True) (classify_logoff W (logged_off enc (Some er)))) [1, 6, 34, FAIL]"

definition classify_logoff_defaults_missing_eresult_to_fail :: "wire \<Rightarrow> (cmsg_client_logged_off \<Rightarrow> bytes) \<Rightarrow> bool" where
  "classify_logoff_defaults_missing_eresult_to_fail W enc =
     is_logged_off_exit (\<lambda>reason. contains reason ''2'') (classify_logoff W (logged_off enc None))"

definition classify_logoff_reports_an_undecodable_body :: "wire \<Rightarrow> bool" where
  "classify_logoff_reports_an_undecodable_body W =
     is_logged_off_exit (\<lambda>reason. contains reason ''undecodable'')
       (classify_logoff W (test_msg EMSG_CLIENT_LOGGED_OFF None [0xFF, 0xFF]))"

lemma classify_tests:
  assumes "\<And>m. w_dec_logged_off W (enc m) = Inr m" "w_dec_logged_off W [0xFF, 0xFF] = Inl e"
  shows "classify_logoff_treats_transient_eresults_as_disconnect W enc" "classify_logoff_heals_the_load_balancing_logoff W enc"
    "classify_logoff_treats_other_eresults_as_terminal W enc" "classify_logoff_defaults_missing_eresult_to_fail W enc"
    "classify_logoff_reports_an_undecodable_body W"
  using assms
  by (simp_all add: classify_logoff_treats_transient_eresults_as_disconnect_def
      classify_logoff_heals_the_load_balancing_logoff_def classify_logoff_treats_other_eresults_as_terminal_def
      classify_logoff_defaults_missing_eresult_to_fail_def classify_logoff_reports_an_undecodable_body_def
      classify_logoff_def logged_off_def test_msg_def is_logged_off_exit_def show_int_def show_decimal contains_def starts_with_def Let_def)

definition sweep_fails_timed_out_requests :: "driver \<Rightarrow> bool" where
  "sweep_fails_timed_out_requests d =
     (let now = d_now d + secs 1;
          d' = sweep_pending ((test_driver d)\<lparr>d_now := now,
            d_pending := [(1, pending_entry 0 (now - secs 1)), (2, pending_entry 1 (now + secs 60))]\<rparr>)
      in map_of (d_pending d') 1 = None \<and> map_of (d_pending d') 2 \<noteq> None \<and>
         answered d' 0 (reply_and (\<lambda>r. err_and r is_timeout)))"

definition sweep_drops_abandoned_requests :: "driver \<Rightarrow> bool" where
  "sweep_drops_abandoned_requests d \<longleftrightarrow>
     d_pending (sweep_pending ((test_driver d)\<lparr>d_pending := [(1, pending_entry 0 (d_now d + secs 60))], d_closed := [0]\<rparr>)) = []"

definition commands_during_reconnect_are_answered_not_dropped :: "driver \<Rightarrow> bool" where
  "commands_during_reconnect_are_answered_not_dropped d =
     (let (stop, d1) = answer_while_down (Some (Request 1 [] (d_now d + secs 60) 0)) (test_driver d);
          (stop', d2) = answer_while_down (Some (Notify 1 [] 1)) d1
      in \<not> stop \<and> answered d2 0 (reply_and (\<lambda>r. err_and r (\<lambda>_. True))) \<and>
         \<not> stop' \<and> answered d2 1 (\<lambda>a. case a of Ack r \<Rightarrow> err_and r (\<lambda>_. True) | _ \<Rightarrow> False))"

definition logoff_and_dropped_handles_stop_the_reconnect_loop :: "driver \<Rightarrow> bool" where
  "logoff_and_dropped_handles_stop_the_reconnect_loop d =
     (let (stop, d') = answer_while_down (Some (Logoff 0)) (test_driver d)
      in stop \<and> answered d' 0 (\<lambda>a. a = LogoffAck) \<and> fst (answer_while_down None d'))"

definition fail_all_pending_frees_callers_on_a_terminal_exit :: "driver \<Rightarrow> bool" where
  "fail_all_pending_frees_callers_on_a_terminal_exit d =
     (let d' = fail_all_pending ''session driver stopped'' ((test_driver d)\<lparr>d_pending := [(1, pending_entry 0 (d_now d + secs 60))]\<rparr>)
      in d_pending d' = [] \<and>
         answered d' 0 (reply_and (\<lambda>r. err_and r (\<lambda>e. case e of WebSocket text \<Rightarrow> contains text ''driver stopped'' | _ \<Rightarrow> False))))"

lemma sweep_tests:
  "sweep_fails_timed_out_requests d" "sweep_drops_abandoned_requests d"
  "commands_during_reconnect_are_answered_not_dropped d" "logoff_and_dropped_handles_stop_the_reconnect_loop d"
  "fail_all_pending_frees_callers_on_a_terminal_exit d"
  by (simp_all add: sweep_fails_timed_out_requests_def sweep_drops_abandoned_requests_def
      commands_during_reconnect_are_answered_not_dropped_def logoff_and_dropped_handles_stop_the_reconnect_loop_def
      fail_all_pending_frees_callers_on_a_terminal_exit_def sweep_pending_def sweep_entry_def fail_all_pending_def
      test_driver_def pending_entry_def answered_def reply_and_def tell_def contains_def starts_with_def Let_def)

definition idle_timeout_follows_the_probe_interval_with_a_floor :: bool where
  "idle_timeout_follows_the_probe_interval_with_a_floor \<longleftrightarrow>
     idle_timeout (secs 30) = secs 30 * IDLE_PROBE_MISSES \<and> idle_timeout (secs 1) = MIN_IDLE_TIMEOUT"

text \<open>\<open>n\<close> probe intervals, in each of which only a pong arrives.\<close>

primrec probes_answered :: "nat \<Rightarrow> millis \<Rightarrow> millis \<Rightarrow> liveness \<Rightarrow> bool" where
  "probes_answered 0 heartbeat now liveness = True"
| "probes_answered (Suc n) heartbeat now liveness =
     (let now = now + heartbeat;
          liveness = snd (snd (read_frame [(now, WsItem (WsPong [])), (now, WsEnd)] liveness))
      in \<not> read_idle_expired now liveness heartbeat \<and> probes_answered n heartbeat now liveness)"

definition watchdog_does_not_trip_while_probes_are_answered :: bool where
  "watchdog_does_not_trip_while_probes_are_answered = probes_answered 20 (secs 9) 0 0"

definition watchdog_trips_when_no_frame_arrives_at_all :: bool where
  "watchdog_trips_when_no_frame_arrives_at_all =
     (let heartbeat = secs 9; early = idle_timeout heartbeat - 1
      in \<not> read_idle_expired early 0 heartbeat \<and> read_idle_expired (early + 1) 0 heartbeat)"

lemma probes_answered_holds: "probes_answered n (secs 9) now liveness"
  by (induction n arbitrary: now liveness)
    (simp_all add: touch_def idle_for_def read_idle_expired_def idle_timeout_def IDLE_PROBE_MISSES_def MIN_IDLE_TIMEOUT_def Let_def)

lemma watchdog_tests:
  "idle_timeout_follows_the_probe_interval_with_a_floor" "watchdog_does_not_trip_while_probes_are_answered"
  "watchdog_trips_when_no_frame_arrives_at_all"
  unfolding watchdog_does_not_trip_while_probes_are_answered_def
  by (simp_all only: probes_answered_holds)
    (simp_all add: idle_timeout_follows_the_probe_interval_with_a_floor_def watchdog_trips_when_no_frame_arrives_at_all_def
      read_idle_expired_def idle_timeout_def idle_for_def IDLE_PROBE_MISSES_def MIN_IDLE_TIMEOUT_def Let_def)

section \<open>driver.rs: the handle\<close>

text \<open>\<^verbatim>\<open>SessionHandle::for_test\<close>: a handle over channels whose other ends the test holds.  The environment of the
  handle is what the test does with them: the answers it gives, the messages it broadcasts, and the snapshots it
  stores.\<close>

definition for_test ::
    "u64 \<Rightarrow> (channel \<Rightarrow> (millis \<times> answer) option) \<Rightarrow> (nat \<Rightarrow> steam_message receiver) \<Rightarrow> (u32 \<Rightarrow> bytes option) \<Rightarrow> handle \<times> env" where
  "for_test sid answers events snapshots =
     (\<lparr>h_steam_id = sid, h_now = 0, h_sent = [], h_next = 0, h_looks = 0\<rparr>,
      \<lparr>en_running = \<lambda>_. True, en_answers = answers, en_events = events, en_snapshots = \<lambda>_. snapshots,
       en_state = \<lambda>_. LoggedOn sid\<rparr>)"

definition reply_msg :: "i32 option \<Rightarrow> string option \<Rightarrow> steam_message" where
  "reply_msg eresult error_message =
     \<lparr>sm_emsg = 751, sm_header = default_header\<lparr>hdr_eresult := eresult, hdr_error_message := error_message\<rparr>, sm_body = []\<rparr>"

definition reply_without_eresult_is_ok :: bool where
  "reply_without_eresult_is_ok \<longleftrightarrow>
     ok_and (check_reply_eresult (reply_msg None None)) (\<lambda>_. True) \<and>
     ok_and (check_reply_eresult (reply_msg (Some OK) None)) (\<lambda>_. True)"

definition reply_with_non_ok_eresult_is_remote_error :: bool where
  "reply_with_non_ok_eresult_is_remote_error =
     err_and (check_reply_eresult (reply_msg (Some FAIL) None)) (\<lambda>e.
       case e of Remote text \<Rightarrow> contains text ''751'' \<and> contains text ''eresult 2'' | _ \<Rightarrow> False)"

definition reply_error_message_is_folded_in :: bool where
  "reply_error_message_is_folded_in =
     err_and (check_reply_eresult (reply_msg (Some 15) (Some ''access denied''))) (remote_with ''access denied'')"

definition request_deadline_is_enforced_caller_side :: "wire \<Rightarrow> bool" where
  "request_deadline_is_enforced_caller_side W =
     (let (handle, E) = for_test 7 Map.empty (\<lambda>_. []) Map.empty;
          (r, handle') = request_with_timeout E handle 123 (w_enc_header W default_header) 50 (w_dec_header W)
      in err_and r is_timeout \<and> h_now handle' = 50)"

definition request_ignoring_eresult_leaves_the_result_to_the_caller :: "wire \<Rightarrow> bool" where
  "request_ignoring_eresult_leaves_the_result_to_the_caller W =
     (let (handle, E) = for_test 7 (\<lambda>_. Some (0, Reply (Inr (reply_msg (Some 29) None)))) (\<lambda>_. []) Map.empty;
          (checked, handle) = request E handle 1 (w_enc_header W default_header) (w_dec_header W);
          (unchecked, handle) = request_ignoring_eresult E handle 1 (w_enc_header W default_header) (w_dec_header W)
      in err_and checked is_remote \<and> ok_and unchecked (\<lambda>h. h = default_header))"

definition for_test_handle_queues_commands :: "wire \<Rightarrow> bool" where
  "for_test_handle_queues_commands W =
     (let (handle, E) = for_test 7 (\<lambda>_. Some (0, Ack (Inr ()))) (\<lambda>_. []) Map.empty;
          (acked, handle') = notify E handle 123 (w_enc_header W default_header)
      in steam_id handle = 7 \<and> acked = Ready (Inr ()) \<and>
         map (\<lambda>c. fst (command_frame c)) (h_sent handle') = [123] \<and>
         list_all (\<lambda>emsg. fst (cached_snapshot E handle' emsg) = None) POST_LOGIN_SNAPSHOT_EMSGS)"

lemma reply_tests:
  "reply_without_eresult_is_ok" "reply_with_non_ok_eresult_is_remote_error" "reply_error_message_is_folded_in"
  by (simp_all add: reply_without_eresult_is_ok_def reply_with_non_ok_eresult_is_remote_error_def
      reply_error_message_is_folded_in_def check_reply_eresult_def reply_msg_def default_header_def remote_with_def
      show_word_def show_int_def show_decimal contains_def starts_with_def)

text \<open>prost decodes an empty body to the default message.\<close>

lemma handle_tests:
  assumes "w_dec_header W [] = Inr default_header"
  shows "request_deadline_is_enforced_caller_side W" "request_ignoring_eresult_leaves_the_result_to_the_caller W"
    "for_test_handle_queues_commands W"
proof -
  have "check_reply_eresult (reply_msg (Some 29) None) = Inl (Remote ''emsg 751: eresult 29'')"
    by (simp add: check_reply_eresult_def reply_msg_def default_header_def show_word_def show_int_def show_decimal)
  then show "request_ignoring_eresult_leaves_the_result_to_the_caller W" using assms
    by (simp add: request_ignoring_eresult_leaves_the_result_to_the_caller_def for_test_def request_def
        request_with_timeout_def request_ignoring_eresult_def dispatch_request_def round_trip_def queue_command_def
        judge_reply_def Let_def) (simp add: reply_msg_def)
  show "request_deadline_is_enforced_caller_side W" "for_test_handle_queues_commands W"
    by (simp_all add: request_deadline_is_enforced_caller_side_def for_test_handle_queues_commands_def for_test_def
        request_with_timeout_def dispatch_request_def round_trip_def queue_command_def notify_def steam_id_def
        cached_snapshot_def list_all_iff Let_def)
qed

end
