(* ===== verification/Tests_Services.thy ===== *)
theory Tests_Services
  imports Tests_Session Friends Persona Cs2 Pool
begin

text \<open>
  The unit tests of \<^verbatim>\<open>persona.rs\<close>, \<^verbatim>\<open>friends.rs\<close>, \<^verbatim>\<open>gc/envelope.rs\<close>, \<^verbatim>\<open>gc/coordinator.rs\<close>, \<^verbatim>\<open>cs2.rs\<close> and
  \<^verbatim>\<open>pool.rs\<close>.  The tests of \<^verbatim>\<open>friends.rs\<close> that encode a generated message and decode it again, with no code of
  the crate in between, are tests of prost and are left out.
\<close>

section \<open>persona.rs\<close>

definition STEAM_ID :: u64 where "STEAM_ID = 76561198702770421"

definition profile_url_uses_profiles_path :: bool where
  "profile_url_uses_profiles_path \<longleftrightarrow> profile_url STEAM_ID = ''https://steamcommunity.com/profiles/76561198702770421''"

definition avatar_url_hex_encodes_hash :: bool where
  "avatar_url_hex_encodes_hash =
     (let hash = [0x01, 0xAB, 0xFF, 0x00]
      in avatar_url hash = ''https://avatars.steamstatic.com/01abff00_full.jpg'' \<and>
         avatar_url_sized hash Medium = ''https://avatars.steamstatic.com/01abff00_medium.jpg'' \<and>
         avatar_url_sized hash Small = ''https://avatars.steamstatic.com/01abff00.jpg'')"

definition empty_or_zero_hash_uses_default_avatar :: bool where
  "empty_or_zero_hash_uses_default_avatar =
     (let expected = AVATAR_HOST @ DEFAULT_AVATAR_HASH @ ''_full.jpg''
      in avatar_url [] = expected \<and> avatar_url [0, 0, 0, 0, 0] = expected)"

definition persona_state_maps_known_values :: bool where
  "persona_state_maps_known_values \<longleftrightarrow>
     state_from_raw 0 = Offline \<and> state_from_raw 1 = Online \<and> state_from_raw 7 = Invisible \<and>
     state_from_raw 99 = UnknownState 99"

definition default_friend :: persona_friend where
  "default_friend = \<lparr>pr_friendid = None, pr_persona_state = None, pr_game_played_app_id = None, pr_player_name = None,
     pr_avatar_hash = None, pr_game_name = None, pr_gameid = None\<rparr>"

definition state_message :: "(cmsg_client_persona_state \<Rightarrow> bytes) \<Rightarrow> cmsg_client_persona_state \<Rightarrow> steam_message" where
  "state_message enc st = \<lparr>sm_emsg = EMSG_CLIENT_PERSONA_STATE, sm_header = default_header, sm_body = enc st\<rparr>"

definition summary_extracts_the_requested_friend :: "persona_wire \<Rightarrow> (cmsg_client_persona_state \<Rightarrow> bytes) \<Rightarrow> bool" where
  "summary_extracts_the_requested_friend P enc =
     (let st = \<lparr>cs_status_flags = Some PERSONA_FLAGS,
        cs_friends = [default_friend\<lparr>pr_friendid := Some 999, pr_player_name := Some ''someone else''\<rparr>,
          default_friend\<lparr>pr_friendid := Some STEAM_ID, pr_persona_state := Some 1, pr_player_name := Some ''roidbot'',
            pr_avatar_hash := Some [0xDE, 0xAD, 0xBE, 0xEF], pr_game_played_app_id := Some 730,
            pr_game_name := Some ''Counter-Strike 2''\<rparr>]\<rparr>
      in ok_and (summary_from_persona_state P (state_message enc st) STEAM_ID) (\<lambda>found. some_and found (\<lambda>summary.
           ps_persona_name summary = ''roidbot'' \<and> ps_state summary = Online \<and> ps_avatar_hash summary = ''deadbeef'' \<and>
           ends_with ''deadbeef_full.jpg'' (ps_avatar_url summary) \<and>
           some_and (ps_current_game summary) (\<lambda>game. ga_app_id game = 730 \<and> ga_name game = ''Counter-Strike 2''))))"

definition extract_steam_id64_parses_community_xml :: bool where
  "extract_steam_id64_parses_community_xml \<longleftrightarrow>
     extract_steam_id64 (''<?xml version='' @ [CHR 0x27] @ ''1.0'' @ [CHR 0x27] @ ''?><profile><steamID64>76561197960287930</steamID64><steamID>'' @
       ''<![CDATA[Rabscuttle]]></steamID></profile>'') = Some 76561197960287930"

definition extract_steam_id64_none_when_absent :: bool where
  "extract_steam_id64_none_when_absent \<longleftrightarrow>
     extract_steam_id64 ''<response><error>No match</error></response>'' = None"

definition summary_absent_when_the_player_name_bit_is_missing ::
    "persona_wire \<Rightarrow> (cmsg_client_persona_state \<Rightarrow> bytes) \<Rightarrow> bool" where
  "summary_absent_when_the_player_name_bit_is_missing P enc =
     (let st = \<lparr>cs_status_flags = Some 1,
        cs_friends = [default_friend\<lparr>pr_friendid := Some STEAM_ID, pr_persona_state := Some 1\<rparr>]\<rparr>
      in ok_and (summary_from_persona_state P (state_message enc st) STEAM_ID) (\<lambda>found. found = None))"

definition summary_accepts_a_player_name_only_reply :: "persona_wire \<Rightarrow> (cmsg_client_persona_state \<Rightarrow> bytes) \<Rightarrow> bool" where
  "summary_accepts_a_player_name_only_reply P enc =
     (let st = \<lparr>cs_status_flags = Some 2,
        cs_friends = [default_friend\<lparr>pr_friendid := Some STEAM_ID, pr_player_name := Some ''stranger'',
          pr_avatar_hash := Some [0xDE, 0xAD, 0xBE, 0xEF]\<rparr>]\<rparr>
      in ok_and (summary_from_persona_state P (state_message enc st) STEAM_ID) (\<lambda>found. some_and found (\<lambda>summary.
           ps_persona_name summary = ''stranger'' \<and> ps_avatar_hash summary = ''deadbeef'' \<and>
           ps_state summary = Offline \<and> ps_current_game summary = None)))"

definition default_profile_response :: cmsg_client_friend_profile_info_response where
  "default_profile_response = \<lparr>fp_eresult = None, fp_steamid_friend = None, fp_time_created = None, fp_real_name = None,
     fp_city_name = None, fp_state_name = None, fp_country_name = None, fp_summary = None\<rparr>"

definition profile_info_rejects_non_ok_eresult :: bool where
  "profile_info_rejects_non_ok_eresult =
     err_and (profile_info_from_response (default_profile_response\<lparr>fp_eresult := Some 40\<rparr>) STEAM_ID) (remote_with ''eresult 40'')"

definition profile_info_missing_eresult_is_the_proto2_fail_default :: bool where
  "profile_info_missing_eresult_is_the_proto2_fail_default \<longleftrightarrow>
     fp_eresult default_profile_response = None \<and>
     err_and (profile_info_from_response default_profile_response STEAM_ID) (remote_with ''eresult 2'')"

definition profile_info_normalizes_empty_strings :: bool where
  "profile_info_normalizes_empty_strings =
     ok_and (profile_info_from_response (default_profile_response\<lparr>fp_eresult := Some OK, fp_real_name := Some ''Gabe'',
       fp_city_name := Some [], fp_time_created := Some 0\<rparr>) STEAM_ID) (\<lambda>info.
       pi_steam_id info = STEAM_ID \<and> pi_real_name info = Some ''Gabe'' \<and> pi_city info = None \<and> pi_created_at info = None)"

definition summary_absent_when_friend_missing :: "persona_wire \<Rightarrow> (cmsg_client_persona_state \<Rightarrow> bytes) \<Rightarrow> bool" where
  "summary_absent_when_friend_missing P enc =
     ok_and (summary_from_persona_state P (state_message enc \<lparr>cs_status_flags = Some PERSONA_FLAGS, cs_friends = []\<rparr>) STEAM_ID)
       (\<lambda>found. found = None)"

lemma avatar_tests:
  "avatar_url_hex_encodes_hash" "empty_or_zero_hash_uses_default_avatar" "persona_state_maps_known_values"
  by code_simp+

lemma address_of_profile_test: "profile_url_uses_profiles_path"
  by (simp add: profile_url_uses_profiles_path_def profile_url_def STEAM_ID_def show_word_def show_decimal)

lemma steam_id64_tests: "extract_steam_id64_parses_community_xml" "extract_steam_id64_none_when_absent"
proof -
  have "show_word (76561197960287930 :: u64) = ''76561197960287930''" by (simp add: show_word_def show_decimal)
  then have "parse_u64 ''76561197960287930'' = Inr 76561197960287930" using parse_u64_show [of 76561197960287930] by simp
  moreover have "trim ''76561197960287930'' = ''76561197960287930''" by code_simp
  ultimately show "extract_steam_id64_parses_community_xml"
    by (simp add: extract_steam_id64_parses_community_xml_def extract_steam_id64_def starts_with_def)
  show "extract_steam_id64_none_when_absent" by code_simp
qed

lemma summary_tests:
  assumes "\<And>st. pw_dec_persona_state P (enc st) = Inr st"
  shows "summary_extracts_the_requested_friend P enc" "summary_absent_when_the_player_name_bit_is_missing P enc"
    "summary_accepts_a_player_name_only_reply P enc" "summary_absent_when_friend_missing P enc"
proof -
  have hex: "hash_to_hex [0xDE, 0xAD, 0xBE, 0xEF] = ''deadbeef''" by code_simp
  have flags: "PERSONA_FLAGS AND REQUIRED_SUMMARY_FLAGS = REQUIRED_SUMMARY_FLAGS" by code_simp
  show "summary_extracts_the_requested_friend P enc" "summary_absent_when_the_player_name_bit_is_missing P enc"
    "summary_accepts_a_player_name_only_reply P enc" "summary_absent_when_friend_missing P enc"
    using assms
    by (simp_all add: summary_extracts_the_requested_friend_def summary_absent_when_the_player_name_bit_is_missing_def
        summary_accepts_a_player_name_only_reply_def summary_absent_when_friend_missing_def summary_from_persona_state_def
        state_message_def default_friend_def STEAM_ID_def hex flags state_from_raw_def avatar_url_def avatar_url_sized_def
        AVATAR_HOST_def ends_with_def starts_with_def Let_def) (simp_all add: REQUIRED_SUMMARY_FLAGS_def)
qed

lemma profile_info_tests:
  "profile_info_rejects_non_ok_eresult" "profile_info_missing_eresult_is_the_proto2_fail_default"
  "profile_info_normalizes_empty_strings"
  by (simp_all add: profile_info_rejects_non_ok_eresult_def profile_info_missing_eresult_is_the_proto2_fail_default_def
      profile_info_normalizes_empty_strings_def profile_info_from_response_def default_profile_response_def remote_with_def
      some_if_set_def contains_def starts_with_def show_int_def show_decimal)

section \<open>friends.rs: the lists\<close>

definition relationship_maps_known_values :: bool where
  "relationship_maps_known_values \<longleftrightarrow>
     relationship_from_raw 0 = NoRelationship \<and> relationship_from_raw 3 = IsFriend \<and>
     relationship_from_raw 4 = RequestInitiator \<and> relationship_from_raw 42 = UnknownRelationship 42"

definition friends_from_maps_entries_and_skips_idless :: bool where
  "friends_from_maps_entries_and_skips_idless =
     (let friends = friends_from \<lparr>fl_bincremental = Some False,
        fl_friends = [\<lparr>pf_ulfriendid = Some 111, pf_efriendrelationship = Some 3\<rparr>,
          \<lparr>pf_ulfriendid = Some 222, pf_efriendrelationship = Some 2\<rparr>, \<lparr>pf_ulfriendid = None, pf_efriendrelationship = Some 3\<rparr>]\<rparr>
      in length friends = 2 \<and> fr_steam_id (friends ! 0) = 111 \<and> fr_relationship (friends ! 0) = IsFriend \<and>
         fr_relationship (friends ! 1) = RequestRecipient)"

definition friends_list_round_trips_through_a_frame :: "friends_wire \<Rightarrow> (cmsg_client_friends_list \<Rightarrow> bytes) \<Rightarrow> bool" where
  "friends_list_round_trips_through_a_frame F enc =
     (let body = enc \<lparr>fl_bincremental = Some False,
            fl_friends = [\<lparr>pf_ulfriendid = Some 76561198000000000, pf_efriendrelationship = Some 3\<rparr>]\<rparr>;
          msg = \<lparr>sm_emsg = EMSG_CLIENT_FRIENDS_LIST, sm_header = default_header, sm_body = body\<rparr>
      in ok_and (fw_dec_friends_list F (sm_body msg)) (\<lambda>decoded.
           let friends = friends_from decoded
           in length friends = 1 \<and> fr_steam_id (friends ! 0) = 76561198000000000))"

definition nicknames_from_maps_entries_and_skips_idless :: bool where
  "nicknames_from_maps_entries_and_skips_idless =
     (let nicks = nicknames_from \<lparr>nl_removal = Some False, nl_incremental = Some False,
        nl_nicknames = [\<lparr>pn_steamid = Some 111, pn_nickname = Some ''rival''\<rparr>, \<lparr>pn_steamid = Some 222, pn_nickname = Some []\<rparr>,
          \<lparr>pn_steamid = None, pn_nickname = Some ''ghost''\<rparr>]\<rparr>
      in length nicks = 2 \<and> nk_steam_id (nicks ! 0) = 111 \<and> nk_nickname (nicks ! 0) = ''rival'' \<and>
         nk_steam_id (nicks ! 1) = 222 \<and> nk_nickname (nicks ! 1) = [])"

definition nicknames_list_round_trips_through_a_frame ::
    "friends_wire \<Rightarrow> (cmsg_client_player_nickname_list \<Rightarrow> bytes) \<Rightarrow> bool" where
  "nicknames_list_round_trips_through_a_frame F enc =
     ok_and (fw_dec_nickname_list F (enc \<lparr>nl_removal = Some False, nl_incremental = Some False,
         nl_nicknames = [\<lparr>pn_steamid = Some 76561198000000000, pn_nickname = Some ''old buddy''\<rparr>]\<rparr>)) (\<lambda>decoded.
       let msg = \<lparr>sm_emsg = EMSG_CLIENT_PLAYER_NICKNAME_LIST, sm_header = default_header, sm_body = enc decoded\<rparr>
       in ok_and (fw_dec_nickname_list F (sm_body msg)) (\<lambda>l.
            let nicks = nicknames_from l in length nicks = 1 \<and> nk_nickname (nicks ! 0) = ''old buddy''))"

definition groups_from_maps_entries_to_memberships :: bool where
  "groups_from_maps_entries_to_memberships =
     (let groups = groups_from \<lparr>gl_bremoval = Some False, gl_bincremental = Some False,
        gl_friend_groups = [\<lparr>pg_n_group_id = Some 1, pg_str_group_name = Some ''cs2 duo partners''\<rparr>,
          \<lparr>pg_n_group_id = Some 2, pg_str_group_name = Some ''work friends''\<rparr>,
          \<lparr>pg_n_group_id = None, pg_str_group_name = Some ''ghost''\<rparr>],
        gl_memberships = [\<lparr>pm_ul_steam_id = Some 11, pm_n_group_id = Some 1\<rparr>, \<lparr>pm_ul_steam_id = Some 22, pm_n_group_id = Some 1\<rparr>,
          \<lparr>pm_ul_steam_id = Some 33, pm_n_group_id = Some 2\<rparr>]\<rparr>
      in length groups = 2 \<and> fg_group_id (groups ! 0) = 1 \<and> fg_name (groups ! 0) = ''cs2 duo partners'' \<and>
         fg_members (groups ! 0) = [11, 22] \<and> fg_group_id (groups ! 1) = 2 \<and> fg_members (groups ! 1) = [33])"

definition groups_list_round_trips_through_a_frame ::
    "friends_wire \<Rightarrow> (cmsg_client_friends_groups_list \<Rightarrow> bytes) \<Rightarrow> bool" where
  "groups_list_round_trips_through_a_frame F enc =
     (let body = enc \<lparr>gl_bremoval = Some False, gl_bincremental = Some False,
            gl_friend_groups = [\<lparr>pg_n_group_id = Some 99, pg_str_group_name = Some ''squad''\<rparr>],
            gl_memberships = [\<lparr>pm_ul_steam_id = Some 76561198000000000, pm_n_group_id = Some 99\<rparr>]\<rparr>;
          msg = \<lparr>sm_emsg = EMSG_CLIENT_FRIENDS_GROUPS_LIST, sm_header = default_header, sm_body = body\<rparr>
      in ok_and (fw_dec_groups_list F (sm_body msg)) (\<lambda>decoded.
           let groups = groups_from decoded
           in length groups = 1 \<and> fg_name (groups ! 0) = ''squad'' \<and> fg_members (groups ! 0) = [76561198000000000]))"

definition emsg_constants_match_upstream_proto :: bool where
  "emsg_constants_match_upstream_proto \<longleftrightarrow>
     EMSG_CLIENT_FRIEND_MSG = 718 \<and> EMSG_CLIENT_HIDE_FRIEND = 5552 \<and> EMSG_CLIENT_FRIENDS_GROUPS_LIST = 5553 \<and>
     EMSG_CLIENT_PLAYER_NICKNAME_LIST = 5587 \<and> EMSG_AM_CLIENT_SET_PLAYER_NICKNAME = 5588 \<and>
     EMSG_AM_CLIENT_CREATE_FRIENDS_GROUP = 5560 \<and> EMSG_AM_CLIENT_DELETE_FRIENDS_GROUP = 5562 \<and>
     EMSG_AM_CLIENT_MANAGE_FRIENDS_GROUP = 5564 \<and> EMSG_AM_CLIENT_ADD_FRIEND_TO_GROUP = 5566 \<and>
     EMSG_AM_CLIENT_REMOVE_FRIEND_FROM_GROUP = 5568"

definition chat_entry_type_round_trips_wire_values :: bool where
  "chat_entry_type_round_trips_wire_values \<longleftrightarrow>
     chat_raw Text = 1 \<and> chat_raw Typing = 2 \<and> chat_raw InviteGame = 3 \<and>
     list_all (\<lambda>entry. chat_from_raw (chat_raw entry) = entry) [Text, Typing, InviteGame, UnknownEntry 11]"

definition full_nickname_list_excludes_deltas_and_removals :: bool where
  "full_nickname_list_excludes_deltas_and_removals =
     (let nickname_list = (\<lambda>removal incremental. \<lparr>nl_removal = removal, nl_incremental = incremental, nl_nicknames = []\<rparr>)
      in is_full_nicknames (nickname_list (Some False) (Some False)) \<and> is_full_nicknames (nickname_list None None) \<and>
         \<not> is_full_nicknames (nickname_list (Some True) (Some False)) \<and>
         \<not> is_full_nicknames (nickname_list (Some False) (Some True)))"

definition full_groups_list_excludes_deltas_and_removals :: bool where
  "full_groups_list_excludes_deltas_and_removals =
     (let groups_list = (\<lambda>bremoval bincremental. \<lparr>gl_bremoval = bremoval, gl_bincremental = bincremental,
            gl_friend_groups = [], gl_memberships = []\<rparr>)
      in is_full_groups (groups_list (Some False) (Some False)) \<and> is_full_groups (groups_list None None) \<and>
         \<not> is_full_groups (groups_list (Some True) (Some False)) \<and>
         \<not> is_full_groups (groups_list (Some False) (Some True)))"

lemma list_tests:
  "relationship_maps_known_values" "friends_from_maps_entries_and_skips_idless"
  "nicknames_from_maps_entries_and_skips_idless" "groups_from_maps_entries_to_memberships"
  "emsg_constants_match_upstream_proto" "chat_entry_type_round_trips_wire_values"
  "full_nickname_list_excludes_deltas_and_removals" "full_groups_list_excludes_deltas_and_removals"
  by (simp_all add: relationship_maps_known_values_def friends_from_maps_entries_and_skips_idless_def
      nicknames_from_maps_entries_and_skips_idless_def groups_from_maps_entries_to_memberships_def
      emsg_constants_match_upstream_proto_def chat_entry_type_round_trips_wire_values_def
      full_nickname_list_excludes_deltas_and_removals_def full_groups_list_excludes_deltas_and_removals_def
      friends_from_def nicknames_from_def groups_from_def relationship_from_raw_def chat_from_raw_def
      is_full_nicknames_def is_full_groups_def emsg_defs List.map_filter_simps)

lemma pushed_list_tests:
  assumes "\<And>l. fw_dec_friends_list F (enc_f l) = Inr l" "\<And>l. fw_dec_nickname_list F (enc_n l) = Inr l"
    "\<And>l. fw_dec_groups_list F (enc_g l) = Inr l"
  shows "friends_list_round_trips_through_a_frame F enc_f" "nicknames_list_round_trips_through_a_frame F enc_n"
    "groups_list_round_trips_through_a_frame F enc_g"
  using assms
  by (simp_all add: friends_list_round_trips_through_a_frame_def nicknames_list_round_trips_through_a_frame_def
      groups_list_round_trips_through_a_frame_def friends_from_def nicknames_from_def groups_from_def List.map_filter_simps)

section \<open>friends.rs: responses\<close>

text \<open>An operation on a handle whose single request is answered; no result if the request is not the expected one.\<close>

definition answer_one_with_header ::
    "bytes \<Rightarrow> cmsg_proto_buf_header \<Rightarrow> u32 \<Rightarrow> (env \<Rightarrow> handle \<Rightarrow> 'a \<times> handle) \<Rightarrow> 'a option" where
  "answer_one_with_header body header expect_emsg op =
     (let reply = \<lparr>sm_emsg = expect_emsg, sm_header = header, sm_body = body\<rparr>;
          (handle, E) = for_test 7 (\<lambda>_. Some (0, Reply (Inr reply))) (\<lambda>_. []) Map.empty;
          (r, handle) = op E handle
      in case h_sent handle of
           [Request emsg _ _ _] \<Rightarrow> if emsg = expect_emsg then Some r else None
         | _ \<Rightarrow> None)"

definition answer_one :: "bytes \<Rightarrow> u32 \<Rightarrow> (env \<Rightarrow> handle \<Rightarrow> 'a \<times> handle) \<Rightarrow> 'a option" where
  "answer_one body expect_emsg op = answer_one_with_header body default_header expect_emsg op"

definition add_friend_answered ::
    "friends_wire \<Rightarrow> (cmsg_client_add_friend_response \<Rightarrow> bytes) \<Rightarrow> cmsg_client_add_friend_response \<Rightarrow> added_friend result option" where
  "add_friend_answered F enc response =
     answer_one (enc response) EMSG_CLIENT_ADD_FRIEND (\<lambda>E h. add_friend F E h 76561198000000001)"

definition add_friend_accepts_ok :: "friends_wire \<Rightarrow> (cmsg_client_add_friend_response \<Rightarrow> bytes) \<Rightarrow> bool" where
  "add_friend_accepts_ok F enc =
     some_and (add_friend_answered F enc \<lparr>ar_eresult = Some OK, ar_steam_id_added = Some 111, ar_persona_name_added = Some ''mate''\<rparr>)
       (\<lambda>r. ok_and r (\<lambda>added. ad_steam_id added = 111 \<and> ad_persona_name added = ''mate'' \<and> ad_eresult added = OK))"

definition add_friend_accepts_duplicate_request :: "friends_wire \<Rightarrow> (cmsg_client_add_friend_response \<Rightarrow> bytes) \<Rightarrow> bool" where
  "add_friend_accepts_duplicate_request F enc =
     some_and (add_friend_answered F enc \<lparr>ar_eresult = Some DUPLICATE_REQUEST, ar_steam_id_added = Some 222, ar_persona_name_added = None\<rparr>)
       (\<lambda>r. ok_and r (\<lambda>added. ad_steam_id added = 222 \<and> ad_eresult added = DUPLICATE_REQUEST))"

definition add_friend_ignores_a_non_ok_header_eresult :: "friends_wire \<Rightarrow> (cmsg_client_add_friend_response \<Rightarrow> bytes) \<Rightarrow> bool" where
  "add_friend_ignores_a_non_ok_header_eresult F enc =
     (let response = \<lparr>ar_eresult = Some DUPLICATE_REQUEST, ar_steam_id_added = Some 555, ar_persona_name_added = Some ''old mate''\<rparr>;
          header = default_header\<lparr>hdr_eresult := Some DUPLICATE_REQUEST\<rparr>
      in some_and (answer_one_with_header (enc response) header EMSG_CLIENT_ADD_FRIEND (\<lambda>E h. add_friend F E h 76561198000000001))
           (\<lambda>r. ok_and r (\<lambda>added. ad_steam_id added = 555 \<and> ad_eresult added = DUPLICATE_REQUEST)))"

definition add_friend_rejects_non_ok_eresult_carrying_a_steam_id ::
    "friends_wire \<Rightarrow> (cmsg_client_add_friend_response \<Rightarrow> bytes) \<Rightarrow> bool" where
  "add_friend_rejects_non_ok_eresult_carrying_a_steam_id F enc =
     some_and (add_friend_answered F enc \<lparr>ar_eresult = Some 25, ar_steam_id_added = Some 333, ar_persona_name_added = Some ''stranger''\<rparr>)
       (\<lambda>r. err_and r (remote_with ''eresult 25''))"

definition add_friend_rejects_ok_without_a_steam_id :: "friends_wire \<Rightarrow> (cmsg_client_add_friend_response \<Rightarrow> bytes) \<Rightarrow> bool" where
  "add_friend_rejects_ok_without_a_steam_id F enc =
     some_and (add_friend_answered F enc \<lparr>ar_eresult = Some OK, ar_steam_id_added = None, ar_persona_name_added = None\<rparr>)
       (\<lambda>r. err_and r is_remote)"

definition add_friend_defaults_a_missing_eresult_to_fail :: "friends_wire \<Rightarrow> (cmsg_client_add_friend_response \<Rightarrow> bytes) \<Rightarrow> bool" where
  "add_friend_defaults_a_missing_eresult_to_fail F enc =
     some_and (add_friend_answered F enc \<lparr>ar_eresult = None, ar_steam_id_added = Some 444, ar_persona_name_added = None\<rparr>)
       (\<lambda>r. err_and r (remote_with ''eresult 2''))"

definition create_group_answered ::
    "friends_wire \<Rightarrow> (cmsg_client_create_friends_group_response \<Rightarrow> bytes) \<Rightarrow> cmsg_client_create_friends_group_response \<Rightarrow>
     new_friends_group result option" where
  "create_group_answered F enc response =
     answer_one (enc response) EMSG_AM_CLIENT_CREATE_FRIENDS_GROUP (\<lambda>E h. create_friends_group F E h ''squad'' [])"

definition create_friends_group_keeps_a_zero_group_id ::
    "friends_wire \<Rightarrow> (cmsg_client_create_friends_group_response \<Rightarrow> bytes) \<Rightarrow> bool" where
  "create_friends_group_keeps_a_zero_group_id F enc =
     some_and (create_group_answered F enc \<lparr>gr_eresult = Some 1, gr_groupid = Some 0\<rparr>) (\<lambda>r.
       ok_and r (\<lambda>group. ng_group_id group = 0 \<and> ng_name group = ''squad''))"

definition create_friends_group_rejects_a_missing_group_id ::
    "friends_wire \<Rightarrow> (cmsg_client_create_friends_group_response \<Rightarrow> bytes) \<Rightarrow> bool" where
  "create_friends_group_rejects_a_missing_group_id F enc =
     some_and (create_group_answered F enc \<lparr>gr_eresult = Some 1, gr_groupid = None\<rparr>) (\<lambda>r. err_and r is_remote)"

text \<open>An operation whose single notification is acknowledged: what it sent, and its result.\<close>

definition ack_one :: "(env \<Rightarrow> handle \<Rightarrow> 'a \<times> handle) \<Rightarrow> (u32 \<times> bytes \<times> 'a) option" where
  "ack_one op =
     (let (handle, E) = for_test 7 (\<lambda>_. Some (0, Ack (Inr ()))) (\<lambda>_. []) Map.empty; (r, handle) = op E handle
      in case h_sent handle of [Notify emsg body _] \<Rightarrow> Some (emsg, body, r) | _ \<Rightarrow> None)"

definition send_message_tags_the_frame_from_chat_entry_type ::
    "friends_wire \<Rightarrow> (bytes \<Rightarrow> string + cmsg_client_friend_msg) \<Rightarrow> bool" where
  "send_message_tags_the_frame_from_chat_entry_type F dec =
     some_and (ack_one (\<lambda>E h. send_message F E h 111 ''gg'')) (\<lambda>(emsg, body, r).
       emsg = EMSG_CLIENT_FRIEND_MSG \<and>
       ok_and (dec body) (\<lambda>sent. fm_chat_entry_type sent = Some (chat_raw Text) \<and> fm_message sent = Some (as_bytes ''gg'')) \<and>
       r = Ready (Inr ()))"

definition send_typing_tags_the_frame_from_chat_entry_type ::
    "friends_wire \<Rightarrow> (bytes \<Rightarrow> string + cmsg_client_friend_msg) \<Rightarrow> bool" where
  "send_typing_tags_the_frame_from_chat_entry_type F dec =
     some_and (ack_one (\<lambda>E h. send_typing F E h 111)) (\<lambda>(emsg, body, r).
       ok_and (dec body) (\<lambda>sent. fm_chat_entry_type sent = Some (chat_raw Typing) \<and> fm_message sent = None) \<and>
       r = Ready (Inr ()))"

lemmas seam_eval = for_test_def request_def request_with_timeout_def request_ignoring_eresult_def dispatch_request_def
  round_trip_def queue_command_def notify_def judge_reply_def check_reply_eresult_def default_header_def

lemma add_friend_tests:
  assumes "\<And>m. fw_dec_add_friend F (enc m) = Inr m"
  shows "add_friend_accepts_ok F enc" "add_friend_accepts_duplicate_request F enc"
    "add_friend_ignores_a_non_ok_header_eresult F enc" "add_friend_rejects_non_ok_eresult_carrying_a_steam_id F enc"
    "add_friend_rejects_ok_without_a_steam_id F enc" "add_friend_defaults_a_missing_eresult_to_fail F enc"
  using assms
  by (simp_all add: add_friend_accepts_ok_def add_friend_accepts_duplicate_request_def
      add_friend_ignores_a_non_ok_header_eresult_def add_friend_rejects_non_ok_eresult_carrying_a_steam_id_def
      add_friend_rejects_ok_without_a_steam_id_def add_friend_defaults_a_missing_eresult_to_fail_def
      add_friend_answered_def answer_one_def answer_one_with_header_def add_friend_def add_def seam_eval
      remote_with_def contains_def starts_with_def show_int_def show_decimal)

lemma group_and_chat_tests:
  assumes "\<And>m. fw_dec_create_group F (enc m) = Inr m" "\<And>m. dec (fw_enc_friend_msg F m) = Inr m"
  shows "create_friends_group_keeps_a_zero_group_id F enc" "create_friends_group_rejects_a_missing_group_id F enc"
    "send_message_tags_the_frame_from_chat_entry_type F dec" "send_typing_tags_the_frame_from_chat_entry_type F dec"
  using assms
  by (simp_all add: create_friends_group_keeps_a_zero_group_id_def create_friends_group_rejects_a_missing_group_id_def
      send_message_tags_the_frame_from_chat_entry_type_def send_typing_tags_the_frame_from_chat_entry_type_def
      create_group_answered_def answer_one_def answer_one_with_header_def ack_one_def create_friends_group_def
      send_message_def send_typing_def expect_ok_def ERESULT_OK_U32_def seam_eval)

section \<open>gc/envelope.rs\<close>

definition SOME_GC_MSG :: u32 where "SOME_GC_MSG = 9128"

definition client_from_gc :: "gc_wire \<Rightarrow> cmsg_gc_client \<Rightarrow> steam_message" where
  "client_from_gc G c = \<lparr>sm_emsg = EMSG_CLIENT_FROM_GC, sm_header = default_header, sm_body = gw_enc_client G c\<rparr>"

definition wrap_then_unwrap_round_trips :: "gc_wire \<Rightarrow> bool" where
  "wrap_then_unwrap_round_trips G =
     (let body = [1, 2, 3, 4]; c = wrap (gw_enc_header G) 730 SOME_GC_MSG \<lparr>gh_job_id_target = Some 99\<rparr> body
      in gc_msgtype c = Some (SOME_GC_MSG OR PROTO_MASK) \<and> gc_appid c = Some 730 \<and>
         ok_and (unwrap (gw_dec_client G) (gw_dec_header G) (client_from_gc G c)) (\<lambda>v. some_and v (\<lambda>m.
           gm_appid m = 730 \<and> gm_msgtype m = SOME_GC_MSG \<and> gm_body m = body \<and> jobid_target m = Some 99)))"

definition jobid_target_normalizes_sentinels :: "gc_wire \<Rightarrow> bool" where
  "jobid_target_normalizes_sentinels G =
     list_all (\<lambda>sentinel.
       let c = wrap (gw_enc_header G) 730 SOME_GC_MSG \<lparr>gh_job_id_target = Some sentinel\<rparr> []
       in ok_and (unwrap (gw_dec_client G) (gw_dec_header G) (client_from_gc G c)) (\<lambda>v.
            some_and v (\<lambda>m. jobid_target m = None))) [0, u64_max]"

definition unwrap_skips_non_protobuf_payload :: "gc_wire \<Rightarrow> bool" where
  "unwrap_skips_non_protobuf_payload G =
     ok_and (unwrap (gw_dec_client G) (gw_dec_header G)
         (client_from_gc G \<lparr>gc_appid = Some 730, gc_msgtype = Some 123, gc_payload = Some (u32_to_le 123 @ u32_to_le 0)\<rparr>))
       (\<lambda>v. v = None)"

definition unwrap_rejects_garbage_envelope :: "gc_wire \<Rightarrow> bool" where
  "unwrap_rejects_garbage_envelope G =
     err_and (unwrap (gw_dec_client G) (gw_dec_header G)
         (client_from_gc G \<lparr>gc_appid = Some 730, gc_msgtype = Some 1, gc_payload = Some [0xFF, 0x00]\<rparr>)) is_codec"

lemma envelope_tests:
  assumes client: "\<And>c. gw_dec_client G (gw_enc_client G c) = Inr c"
    and header: "\<forall>j \<in> {99, 0, u64_max}. gw_dec_header G (gw_enc_header G \<lparr>gh_job_id_target = Some j\<rparr>) = Inr \<lparr>gh_job_id_target = Some j\<rparr> \<and>
      length (gw_enc_header G \<lparr>gh_job_id_target = Some j\<rparr>) < 2 ^ 32"
  shows "wrap_then_unwrap_round_trips G" "jobid_target_normalizes_sentinels G" "unwrap_skips_non_protobuf_payload G"
    "unwrap_rejects_garbage_envelope G"
proof -
  have mask: "SOME_GC_MSG AND EMSG_MASK = SOME_GC_MSG" by code_simp
  have unwrapped: "unwrap (gw_dec_client G) (gw_dec_header G) (client_from_gc G
      (wrap (gw_enc_header G) 730 SOME_GC_MSG \<lparr>gh_job_id_target = Some j\<rparr> body)) =
    Inr (Some \<lparr>gm_appid = 730, gm_msgtype = SOME_GC_MSG, gm_header = \<lparr>gh_job_id_target = Some j\<rparr>, gm_body = body\<rparr>)"
    if "j \<in> {99, 0, u64_max}" for j body
  proof -
    have "gw_dec_header G (gw_enc_header G \<lparr>gh_job_id_target = Some j\<rparr>) = Inr \<lparr>gh_job_id_target = Some j\<rparr>"
      "length (gw_enc_header G \<lparr>gh_job_id_target = Some j\<rparr>) < 2 ^ 32"
      using header that by blast+
    moreover have "gw_dec_client G (sm_body (client_from_gc G c)) = Inr c" for c by (simp add: client_from_gc_def client)
    ultimately show ?thesis
      by (simp add: unwrap_via wrap_def encode_raw_frame cm_frame.decode_via_frm mask Let_def)
  qed
  then show "wrap_then_unwrap_round_trips G" "jobid_target_normalizes_sentinels G"
    by (simp_all add: wrap_then_unwrap_round_trips_def jobid_target_normalizes_sentinels_def jobid_target_def Let_def wrap_def)
  show "unwrap_skips_non_protobuf_payload G" "unwrap_rejects_garbage_envelope G"
    using client
    by (simp_all add: unwrap_skips_non_protobuf_payload_def unwrap_rejects_garbage_envelope_def unwrap_def client_from_gc_def
        unframe_def PREFIX_LEN_def PROTO_MASK_def Let_def)
qed

section \<open>gc/coordinator.rs\<close>

text \<open>\<^verbatim>\<open>GameCoordinator::for_test\<close>: what its two receivers deliver is up to the test.\<close>

definition coordinator_for_test ::
    "handle \<Rightarrow> u32 \<Rightarrow> bool \<Rightarrow> bool receiver \<Rightarrow> gc_message receiver \<Rightarrow> coordinator \<times> gc_env" where
  "coordinator_for_test session appid ready changes replies =
     (\<lparr>co_session = session, co_appid = appid\<rparr>,
      \<lparr>ge_ready = \<lambda>_. ready, ge_changes = \<lambda>_. changes, ge_events = \<lambda>_. replies\<rparr>)"

definition HAVE_SESSION :: i32 where "HAVE_SESSION = 0"
definition GC_GOING_DOWN :: i32 where "GC_GOING_DOWN = 1"
definition NO_SESSION :: i32 where "NO_SESSION = 2"
definition NO_SESSION_IN_LOGON_QUEUE :: i32 where "NO_SESSION_IN_LOGON_QUEUE = 3"
definition NO_STEAM :: i32 where "NO_STEAM = 4"

definition connection_status_without_a_session_is_not_ready :: "gc_wire \<Rightarrow> (cmsg_connection_status \<Rightarrow> bytes) \<Rightarrow> bool" where
  "connection_status_without_a_session_is_not_ready G enc =
     list_all (\<lambda>status. \<not> has_gc_session G (enc \<lparr>cn_status = Some status\<rparr>))
       [GC_GOING_DOWN, NO_SESSION, NO_SESSION_IN_LOGON_QUEUE, NO_STEAM]"

definition connection_status_with_a_session_stays_ready :: "gc_wire \<Rightarrow> (cmsg_connection_status \<Rightarrow> bytes) \<Rightarrow> bool" where
  "connection_status_with_a_session_stays_ready G enc \<longleftrightarrow>
     has_gc_session G (enc \<lparr>cn_status = Some HAVE_SESSION\<rparr>) \<and> has_gc_session G []"

definition undecodable_connection_status_is_not_a_session :: "gc_wire \<Rightarrow> bool" where
  "undecodable_connection_status_is_not_a_session G \<longleftrightarrow> \<not> has_gc_session G [0xFF, 0xFF]"

lemma connection_status_tests:
  assumes "\<And>s. gw_dec_connection_status G (enc s) = Inr s" "gw_dec_connection_status G [] = Inr \<lparr>cn_status = None\<rparr>"
    "gw_dec_connection_status G [0xFF, 0xFF] = Inl e"
  shows "connection_status_without_a_session_is_not_ready G enc" "connection_status_with_a_session_stays_ready G enc"
    "undecodable_connection_status_is_not_a_session G"
  using assms
  by (simp_all add: connection_status_without_a_session_is_not_ready_def connection_status_with_a_session_stays_ready_def
      undecodable_connection_status_is_not_a_session_def has_gc_session_def HAVE_SESSION_def GC_GOING_DOWN_def
      NO_SESSION_def NO_SESSION_IN_LOGON_QUEUE_def NO_STEAM_def)

definition hello_with :: "u32 option \<Rightarrow> cmsg_client_hello" where
  "hello_with version =
     \<lparr>ch_version = version, ch_client_session_need = None, ch_client_launcher = None, ch_steam_launcher = None\<rparr>"

definition gc_reply :: "gc_wire \<Rightarrow> u32 \<Rightarrow> gc_message" where
  "gc_reply G version =
     \<lparr>gm_appid = 730, gm_msgtype = 9128, gm_header = default_gc_header, gm_body = gw_enc_hello G (hello_with (Some version))\<rparr>"

definition request_matching_skips_replies_the_predicate_rejects ::
    "gc_wire \<Rightarrow> (bytes \<Rightarrow> string + cmsg_client_hello) \<Rightarrow> bool" where
  "request_matching_skips_replies_the_predicate_rejects G dec =
     (let (session, E) = for_test 7 (\<lambda>_. Some (0, Ack (Inr ()))) (\<lambda>_. []) Map.empty;
          (gc, V) = coordinator_for_test session 730 True [] [(0, RecvOk (gc_reply G 1)), (0, RecvOk (gc_reply G 2))];
          (got, _) = request_matching G E V gc 9127 (gw_enc_hello G (hello_with None)) 9128 (secs 5) dec (\<lambda>r. ch_version r = Some 2)
      in case got of Ready r \<Rightarrow> ok_and r (\<lambda>m. ch_version m = Some 2) | Pending \<Rightarrow> False)"

definition request_is_gated_on_readiness :: "gc_wire \<Rightarrow> (bytes \<Rightarrow> string + cmsg_client_hello) \<Rightarrow> bool" where
  "request_is_gated_on_readiness G dec =
     (let (session, E) = for_test 7 Map.empty (\<lambda>_. []) Map.empty;
          (gc, V) = coordinator_for_test session 730 False [] [];
          (got, gc) = gc_request G E V gc 9127 (gw_enc_hello G (hello_with None)) 9128 50 dec
      in got = Ready (Inl (Timeout ''GC welcome'')) \<and> h_sent (co_session gc) = [])"

definition wait_ready_returns_on_a_welcome_that_landed_before_the_call :: bool where
  "wait_ready_returns_on_a_welcome_that_landed_before_the_call =
     (let (session, E) = for_test 7 Map.empty (\<lambda>_. []) Map.empty; (gc, V) = coordinator_for_test session 730 True [] []
      in fst (wait_ready V gc 0) = Inr ())"

definition wait_ready_catches_a_welcome_that_lands_after_the_first_borrow :: bool where
  "wait_ready_catches_a_welcome_that_lands_after_the_first_borrow =
     (let (session, E) = for_test 7 Map.empty (\<lambda>_. []) Map.empty;
          (gc, V) = coordinator_for_test session 730 False [(secs 1, RecvOk True)] []
      in fst (wait_ready V gc (secs 60)) = Inr ())"

definition wait_ready_errors_when_the_pump_is_gone :: bool where
  "wait_ready_errors_when_the_pump_is_gone =
     (let (session, E) = for_test 7 Map.empty (\<lambda>_. []) Map.empty; (gc, V) = coordinator_for_test session 730 False [(0, Closed)] []
      in err_and (fst (wait_ready V gc (secs 60))) is_web_socket)"

definition pump_releases_the_session_when_the_last_coordinator_drops :: "gc_wire \<Rightarrow> bool" where
  "pump_releases_the_session_when_the_last_coordinator_drops G =
     (let (session, E) = for_test 7 Map.empty (\<lambda>_. []) Map.empty; p = run_pump G E 730 1 (start_pump session) [ClonesDropped]
      in \<not> pu_running p \<and> h_sent (pu_session p) = [])"

lemma wait_ready_tests:
  "wait_ready_returns_on_a_welcome_that_landed_before_the_call"
  "wait_ready_catches_a_welcome_that_lands_after_the_first_borrow" "wait_ready_errors_when_the_pump_is_gone"
  "pump_releases_the_session_when_the_last_coordinator_drops G"
  by (simp_all add: wait_ready_returns_on_a_welcome_that_landed_before_the_call_def
      wait_ready_catches_a_welcome_that_lands_after_the_first_borrow_def wait_ready_errors_when_the_pump_is_gone_def
      pump_releases_the_session_when_the_last_coordinator_drops_def run_pump_def pump_step_def start_pump_def
      wait_ready_def coordinator_for_test_def for_test_def at_time_def)

lemma gc_request_tests:
  assumes "\<And>m. dec (gw_enc_hello G m) = Inr m"
  shows "request_matching_skips_replies_the_predicate_rejects G dec" "request_is_gated_on_readiness G dec"
  using assms
  by (simp_all add: request_matching_skips_replies_the_predicate_rejects_def request_is_gated_on_readiness_def
      gc_request_def request_matching_def wait_ready_def gc_send_def take_matching_def coordinator_for_test_def
      gc_reply_def hello_with_def seam_eval at_time_def set_time_def Let_def)

section \<open>cs2.rs\<close>

definition profiles_reply :: "(players_profile \<Rightarrow> bytes) \<Rightarrow> u32 list \<Rightarrow> gc_message" where
  "profiles_reply enc ids =
     \<lparr>gm_appid = APP_ID, gm_msgtype = GC_PLAYERS_PROFILE, gm_header = default_gc_header,
      gm_body = enc \<lparr>pl_account_profiles = map (\<lambda>id. \<lparr>ap_account_id = Some id, ap_player_level = Some 40,
        ap_player_cur_xp = None, ap_ranking = None, ap_medals = None\<rparr>) ids\<rparr>\<rparr>"

text \<open>The fake coordinator acknowledges the request and then pushes the replies.\<close>

definition profile_answered ::
    "gc_wire \<Rightarrow> (client_request_players_profile \<Rightarrow> bytes) \<Rightarrow> (bytes \<Rightarrow> string + players_profile) \<Rightarrow> u32 \<Rightarrow> gc_message list \<Rightarrow>
     u32 \<Rightarrow> player_profile result poll" where
  "profile_answered G enc dec appid replies wanted =
     (let (session, E) = for_test 7 (\<lambda>_. Some (0, Ack (Inr ()))) (\<lambda>_. []) Map.empty;
          (gc, V) = coordinator_for_test session appid True [] (map (\<lambda>m. (0, RecvOk m)) replies)
      in fst (request_player_profile G E V enc dec gc wanted))"

definition profile_request_picks_the_requested_account ::
    "gc_wire \<Rightarrow> (client_request_players_profile \<Rightarrow> bytes) \<Rightarrow> (players_profile \<Rightarrow> bytes) \<Rightarrow> (bytes \<Rightarrow> string + players_profile) \<Rightarrow> bool" where
  "profile_request_picks_the_requested_account G enc enc_reply dec =
     (let wanted = 742504693
      in case profile_answered G enc dec APP_ID [profiles_reply enc_reply [1], profiles_reply enc_reply [2, wanted]] wanted of
           Ready r \<Rightarrow> ok_and r (\<lambda>profile. pp_account_id profile = wanted \<and> pp_level profile = 40)
         | Pending \<Rightarrow> False)"

definition profile_request_never_returns_another_account_as_ours ::
    "gc_wire \<Rightarrow> (client_request_players_profile \<Rightarrow> bytes) \<Rightarrow> (players_profile \<Rightarrow> bytes) \<Rightarrow> (bytes \<Rightarrow> string + players_profile) \<Rightarrow> bool" where
  "profile_request_never_returns_another_account_as_ours G enc enc_reply dec =
     (case profile_answered G enc dec APP_ID [profiles_reply enc_reply [9]] 5 of
        Ready r \<Rightarrow> err_and r is_timeout
      | Pending \<Rightarrow> False)"

definition profile_request_rejects_a_non_cs2_coordinator ::
    "gc_wire \<Rightarrow> (client_request_players_profile \<Rightarrow> bytes) \<Rightarrow> (bytes \<Rightarrow> string + players_profile) \<Rightarrow> bool" where
  "profile_request_rejects_a_non_cs2_coordinator G enc dec =
     (case profile_answered G enc dec 570 [] 1 of Ready r \<Rightarrow> err_and r is_invalid_config | Pending \<Rightarrow> False)"

definition account_id_takes_low_32_bits :: bool where
  "account_id_takes_low_32_bits \<longleftrightarrow>
     unat (account_id_from_steam_id STEAM_ID) = unat (STEAM_ID - 0x0110000100000000) \<and>
     account_id_from_steam_id STEAM_ID = 742504693"

definition message_types_match_the_proto :: bool where
  "message_types_match_the_proto \<longleftrightarrow> GC_CLIENT_REQUEST_PLAYERS_PROFILE = 9127 \<and> GC_PLAYERS_PROFILE = 9128"

lemma cs2_number_tests: "account_id_takes_low_32_bits" "message_types_match_the_proto"
  by (simp_all add: account_id_takes_low_32_bits_def message_types_match_the_proto_def account_id_from_steam_id_def
      STEAM_ID_def GC_CLIENT_REQUEST_PLAYERS_PROFILE_def GC_PLAYERS_PROFILE_def)

lemma profile_request_tests:
  assumes "\<And>m. dec (enc_reply m) = Inr m"
  shows "profile_request_picks_the_requested_account G enc enc_reply dec"
    "profile_request_never_returns_another_account_as_ours G enc enc_reply dec"
    "profile_request_rejects_a_non_cs2_coordinator G enc dec"
  using assms
  by (simp_all add: profile_request_picks_the_requested_account_def profile_request_never_returns_another_account_as_ours_def
      profile_request_rejects_a_non_cs2_coordinator_def profile_answered_def profiles_reply_def request_player_profile_def
      request_matching_def wait_ready_def gc_send_def take_matching_def coordinator_for_test_def seam_eval at_time_def
      set_time_def profile_from_def APP_ID_def Let_def)

section \<open>pool.rs\<close>

text \<open>The n-th proxy of the tests, as \<^verbatim>\<open>ProxyConfig::parse\<close> returns it, is the argument \<open>proxies\<close>.\<close>

definition test_pool :: "(nat \<Rightarrow> proxy_config) \<Rightarrow> nat \<Rightarrow> proxy_pool" where
  "test_pool proxies n = with_policy (map proxies [0..<n]) \<lparr>hp_dead_after = 2\<rparr>"

text \<open>\<open>n\<close> acquisitions in a row, by index, and a report repeated \<open>n\<close> times.\<close>

primrec acquired :: "nat \<Rightarrow> proxy_pool \<Rightarrow> nat option list" where
  "acquired 0 p = []"
| "acquired (Suc n) p = (case acquire p of (l, p) \<Rightarrow> map_option le_index l # acquired n p)"

definition failed_times :: "nat \<Rightarrow> lease \<Rightarrow> proxy_pool \<Rightarrow> proxy_pool" where
  "failed_times n l p = ((\<lambda>p. report_failure p l) ^^ n) p"

definition acquire_round_robins_healthy :: "(nat \<Rightarrow> proxy_config) \<Rightarrow> bool" where
  "acquire_round_robins_healthy proxies \<longleftrightarrow> acquired 4 (test_pool proxies 3) = [Some 0, Some 1, Some 2, Some 0]"

definition failures_mark_unhealthy_and_acquire_skips_it :: "(nat \<Rightarrow> proxy_config) \<Rightarrow> bool" where
  "failures_mark_unhealthy_and_acquire_skips_it proxies =
     (let p = test_pool proxies 2; l0 = lease_of p 0; p1 = report_failure p l0; p2 = report_failure p1 l0
      in status_is_healthy (status p1 l0) \<and> status p2 l0 = Unhealthy 2 \<and> healthy p2 = 1 \<and>
         acquired 4 p2 = [Some 1, Some 1, Some 1, Some 1])"

definition success_resets_and_recovers :: "(nat \<Rightarrow> proxy_config) \<Rightarrow> bool" where
  "success_resets_and_recovers proxies =
     (let p = test_pool proxies 1; l = lease_of p 0; p2 = report_failure (report_failure p l) l; p3 = report_success p2 l
      in healthy p2 = 0 \<and> healthy p3 = 1 \<and> status_is_healthy (status p3 l))"

definition all_dead_still_hands_out_least_failed :: "(nat \<Rightarrow> proxy_config) \<Rightarrow> bool" where
  "all_dead_still_hands_out_least_failed proxies =
     (let p = test_pool proxies 2; p' = failed_times 2 (lease_of p 1) (failed_times 3 (lease_of p 0) p)
      in healthy p' = 0 \<and> acquired 1 p' = [Some 1])"

definition empty_pool_acquires_nothing :: bool where
  "empty_pool_acquires_nothing \<longleftrightarrow> pool_is_empty (new_pool []) \<and> fst (acquire (new_pool [])) = None"

lemma pool_tests:
  "acquire_round_robins_healthy proxies" "failures_mark_unhealthy_and_acquire_skips_it proxies"
  "success_resets_and_recovers proxies" "all_dead_still_hands_out_least_failed proxies" "empty_pool_acquires_nothing"
  by code_simp+

end
