(* ===== verification/Tests_Auth.thy ===== *)
theory Tests_Auth
  imports Tests Signin
begin

text \<open>
  The unit tests of \<^verbatim>\<open>src/auth/\<close>: the Steam Guard code, the claims of a token, the password encryption, the
  web client, the redacted credentials, the token store and the sign-in flow.  The known-answer vectors of
  \<^verbatim>\<open>totp.rs\<close> are values of HMAC-SHA1, another crate's function, and are not among them.
\<close>

section \<open>totp.rs\<close>

definition ZERO_SECRET_B64 :: string where
  "ZERO_SECRET_B64 = ''AAAAAAAAAAAAAAAAAAAAAAAAAAA=''"

definition code_is_five_chars_from_the_steam_alphabet :: "(string \<Rightarrow> string + bytes) \<Rightarrow> (bytes \<Rightarrow> bytes \<Rightarrow> bytes) \<Rightarrow> bool" where
  "code_is_five_chars_from_the_steam_alphabet b64_decode hmac_sha1 =
     ok_and (b64_decode ZERO_SECRET_B64) (\<lambda>secret.
       let code = generate_with_step hmac_sha1 secret 1
       in length code = 5 \<and> list_all (\<lambda>ch. ch \<in> set STEAM_ALPHABET) code)"

definition generate_auth_code_uses_the_30s_time_step ::
    "(string \<Rightarrow> string + bytes) \<Rightarrow> (bytes \<Rightarrow> bytes \<Rightarrow> bytes) \<Rightarrow> u64 option \<Rightarrow> bool" where
  "generate_auth_code_uses_the_30s_time_step b64_decode hmac_sha1 clock =
     ok_and (b64_decode ZERO_SECRET_B64) (\<lambda>secret.
       let expected = generate_with_step hmac_sha1 secret 42;
           code = (\<lambda>ts. generate_auth_code b64_decode hmac_sha1 clock ZERO_SECRET_B64 (Some ts))
       in list_all (\<lambda>ts. ok_and (code ts) (\<lambda>c. c = expected)) [42 * TIME_STEP_SECS, 42 * TIME_STEP_SECS + 29] \<and>
          ok_and (code (43 * TIME_STEP_SECS)) (\<lambda>c. c \<noteq> expected))"

definition same_input_same_output :: "(string \<Rightarrow> string + bytes) \<Rightarrow> (bytes \<Rightarrow> bytes \<Rightarrow> bytes) \<Rightarrow> bool" where
  "same_input_same_output b64_decode hmac_sha1 =
     ok_and (b64_decode ZERO_SECRET_B64) (\<lambda>secret.
       generate_with_step hmac_sha1 secret 42 = generate_with_step hmac_sha1 secret 42)"

definition rejects_invalid_base64 :: "(string \<Rightarrow> string + bytes) \<Rightarrow> (bytes \<Rightarrow> bytes \<Rightarrow> bytes) \<Rightarrow> u64 option \<Rightarrow> bool" where
  "rejects_invalid_base64 b64_decode hmac_sha1 clock =
     err_and (generate_auth_code b64_decode hmac_sha1 clock ''not_base64!!!'' (Some 0)) is_base64"

definition alphabet_is_26_chars :: bool where
  "alphabet_is_26_chars \<longleftrightarrow> length STEAM_ALPHABET = 26"

lemma code_slots_alphabet: "set (code_slots n code) \<subseteq> set STEAM_ALPHABET"
proof (induction n arbitrary: code)
  case (Suc n)
  have "unat (code mod 26) < length STEAM_ALPHABET" by (simp add: alphabet_26 unat_mod_26)
  with Suc show ?case by (simp add: nth_mem del: length_greater_0_conv)
qed simp

lemma trimmed_literals: "trim ZERO_SECRET_B64 = ZERO_SECRET_B64" "trim ''not_base64!!!'' = ''not_base64!!!''"
  by code_simp+

text \<open>The steps of the three timestamps are 42, 42 and 43; that the two codes differ is a fact about the digest.\<close>

lemma totp_tests:
  assumes "b64_decode ZERO_SECRET_B64 = Inr (replicate 20 0)" "b64_decode ''not_base64!!!'' = Inl e"
    and "generate_with_step hmac_sha1 (replicate 20 0) 43 \<noteq> generate_with_step hmac_sha1 (replicate 20 0) 42"
  shows "code_is_five_chars_from_the_steam_alphabet b64_decode hmac_sha1"
    "generate_auth_code_uses_the_30s_time_step b64_decode hmac_sha1 clock" "same_input_same_output b64_decode hmac_sha1"
    "rejects_invalid_base64 b64_decode hmac_sha1 clock" "alphabet_is_26_chars"
proof -
  have "set (generate_with_step hmac_sha1 k s) \<subseteq> set STEAM_ALPHABET" "length (generate_with_step hmac_sha1 k s) = 5" for k s
    using code_slots_alphabet by (simp_all add: generate_with_step_def Let_def)
  then show "code_is_five_chars_from_the_steam_alphabet b64_decode hmac_sha1"
    using assms(1) by (auto simp: code_is_five_chars_from_the_steam_alphabet_def Let_def list_all_iff)
  have steps: "42 * 30 div 30 = (42 :: u64)" "(42 * 30 + 29) div 30 = (42 :: u64)" "43 * 30 div 30 = (43 :: u64)"
    by simp_all
  show "generate_auth_code_uses_the_30s_time_step b64_decode hmac_sha1 clock"
    using assms(1, 3)
    by (simp add: generate_auth_code_uses_the_30s_time_step_def generate_auth_code_def trimmed_literals Let_def TIME_STEP_SECS_def)
  show "same_input_same_output b64_decode hmac_sha1" using assms(1) by (simp add: same_input_same_output_def)
  show "rejects_invalid_base64 b64_decode hmac_sha1 clock"
    using assms(2) by (simp add: rejects_invalid_base64_def generate_auth_code_def trimmed_literals)
  show "alphabet_is_26_chars" by (simp add: alphabet_is_26_chars_def alphabet_26)
qed

section \<open>jwt.rs\<close>

text \<open>The tests' encoder \<open>enc\<close> is the URL-safe base64 the reader undoes: without padding, so without a dot.\<close>

definition build_jwt :: "(bytes \<Rightarrow> string) \<Rightarrow> string \<Rightarrow> string" where
  "build_jwt enc payload_json =
     enc (as_bytes (raw_json ''{`alg`:`none`,`typ`:`JWT`}'')) @ ''.'' @ enc (as_bytes payload_json) @ ''.'' @
     enc (as_bytes ''signature-not-checked'')"

definition url_safe :: "(bytes \<Rightarrow> string) \<Rightarrow> 'j jwt_lib \<Rightarrow> bool" where
  "url_safe enc J \<longleftrightarrow>
     (\<forall>bs. jl_b64url_decode J (enc bs) = Inr bs \<and> CHR ''.'' \<notin> set (enc bs) \<and> (enc bs = [] \<longleftrightarrow> bs = []))"

definition decodes_steam_id_from_well_formed_jwt :: "(bytes \<Rightarrow> string) \<Rightarrow> 'j jwt_lib \<Rightarrow> bool" where
  "decodes_steam_id_from_well_formed_jwt enc J =
     ok_and (steam_id_from_refresh_token J (build_jwt enc (raw_json ''{`sub`:`76561198000000001`,`aud`:[`derive`]}'')))
       (\<lambda>sid. sid = 76561198000000001)"

definition rejects_garbage_string :: "'j jwt_lib \<Rightarrow> bool" where
  "rejects_garbage_string J = err_and (steam_id_from_refresh_token J ''not.a.real.jwt'') is_auth_rejected"

definition rejects_single_segment :: "'j jwt_lib \<Rightarrow> bool" where
  "rejects_single_segment J = err_and (steam_id_from_refresh_token J ''singleseg'') is_auth_rejected"

definition rejects_wrong_segment_count :: "'j jwt_lib \<Rightarrow> bool" where
  "rejects_wrong_segment_count J =
     list_all (\<lambda>s. err_and (steam_id_from_refresh_token J s) is_auth_rejected) [''aGVhZGVy.e30'', ''aGVhZGVy.e30.sig.extra'']"

definition rejects_empty_segment :: "'j jwt_lib \<Rightarrow> bool" where
  "rejects_empty_segment J =
     list_all (\<lambda>s. err_and (steam_id_from_refresh_token J s) is_auth_rejected)
       [''aGVhZGVy..sig'', ''.e30.sig'', ''aGVhZGVy.e30.'']"

definition rejects_payload_without_sub :: "(bytes \<Rightarrow> string) \<Rightarrow> 'j jwt_lib \<Rightarrow> bool" where
  "rejects_payload_without_sub enc J =
     err_and (steam_id_from_refresh_token J (build_jwt enc (raw_json ''{`aud`:[`derive`]}''))) is_auth_rejected"

definition rejects_non_numeric_sub :: "(bytes \<Rightarrow> string) \<Rightarrow> 'j jwt_lib \<Rightarrow> bool" where
  "rejects_non_numeric_sub enc J =
     err_and (steam_id_from_refresh_token J (build_jwt enc (raw_json ''{`sub`:`hello`}''))) is_auth_rejected"

definition reads_sub_and_exp_claims :: "(bytes \<Rightarrow> string) \<Rightarrow> 'j jwt_lib \<Rightarrow> bool" where
  "reads_sub_and_exp_claims enc J =
     ok_and (token_claims J (build_jwt enc (raw_json ''{`sub`:`76561198000000001`,`exp`:1799839262,`aud`:[`client`]}'')))
       (\<lambda>claims. rc_steam_id claims = 76561198000000001 \<and> rc_exp claims = Some 1799839262)"

definition exp_is_none_when_absent :: "(bytes \<Rightarrow> string) \<Rightarrow> 'j jwt_lib \<Rightarrow> bool" where
  "exp_is_none_when_absent enc J =
     ok_and (token_claims J (build_jwt enc (raw_json ''{`sub`:`76561198000000001`}''))) (\<lambda>claims. rc_exp claims = None)"

lemma malformed_token_tests:
  "rejects_garbage_string J" "rejects_single_segment J" "rejects_wrong_segment_count J" "rejects_empty_segment J"
  by (simp_all add: rejects_garbage_string_def rejects_single_segment_def rejects_wrong_segment_count_def
      rejects_empty_segment_def steam_id_from_refresh_token_def token_claims_def decode_payload_def)

text \<open>What the JSON parser finds in a payload.\<close>

definition reads_as :: "'j jwt_lib \<Rightarrow> string \<Rightarrow> string option \<Rightarrow> u64 option \<Rightarrow> bool" where
  "reads_as J payload sub expiry \<longleftrightarrow>
     (case jl_json_from_slice J (as_bytes payload) of
        Inl _ \<Rightarrow> False
      | Inr v \<Rightarrow> jl_get_str J v ''sub'' = sub \<and> jl_get_u64 J v ''exp'' = expiry)"

lemma split_three:
  assumes "CHR ''.'' \<notin> set a" "CHR ''.'' \<notin> set b" "CHR ''.'' \<notin> set c"
  shows "split_on (\<lambda>x. x = CHR ''.'') (a @ ''.'' @ b @ ''.'' @ c) = [a, b, c]"
  using split_join [of "[a, b, c]" "CHR ''.''"] assms by simp

lemma claims_of_parts:
  assumes "url_safe enc J" "reads_as J payload sub expiry" "payload \<noteq> []"
    and "h \<noteq> []" "s \<noteq> []" "CHR ''.'' \<notin> set h" "CHR ''.'' \<notin> set s"
  shows "token_claims J (h @ ''.'' @ enc (as_bytes payload) @ ''.'' @ s) =
    (case sub of
       None \<Rightarrow> Inl (AuthRejected ''jwt: no sub claim'')
     | Some t \<Rightarrow> (case parse_u64 t of
         Inl e \<Rightarrow> Inl (AuthRejected (''jwt sub: '' @ e))
       | Inr sid \<Rightarrow> Inr \<lparr>rc_steam_id = sid, rc_exp = expiry\<rparr>))"
proof -
  let ?p = "enc (as_bytes payload)"
  have p: "jl_b64url_decode J ?p = Inr (as_bytes payload)" "CHR ''.'' \<notin> set ?p" "?p \<noteq> []"
    using assms(1, 3) by (auto simp: url_safe_def as_bytes_def)
  have "split_on (\<lambda>x. x = CHR ''.'') (h @ ''.'' @ ?p @ ''.'' @ s) = [h, ?p, s]"
    using p assms(6, 7) by (intro split_three) auto
  moreover obtain v where "jl_json_from_slice J (as_bytes payload) = Inr v" "jl_get_str J v ''sub'' = sub"
    "jl_get_u64 J v ''exp'' = expiry" using assms(2) by (auto simp: reads_as_def split: sum.splits)
  ultimately show ?thesis using p assms(4, 5)
    by (simp add: token_claims_def decode_payload_def split: option.split sum.split)
qed

lemma claims_of_built:
  assumes "url_safe enc J" "reads_as J payload sub expiry" "payload \<noteq> []"
  shows "token_claims J (build_jwt enc payload) =
    (case sub of
       None \<Rightarrow> Inl (AuthRejected ''jwt: no sub claim'')
     | Some t \<Rightarrow> (case parse_u64 t of
         Inl e \<Rightarrow> Inl (AuthRejected (''jwt sub: '' @ e))
       | Inr sid \<Rightarrow> Inr \<lparr>rc_steam_id = sid, rc_exp = expiry\<rparr>))"
  unfolding build_jwt_def using assms by (intro claims_of_parts) (auto simp: url_safe_def as_bytes_def raw_json_def)

lemma sub_number: "parse_u64 ''76561198000000001'' = Inr 76561198000000001"
proof -
  have "show_word (76561198000000001 :: u64) = ''76561198000000001''" by (simp add: show_word_def show_decimal)
  then show ?thesis using parse_u64_show [of 76561198000000001] by simp
qed

lemma claims_tests:
  assumes "url_safe enc J"
    and "reads_as J (raw_json ''{`sub`:`76561198000000001`,`aud`:[`derive`]}'') (Some ''76561198000000001'') None"
    and "reads_as J (raw_json ''{`aud`:[`derive`]}'') None None"
    and "reads_as J (raw_json ''{`sub`:`hello`}'') (Some ''hello'') None"
    and "reads_as J (raw_json ''{`sub`:`76561198000000001`,`exp`:1799839262,`aud`:[`client`]}'')
      (Some ''76561198000000001'') (Some 1799839262)"
    and "reads_as J (raw_json ''{`sub`:`76561198000000001`}'') (Some ''76561198000000001'') None"
  shows "decodes_steam_id_from_well_formed_jwt enc J" "rejects_payload_without_sub enc J"
    "rejects_non_numeric_sub enc J" "reads_sub_and_exp_claims enc J" "exp_is_none_when_absent enc J"
proof -
  obtain e where "parse_u64 ''hello'' = Inl e" by (simp add: parse_u64_def parse_nat_def digit_val_def)
  then show "decodes_steam_id_from_well_formed_jwt enc J" "rejects_payload_without_sub enc J"
    "rejects_non_numeric_sub enc J" "reads_sub_and_exp_claims enc J" "exp_is_none_when_absent enc J"
    using claims_of_built [OF assms(1, 2)] claims_of_built [OF assms(1, 3)] claims_of_built [OF assms(1, 4)]
      claims_of_built [OF assms(1, 5)] claims_of_built [OF assms(1, 6)] sub_number
    by (simp_all add: decodes_steam_id_from_well_formed_jwt_def rejects_payload_without_sub_def rejects_non_numeric_sub_def
        reads_sub_and_exp_claims_def exp_is_none_when_absent_def steam_id_from_refresh_token_def raw_json_def)
qed

section \<open>rsa\_pw.rs\<close>

definition round_trip_against_known_key ::
    "(bytes \<Rightarrow> string) \<Rightarrow> (string \<Rightarrow> string + bytes) \<Rightarrow> 'k rsa_lib \<Rightarrow> (bytes \<Rightarrow> string + bytes) \<Rightarrow> string \<Rightarrow> string \<Rightarrow> bool" where
  "round_trip_against_known_key b64_encode b64_decode L decrypt mod_hex exp_hex =
     (let password = ''hunter2-the-real-one''
      in ok_and (encrypt_password b64_encode L password mod_hex exp_hex) (\<lambda>b64_ct.
           ok_and (b64_decode b64_ct) (\<lambda>ct. ok_and (decrypt ct) (\<lambda>pt. pt = as_bytes password))))"

definition bad_mod_hex_is_an_error :: "(bytes \<Rightarrow> string) \<Rightarrow> 'k rsa_lib \<Rightarrow> bool" where
  "bad_mod_hex_is_an_error b64_encode L =
     err_and (encrypt_password b64_encode L ''x'' ''not-hex'' ''010001'') is_auth_rejected"

definition bad_exp_hex_is_an_error :: "(bytes \<Rightarrow> string) \<Rightarrow> 'k rsa_lib \<Rightarrow> bool" where
  "bad_exp_hex_is_an_error b64_encode L =
     err_and (encrypt_password b64_encode L ''x'' ''ab'' ''zzz'') is_auth_rejected"

text \<open>For a generated key pair: its two numbers are read back from their hexadecimal text, the public key accepts
  them, and the private key decrypts what the public key encrypted.\<close>

lemma rsa_tests:
  "rl_parse_bytes L (as_bytes mod_hex) 16 = Some n \<Longrightarrow> rl_parse_bytes L (as_bytes exp_hex) 16 = Some e \<Longrightarrow>
     rl_new L n e = Inr pk \<Longrightarrow> rl_encrypt L pk (as_bytes ''hunter2-the-real-one'') = Inr ct \<Longrightarrow>
     decrypt ct = Inr (as_bytes ''hunter2-the-real-one'') \<Longrightarrow> b64_decode (b64_encode ct) = Inr ct \<Longrightarrow>
     round_trip_against_known_key b64_encode b64_decode L decrypt mod_hex exp_hex"
  "rl_parse_bytes L (as_bytes ''not-hex'') 16 = None \<Longrightarrow> bad_mod_hex_is_an_error b64_encode L"
  "rl_parse_bytes L (as_bytes ''zzz'') 16 = None \<Longrightarrow> bad_exp_hex_is_an_error b64_encode L"
  by (simp_all add: round_trip_against_known_key_def bad_mod_hex_is_an_error_def bad_exp_hex_is_an_error_def
      encrypt_password_def Let_def and_then_def ok_or_def split: option.split)

section \<open>webapi.rs\<close>

definition url_for_builds_canonical_path :: "('p, 'c) web_env \<Rightarrow> bool" where
  "url_for_builds_canonical_path E =
     ok_and (url_for E ''BeginAuthSessionViaCredentials'') (\<lambda>u.
       u = ''https://api.steampowered.com/IAuthenticationService/BeginAuthSessionViaCredentials/v1/'')"

definition eresult_ok_is_one :: bool where
  "eresult_ok_is_one \<longleftrightarrow> OK = 1"

definition ok_does_not_map_to_outcome :: bool where
  "ok_does_not_map_to_outcome \<longleftrightarrow> map_non_ok_eresult OK = None"

definition maps_invalid_password :: bool where
  "maps_invalid_password = some_and (map_non_ok_eresult INVALID_PASSWORD) (\<lambda>out. out = InvalidCredentials)"

definition account_logon_denied_maps_to_email_guard :: bool where
  "account_logon_denied_maps_to_email_guard =
     some_and (map_non_ok_eresult ACCOUNT_LOGON_DENIED) (\<lambda>out. case out of NeedsEmailGuardCode _ \<Rightarrow> True | _ \<Rightarrow> False)"

definition need_two_factor_maps_to_mobile_guard :: bool where
  "need_two_factor_maps_to_mobile_guard =
     some_and (map_non_ok_eresult ACCOUNT_LOGIN_DENIED_NEED_TWO_FACTOR) (\<lambda>out. out = NeedsMobileGuardCode)"

definition code_mismatch_is_not_a_missing_secret :: bool where
  "code_mismatch_is_not_a_missing_secret =
     some_and (map_non_ok_eresult TWO_FACTOR_CODE_MISMATCH) (\<lambda>out. out = GuardCodeRejected)"

definition rate_limit_carries_a_hint :: bool where
  "rate_limit_carries_a_hint =
     some_and (map_non_ok_eresult RATE_LIMIT_EXCEEDED) (\<lambda>out.
       case out of RateLimited retry_hint \<Rightarrow> retry_hint = Some RATE_LIMIT_BACKOFF | _ \<Rightarrow> False)"

definition login_denied_throttle_is_rate_limited_not_an_error :: bool where
  "login_denied_throttle_is_rate_limited_not_an_error =
     some_and (map_non_ok_eresult ACCOUNT_LOGIN_DENIED_THROTTLE) (\<lambda>out. case out of RateLimited _ \<Rightarrow> True | _ \<Rightarrow> False)"

definition unknown_eresult_does_not_map :: bool where
  "unknown_eresult_does_not_map \<longleftrightarrow> map_non_ok_eresult 42 = None"

lemma webapi_tests:
  "we_url_parse E s = Inr s \<Longrightarrow> s = BASE_URL @ ''BeginAuthSessionViaCredentials'' @ ''/v1/'' \<Longrightarrow> url_for_builds_canonical_path E"
  "eresult_ok_is_one" "ok_does_not_map_to_outcome" "maps_invalid_password" "account_logon_denied_maps_to_email_guard"
  "need_two_factor_maps_to_mobile_guard" "code_mismatch_is_not_a_missing_secret" "rate_limit_carries_a_hint"
  "login_denied_throttle_is_rate_limited_not_an_error" "unknown_eresult_does_not_map"
proof -
  show "we_url_parse E s = Inr s \<Longrightarrow> s = BASE_URL @ ''BeginAuthSessionViaCredentials'' @ ''/v1/'' \<Longrightarrow> url_for_builds_canonical_path E"
    by (simp add: url_for_builds_canonical_path_def url_for_def BASE_URL_def)
  show "eresult_ok_is_one" "ok_does_not_map_to_outcome" "maps_invalid_password" "account_logon_denied_maps_to_email_guard"
    "need_two_factor_maps_to_mobile_guard" "code_mismatch_is_not_a_missing_secret" "rate_limit_carries_a_hint"
    "login_denied_throttle_is_rate_limited_not_an_error" "unknown_eresult_does_not_map"
    by (simp_all add: eresult_ok_is_one_def ok_does_not_map_to_outcome_def maps_invalid_password_def
        account_logon_denied_maps_to_email_guard_def need_two_factor_maps_to_mobile_guard_def
        code_mismatch_is_not_a_missing_secret_def rate_limit_carries_a_hint_def
        login_denied_throttle_is_rate_limited_not_an_error_def unknown_eresult_does_not_map_def map_non_ok_eresult_def)
qed

section \<open>credentials.rs\<close>

definition password_debug_redacts_secrets :: "(bytes \<Rightarrow> string) \<Rightarrow> bool" where
  "password_debug_redacts_secrets esc =
     (let dbg = debug_password_credentials esc \<lparr>pw_account_name = ''bot01'', pw_password = ''hunter2-super-secret'',
            pw_shared_secret = Some ''base64SharedSecret==''\<rparr>
      in \<not> contains dbg ''hunter2-super-secret'' \<and> \<not> contains dbg ''base64SharedSecret'' \<and>
         contains dbg ''bot01'' \<and> contains dbg REDACTED)"

definition password_debug_distinguishes_missing_shared_secret :: "(bytes \<Rightarrow> string) \<Rightarrow> bool" where
  "password_debug_distinguishes_missing_shared_secret esc =
     contains (debug_password_credentials esc \<lparr>pw_account_name = ''bot01'', pw_password = ''pw'', pw_shared_secret = None\<rparr>)
       ''None''"

definition refresh_token_debug_redacts_value :: "(bytes \<Rightarrow> string) \<Rightarrow> bool" where
  "refresh_token_debug_redacts_value esc =
     (let token = RefreshToken ''eyJ.super.secret.jwt.payload''; dbg = debug_refresh_token esc token
      in \<not> contains dbg ''secret.jwt'' \<and> contains dbg REDACTED \<and> expose token = ''eyJ.super.secret.jwt.payload'')"

definition credentials_debug_delegates_to_redacted_inner :: "(bytes \<Rightarrow> string) \<Rightarrow> bool" where
  "credentials_debug_delegates_to_redacted_inner esc \<longleftrightarrow>
     \<not> contains (debug_credentials esc (credentials_password ''bot01'' ''leak-me'' None)) ''leak-me'' \<and>
     \<not> contains (debug_credentials esc (credentials_refresh_token ''leak-this-token'')) ''leak-this-token''"

lemmas debug_eval = debug_str_plain unescaped_def debug_struct_def debug_option_def debug_tuple_def comma_separated_def
  REDACTED_def contains_def starts_with_def

lemma credentials_tests:
  "password_debug_redacts_secrets esc" "password_debug_distinguishes_missing_shared_secret esc"
  "refresh_token_debug_redacts_value esc" "credentials_debug_delegates_to_redacted_inner esc"
  by (simp_all add: password_debug_redacts_secrets_def password_debug_distinguishes_missing_shared_secret_def
      refresh_token_debug_redacts_value_def credentials_debug_delegates_to_redacted_inner_def
      debug_password_credentials_def debug_refresh_token_def debug_credentials_def credentials_password_def
      credentials_refresh_token_def debug_eval)

section \<open>token\_store.rs\<close>

text \<open>The test's store is the in-memory store of \<open>Token_Store\<close>.\<close>

definition store_roundtrips :: bool where
  "store_roundtrips =
     (let (loaded, m) = memory_load Map.empty ''bot01'' in
      let (saved, m) = memory_save m ''bot01'' ''refresh-tok'' in
      ok_and loaded (\<lambda>t. t = None) \<and> ok_and saved (\<lambda>_. True) \<and>
      ok_and (fst (memory_load m ''bot01'')) (\<lambda>t. t = Some ''refresh-tok''))"

lemma token_store_test: "store_roundtrips"
  by (simp add: store_roundtrips_def memory_load_def memory_save_def)

section \<open>signin.rs\<close>

definition password_builder_round_trips_config :: bool where
  "password_builder_round_trips_config =
     (case si_credentials (with_shared_secret ''base64=='' (with_password ''acc'' ''pw'')) of
        Password p \<Rightarrow> pw_account_name p = ''acc'' \<and> pw_password p = ''pw'' \<and> pw_shared_secret p = Some ''base64==''
      | _ \<Rightarrow> False)"

definition shared_secret_is_ignored_for_refresh_token_flow :: bool where
  "shared_secret_is_ignored_for_refresh_token_flow =
     (case si_credentials (with_shared_secret ''ignored'' (with_refresh_token ''rt'')) of Token _ \<Rightarrow> True | _ \<Rightarrow> False)"

definition refresh_token_with_malformed_jwt_errors_immediately :: "('p, 'c, 'j, 'k) auth_lib \<Rightarrow> web \<Rightarrow> bool" where
  "refresh_token_with_malformed_jwt_errors_immediately A w =
     some_and (execute A (with_refresh_token ''not.a.real.jwt'') w) (\<lambda>(r, w'). err_and r is_auth_rejected \<and> w' = w)"

definition signin_jwt :: "(bytes \<Rightarrow> string) \<Rightarrow> string \<Rightarrow> string" where
  "signin_jwt enc payload_json =
     enc (as_bytes (raw_json ''{`alg`:`none`}'')) @ ''.'' @ enc (as_bytes payload_json) @ ''.'' @ ''sig''"

definition refresh_token_valid_jwt_passes_through_without_webapi ::
    "('p, 'c, 'j, 'k) auth_lib \<Rightarrow> (bytes \<Rightarrow> string) \<Rightarrow> web \<Rightarrow> bool" where
  "refresh_token_valid_jwt_passes_through_without_webapi A enc w =
     (let jwt = signin_jwt enc (raw_json ''{`sub`:`76561198000000001`,`exp`:4102444800}'')
      in some_and (execute A (with_refresh_token jwt) w) (\<lambda>(r, w').
           ok_and r (\<lambda>outcome.
             case outcome of
               Success steam_id refresh_token access_token \<Rightarrow>
                 steam_id = 76561198000000001 \<and> expose refresh_token = jwt \<and> access_token = None
             | _ \<Rightarrow> False) \<and> w' = w))"

definition refresh_token_expired_jwt_is_rejected :: "('p, 'c, 'j, 'k) auth_lib \<Rightarrow> (bytes \<Rightarrow> string) \<Rightarrow> web \<Rightarrow> bool" where
  "refresh_token_expired_jwt_is_rejected A enc w =
     (let jwt = signin_jwt enc (raw_json ''{`sub`:`76561198000000001`,`exp`:1}'')
      in some_and (execute A (with_refresh_token jwt) w) (\<lambda>(r, _). ok_and r (\<lambda>outcome. outcome = TokenRejected)))"

definition poll_interval_falls_back_to_default :: bool where
  "poll_interval_falls_back_to_default \<longleftrightarrow>
     compute_poll_interval None = secs POLL_DEFAULT_INTERVAL_SECS \<and>
     compute_poll_interval (Some (Finite 0)) = secs POLL_DEFAULT_INTERVAL_SECS \<and>
     compute_poll_interval (Some NaN) = secs POLL_DEFAULT_INTERVAL_SECS"

definition poll_interval_passes_through_reasonable_value :: bool where
  "poll_interval_passes_through_reasonable_value \<longleftrightarrow> compute_poll_interval (Some (Finite 3)) = secs 3"

definition poll_interval_clamps_runaway_values :: bool where
  "poll_interval_clamps_runaway_values \<longleftrightarrow> compute_poll_interval (Some (Finite 9000)) = secs 60"

definition success_outcome_debug_redacts_tokens :: "(bytes \<Rightarrow> string) \<Rightarrow> bool" where
  "success_outcome_debug_redacts_tokens esc =
     (let dbg = debug_outcome esc (Success 76561198000000001 (RefreshToken ''secret-refresh-jwt'') (Some ''secret-access-jwt''))
      in \<not> contains dbg ''secret-refresh-jwt'' \<and> \<not> contains dbg ''secret-access-jwt'' \<and>
         contains dbg ''76561198000000001'' \<and> contains dbg ''redacted'')"

definition signin_builder_debug_redacts_password :: "(bytes \<Rightarrow> string) \<Rightarrow> bool" where
  "signin_builder_debug_redacts_password esc \<longleftrightarrow>
     \<not> contains (debug_sign_in esc (with_password ''bot01'' ''leak-me'')) ''leak-me''"

definition rotate_client_id_keeps_current_without_a_hint :: bool where
  "rotate_client_id_keeps_current_without_a_hint \<longleftrightarrow> rotate_client_id 7 None = 7 \<and> rotate_client_id 7 (Some 0) = 7"

definition rotate_client_id_follows_steams_rotation :: bool where
  "rotate_client_id_follows_steams_rotation \<longleftrightarrow> rotate_client_id 7 (Some 9) = 9"

text \<open>The store of the tests whose methods must not run counts its calls, and the corrupted one holds what was
  saved.\<close>

definition panic_store :: "nat token_store" where
  "panic_store = \<lparr>ts_load = \<lambda>calls _. (Inl ''loaded'', Suc calls), ts_save = \<lambda>calls _ _. (Inl ''saved'', Suc calls)\<rparr>"

definition corrupt_store :: "string option token_store" where
  "corrupt_store = \<lparr>ts_load = \<lambda>saved _. (Inr (Some ''this-is-not-a-jwt''), saved),
     ts_save = \<lambda>saved _ token. (Inr (), Some token)\<rparr>"

definition dead_proxy :: proxy_config where
  "dead_proxy = \<lparr>px_kind = PkSocks5, px_host = ''127.0.0.1'', px_port = 1, px_credentials = None, px_tls_to_proxy = False\<rparr>"

definition execute_with_store_falls_back_when_stored_token_is_corrupt ::
    "(string \<Rightarrow> string + url) \<Rightarrow> ('p, 'c, 'j, 'k) auth_lib \<Rightarrow> web \<Rightarrow> bool" where
  "execute_with_store_falls_back_when_stored_token_is_corrupt url_parse A w =
     ok_and (parse url_parse ''socks5://127.0.0.1:1'') (\<lambda>proxy.
       some_and (execute_with_store A corrupt_store (through_proxy proxy (with_password ''bot01'' ''pw'')) None w)
         (\<lambda>(r, saved, _). err_and r is_network \<and> saved = None))"

definition execute_with_store_bypasses_store_for_refresh_builder :: "('p, 'c, 'j, 'k) auth_lib \<Rightarrow> web \<Rightarrow> bool" where
  "execute_with_store_bypasses_store_for_refresh_builder A w =
     some_and (execute_with_store A panic_store (with_refresh_token ''not.a.real.jwt'') 0 w)
       (\<lambda>(r, calls, _). err_and r is_auth_rejected \<and> calls = 0)"

lemma builder_tests:
  "password_builder_round_trips_config" "shared_secret_is_ignored_for_refresh_token_flow"
  "rotate_client_id_keeps_current_without_a_hint" "rotate_client_id_follows_steams_rotation"
  by (simp_all add: password_builder_round_trips_config_def shared_secret_is_ignored_for_refresh_token_flow_def
      rotate_client_id_keeps_current_without_a_hint_def rotate_client_id_follows_steams_rotation_def rotate_client_id_def
      with_shared_secret_def with_password_def with_refresh_token_def credentials_password_def credentials_refresh_token_def)

lemma poll_interval_tests:
  "poll_interval_falls_back_to_default" "poll_interval_passes_through_reasonable_value" "poll_interval_clamps_runaway_values"
proof -
  have "\<lfloor>7 / 2 :: rat\<rfloor> = 3" "\<lfloor>121 / 2 :: rat\<rfloor> = 60" by (simp_all add: floor_eq_iff)
  then show "poll_interval_falls_back_to_default" "poll_interval_passes_through_reasonable_value"
    "poll_interval_clamps_runaway_values"
  by (simp_all add: poll_interval_falls_back_to_default_def poll_interval_passes_through_reasonable_value_def
      poll_interval_clamps_runaway_values_def compute_poll_interval_def round_f32_def clamp_def)
qed

lemma signin_debug_tests: "success_outcome_debug_redacts_tokens esc" "signin_builder_debug_redacts_password esc"
  by (simp_all add: success_outcome_debug_redacts_tokens_def signin_builder_debug_redacts_password_def debug_outcome_def
      debug_sign_in_def debug_credentials_def debug_password_credentials_def with_password_def credentials_password_def
      debug_eval show_word_def show_decimal)

lemma garbage_claims: "\<exists>t. token_claims J ''not.a.real.jwt'' = Inl (AuthRejected t)"
  "\<exists>t. token_claims J ''this-is-not-a-jwt'' = Inl (AuthRejected t)"
  by (simp_all add: token_claims_def decode_payload_def)

lemma malformed_execution_tests:
  "refresh_token_with_malformed_jwt_errors_immediately A w" "execute_with_store_bypasses_store_for_refresh_builder A w"
  using garbage_claims(1) [of "al_jwt A"]
  by (auto simp: refresh_token_with_malformed_jwt_errors_immediately_def
      execute_with_store_bypasses_store_for_refresh_builder_def execute_with_store_def execute_def with_refresh_token_def
      credentials_refresh_token_def execute_refresh_token_flow_def)

lemma claims_of_signin_jwt:
  assumes "url_safe enc J" "reads_as J payload (Some ''76561198000000001'') expiry" "payload \<noteq> []"
  shows "token_claims J (signin_jwt enc payload) = Inr \<lparr>rc_steam_id = 76561198000000001, rc_exp = expiry\<rparr>"
proof -
  have "CHR ''.'' \<notin> set ''sig''" by simp
  then show ?thesis
    unfolding signin_jwt_def using assms claims_of_parts [OF assms, of "enc (as_bytes (raw_json ''{`alg`:`none`}''))" "''sig''"] sub_number
    by (auto simp: url_safe_def as_bytes_def raw_json_def)
qed

text \<open>The tests run between the two expiry times, 1970 and 2100.\<close>

lemma token_flow_tests:
  assumes "url_safe enc (al_jwt A)" "1 \<le> now_unix A w" "now_unix A w < 4102444740"
    and "reads_as (al_jwt A) (raw_json ''{`sub`:`76561198000000001`,`exp`:4102444800}'')
      (Some ''76561198000000001'') (Some 4102444800)"
    and "reads_as (al_jwt A) (raw_json ''{`sub`:`76561198000000001`,`exp`:1}'') (Some ''76561198000000001'') (Some 1)"
  shows "refresh_token_valid_jwt_passes_through_without_webapi A enc w" "refresh_token_expired_jwt_is_rejected A enc w"
proof -
  have flow: "execute A (with_refresh_token jwt) w = Some (execute_refresh_token_flow A (RefreshToken jwt) w, w)" for jwt
    by (simp add: execute_def with_refresh_token_def credentials_refresh_token_def)
  have "\<not> (4102444740 \<le> now_unix A w)" using assms(3) by simp
  then show "refresh_token_valid_jwt_passes_through_without_webapi A enc w"
    using claims_of_signin_jwt [OF assms(1, 4)]
    by (simp add: refresh_token_valid_jwt_passes_through_without_webapi_def flow execute_refresh_token_flow_def
        saturating_sub_def TOKEN_EXPIRY_SLACK_SECS_def raw_json_def Let_def)
  show "refresh_token_expired_jwt_is_rejected A enc w"
    using claims_of_signin_jwt [OF assms(1, 5)] assms(2)
    by (simp add: refresh_token_expired_jwt_is_rejected_def flow execute_refresh_token_flow_def
        saturating_sub_def TOKEN_EXPIRY_SLACK_SECS_def raw_json_def Let_def)
qed

text \<open>Through the dead proxy the client is built, and its first request fails.\<close>

lemma corrupt_store_test:
  assumes "parse url_parse ''socks5://127.0.0.1:1'' = Inr dead_proxy"
    and "new_client (al_web A) (Some dead_proxy) w = Inr c"
    and "is_ok (url_for (al_web A) ''GetPasswordRSAPublicKey'')"
    and "\<And>url params. \<exists>e. rq_get (we_reqwest (al_web A) (length (wb_calls w))) c url params = Inl e"
  shows "execute_with_store_falls_back_when_stored_token_is_corrupt url_parse A w"
proof -
  let ?s = "through_proxy dead_proxy (with_password ''bot01'' ''pw'')"
  obtain url where url: "url_for (al_web A) ''GetPasswordRSAPublicKey'' = Inr url"
    using assms(3) by (auto simp: is_ok_def split: sum.splits)
  obtain e where "rq_get (we_reqwest (al_web A) (length (wb_calls w))) c url
      [(''input_protobuf_encoded'', we_b64_encode (al_web A) (al_enc_rsa A (Some ''bot01'')))] = Inl e"
    using assms(4) by blast
  then obtain e w' where "fetch_rsa_key A c ''bot01'' w = (Inl (Network e), w')"
    by (auto simp: fetch_rsa_key_def on_answer_def call_def url Let_def)
  then have "execute A ?s w = Some (Inl (Network e), w')"
    using assms(2) by (simp add: execute_def execute_password_flow_def through_proxy_def with_password_def credentials_password_def)
  then have "execute_with_store A corrupt_store ?s None w = Some (Inl (Network e), None, w')"
    using garbage_claims(2) [of "al_jwt A"]
    by (auto simp: execute_with_store_def corrupt_store_def through_proxy_def with_password_def credentials_password_def
        with_refresh_token_def credentials_refresh_token_def execute_def [of A "\<lparr>si_credentials = Token t, si_proxy = p\<rparr>" for t p]
        execute_refresh_token_flow_def password_and_save_def)
  then show ?thesis using assms(1) by (simp add: execute_with_store_falls_back_when_stored_token_is_corrupt_def)
qed

end
