(* ===== verification/Tests_Integration.thy ===== *)
theory Tests_Integration
  imports Tests_Services Tests_Auth Tests_Transport
begin

text \<open>
  The offline integration tests: \<^verbatim>\<open>tests/session_handlers.rs\<close>, the \<^verbatim>\<open>CONNECT\<close> part of \<^verbatim>\<open>tests/proxy_handshake.rs\<close>
  and \<^verbatim>\<open>tests/smoke.rs\<close>.  The SOCKS5 handshake is tokio-socks', and two of the smoke tests are of prost alone.
\<close>

section \<open>session\_handlers.rs: rejections\<close>

definition SELF_ID :: u64 where "SELF_ID = 76561198000000000"
definition OTHER_ID :: u64 where "OTHER_ID = 76561198000000001"
definition ERESULT_LIMIT_EXCEEDED :: u32 where "ERESULT_LIMIT_EXCEEDED = 25"

definition answer_request ::
    "u32 \<Rightarrow> bytes \<Rightarrow> i32 option \<Rightarrow> (env \<Rightarrow> handle \<Rightarrow> 'a \<times> handle) \<Rightarrow> 'a option" where
  "answer_request expect_emsg body header_eresult op =
     (let reply = \<lparr>sm_emsg = expect_emsg, sm_header = default_header\<lparr>hdr_eresult := header_eresult\<rparr>, sm_body = body\<rparr>;
          (handle, E) = for_test SELF_ID (\<lambda>_. Some (0, Reply (Inr reply))) (\<lambda>_. []) Map.empty;
          (r, handle) = op E handle
      in case h_sent handle of
           [Request emsg _ _ _] \<Rightarrow> if emsg = expect_emsg then Some r else None
         | _ \<Rightarrow> None)"

definition rejected_with :: "string \<Rightarrow> 'a result option \<Rightarrow> bool" where
  "rejected_with needle r = some_and r (\<lambda>r. err_and r (remote_with needle))"

definition set_nickname_accepts_ok :: "friends_wire \<Rightarrow> (eresult_response \<Rightarrow> bytes) \<Rightarrow> bool" where
  "set_nickname_accepts_ok F enc =
     some_and (answer_request EMSG_AM_CLIENT_SET_PLAYER_NICKNAME (enc \<lparr>er_eresult = Some 1\<rparr>) None
       (\<lambda>E h. set_nickname F E h OTHER_ID ''rival'')) (\<lambda>r. ok_and r (\<lambda>_. True))"

definition set_nickname_rejects_a_non_ok_eresult :: "friends_wire \<Rightarrow> (eresult_response \<Rightarrow> bytes) \<Rightarrow> bool" where
  "set_nickname_rejects_a_non_ok_eresult F enc =
     rejected_with ''eresult 25'' (answer_request EMSG_AM_CLIENT_SET_PLAYER_NICKNAME
       (enc \<lparr>er_eresult = Some ERESULT_LIMIT_EXCEEDED\<rparr>) None (\<lambda>E h. set_nickname F E h OTHER_ID ''rival''))"

definition clear_nickname_rejects_a_non_ok_eresult :: "friends_wire \<Rightarrow> (eresult_response \<Rightarrow> bytes) \<Rightarrow> bool" where
  "clear_nickname_rejects_a_non_ok_eresult F enc =
     rejected_with ''eresult 25'' (answer_request EMSG_AM_CLIENT_SET_PLAYER_NICKNAME
       (enc \<lparr>er_eresult = Some ERESULT_LIMIT_EXCEEDED\<rparr>) None (\<lambda>E h. clear_nickname F E h OTHER_ID))"

definition an_empty_reply_body_is_the_proto2_fail_default :: "friends_wire \<Rightarrow> bool" where
  "an_empty_reply_body_is_the_proto2_fail_default F =
     rejected_with ''eresult 2'' (answer_request EMSG_AM_CLIENT_SET_PLAYER_NICKNAME [] None
       (\<lambda>E h. set_nickname F E h OTHER_ID ''rival''))"

definition delete_friends_group_rejects_a_non_ok_eresult :: "friends_wire \<Rightarrow> (eresult_response \<Rightarrow> bytes) \<Rightarrow> bool" where
  "delete_friends_group_rejects_a_non_ok_eresult F enc =
     rejected_with ''eresult 25'' (answer_request EMSG_AM_CLIENT_DELETE_FRIENDS_GROUP
       (enc \<lparr>er_eresult = Some ERESULT_LIMIT_EXCEEDED\<rparr>) None (\<lambda>E h. delete_friends_group F E h 7))"

definition rename_friends_group_rejects_a_non_ok_eresult :: "friends_wire \<Rightarrow> (eresult_response \<Rightarrow> bytes) \<Rightarrow> bool" where
  "rename_friends_group_rejects_a_non_ok_eresult F enc =
     rejected_with ''eresult 25'' (answer_request EMSG_AM_CLIENT_MANAGE_FRIENDS_GROUP
       (enc \<lparr>er_eresult = Some ERESULT_LIMIT_EXCEEDED\<rparr>) None (\<lambda>E h. rename_friends_group F E h 7 ''squad''))"

definition remove_friends_from_group_rejects_a_non_ok_eresult :: "friends_wire \<Rightarrow> (eresult_response \<Rightarrow> bytes) \<Rightarrow> bool" where
  "remove_friends_from_group_rejects_a_non_ok_eresult F enc =
     rejected_with ''eresult 25'' (answer_request EMSG_AM_CLIENT_REMOVE_FRIEND_FROM_GROUP
       (enc \<lparr>er_eresult = Some ERESULT_LIMIT_EXCEEDED\<rparr>) None (\<lambda>E h. remove_friends_from_group F E h 7 [OTHER_ID]))"

text \<open>Exactly one request is sent for the two accounts: the second is not tried after the first is rejected.\<close>

definition add_friends_to_group_stops_at_the_first_rejection :: "friends_wire \<Rightarrow> (eresult_response \<Rightarrow> bytes) \<Rightarrow> bool" where
  "add_friends_to_group_stops_at_the_first_rejection F enc =
     rejected_with ''eresult 25'' (answer_request EMSG_AM_CLIENT_ADD_FRIEND_TO_GROUP
       (enc \<lparr>er_eresult = Some ERESULT_LIMIT_EXCEEDED\<rparr>) None (\<lambda>E h. add_friends_to_group F E h 7 [OTHER_ID, OTHER_ID + 1]))"

definition a_non_ok_header_eresult_fails_the_request :: "friends_wire \<Rightarrow> (eresult_response \<Rightarrow> bytes) \<Rightarrow> bool" where
  "a_non_ok_header_eresult_fails_the_request F enc =
     rejected_with ''eresult 15'' (answer_request EMSG_AM_CLIENT_SET_PLAYER_NICKNAME (enc \<lparr>er_eresult = Some 1\<rparr>) (Some 15)
       (\<lambda>E h. set_nickname F E h OTHER_ID ''rival''))"

definition request_profile_info_rejects_a_non_ok_eresult ::
    "persona_wire \<Rightarrow> (cmsg_client_friend_profile_info_response \<Rightarrow> bytes) \<Rightarrow> bool" where
  "request_profile_info_rejects_a_non_ok_eresult P enc =
     rejected_with ''eresult 15'' (answer_request EMSG_CLIENT_FRIEND_PROFILE_INFO
       (enc (default_profile_response\<lparr>fp_eresult := Some 15, fp_real_name := Some ''Gabe''\<rparr>)) None
       (\<lambda>E h. request_profile_info P E h OTHER_ID))"

definition request_profile_info_maps_an_ok_response ::
    "persona_wire \<Rightarrow> (cmsg_client_friend_profile_info_response \<Rightarrow> bytes) \<Rightarrow> bool" where
  "request_profile_info_maps_an_ok_response P enc =
     some_and (answer_request EMSG_CLIENT_FRIEND_PROFILE_INFO
       (enc (default_profile_response\<lparr>fp_eresult := Some 1, fp_steamid_friend := Some OTHER_ID, fp_real_name := Some ''Gabe'',
          fp_city_name := Some [], fp_time_created := Some 1234\<rparr>)) None (\<lambda>E h. request_profile_info P E h OTHER_ID))
       (\<lambda>r. ok_and r (\<lambda>info. pi_steam_id info = OTHER_ID \<and> pi_real_name info = Some ''Gabe'' \<and> pi_city info = None \<and>
          pi_created_at info = Some 1234))"

text \<open>The driver's end of the command channel is dropped.\<close>

definition a_stopped_driver_fails_the_request :: "friends_wire \<Rightarrow> bool" where
  "a_stopped_driver_fails_the_request F =
     (let (handle, E) = for_test SELF_ID Map.empty (\<lambda>_. []) Map.empty
      in err_and (fst (set_nickname F (E\<lparr>en_running := \<lambda>_. False\<rparr>) handle OTHER_ID ''rival'')) is_web_socket)"

text \<open>The message decoders of the responses that carry only a result code share one encoder; an empty body decodes
  to the message without one.\<close>

definition codes_eresults :: "friends_wire \<Rightarrow> (eresult_response \<Rightarrow> bytes) \<Rightarrow> bool" where
  "codes_eresults F enc \<longleftrightarrow>
     (\<forall>m. fw_dec_set_nickname F (enc m) = Inr m \<and> fw_dec_delete_group F (enc m) = Inr m \<and>
        fw_dec_manage_group F (enc m) = Inr m \<and> fw_dec_add_to_group F (enc m) = Inr m \<and>
        fw_dec_remove_from_group F (enc m) = Inr m) \<and>
     fw_dec_set_nickname F [] = Inr \<lparr>er_eresult = None\<rparr>"

lemmas rejection_eval = answer_request_def rejected_with_def remote_with_def contains_def starts_with_def expect_ok_def
  ERESULT_OK_U32_def ERESULT_FAIL_U32_def ERESULT_LIMIT_EXCEEDED_def OTHER_ID_def emsg_defs show_word_def show_int_def
  show_decimal seam_eval

lemma nickname_handler_tests:
  assumes "codes_eresults F enc"
  shows "set_nickname_accepts_ok F enc" "set_nickname_rejects_a_non_ok_eresult F enc"
    "clear_nickname_rejects_a_non_ok_eresult F enc" "an_empty_reply_body_is_the_proto2_fail_default F"
    "a_non_ok_header_eresult_fails_the_request F enc" "a_stopped_driver_fails_the_request F"
  using assms
  by (simp_all add: codes_eresults_def set_nickname_accepts_ok_def set_nickname_rejects_a_non_ok_eresult_def
      clear_nickname_rejects_a_non_ok_eresult_def an_empty_reply_body_is_the_proto2_fail_default_def
      a_non_ok_header_eresult_fails_the_request_def a_stopped_driver_fails_the_request_def set_nickname_def
      clear_nickname_def rejection_eval)

lemma group_handler_tests:
  assumes "codes_eresults F enc"
  shows "delete_friends_group_rejects_a_non_ok_eresult F enc" "rename_friends_group_rejects_a_non_ok_eresult F enc"
    "remove_friends_from_group_rejects_a_non_ok_eresult F enc" "add_friends_to_group_stops_at_the_first_rejection F enc"
  using assms
  by (simp_all add: codes_eresults_def delete_friends_group_rejects_a_non_ok_eresult_def
      rename_friends_group_rejects_a_non_ok_eresult_def remove_friends_from_group_rejects_a_non_ok_eresult_def
      add_friends_to_group_stops_at_the_first_rejection_def delete_friends_group_def rename_friends_group_def
      remove_friends_from_group_def add_friends_to_group_def remove_member_def add_member_def rejection_eval)

lemma profile_handler_tests:
  assumes "\<And>m. pw_dec_profile_info P (enc m) = Inr m"
  shows "request_profile_info_rejects_a_non_ok_eresult P enc" "request_profile_info_maps_an_ok_response P enc"
  using assms
  by (simp_all add: request_profile_info_rejects_a_non_ok_eresult_def request_profile_info_maps_an_ok_response_def
      request_profile_info_def profile_info_from_response_def default_profile_response_def some_if_set_def rejection_eval)

section \<open>session\_handlers.rs: pushed messages\<close>

definition one_friend :: "bool \<Rightarrow> u64 \<Rightarrow> cmsg_client_friends_list" where
  "one_friend incremental sid =
     \<lparr>fl_bincremental = Some incremental, fl_friends = [\<lparr>pf_ulfriendid = Some sid, pf_efriendrelationship = Some 3\<rparr>]\<rparr>"

definition request_friends_list_reads_the_cached_snapshot :: "friends_wire \<Rightarrow> (cmsg_client_friends_list \<Rightarrow> bytes) \<Rightarrow> bool" where
  "request_friends_list_reads_the_cached_snapshot F enc =
     (let (handle, E) = for_test SELF_ID Map.empty (\<lambda>_. []) [EMSG_CLIENT_FRIENDS_LIST \<mapsto> enc (one_friend False OTHER_ID)]
      in ok_and (fst (request_friends_list F E handle)) (\<lambda>l.
           length l = 1 \<and> fr_steam_id (l ! 0) = OTHER_ID \<and> fr_relationship (l ! 0) = IsFriend))"

definition request_friends_list_skips_an_incremental_cached_delta ::
    "friends_wire \<Rightarrow> (cmsg_client_friends_list \<Rightarrow> bytes) \<Rightarrow> bool" where
  "request_friends_list_skips_an_incremental_cached_delta F enc =
     (let full = \<lparr>sm_emsg = EMSG_CLIENT_FRIENDS_LIST, sm_header = default_header, sm_body = enc (one_friend False OTHER_ID)\<rparr>;
          (handle, E) = for_test SELF_ID Map.empty (\<lambda>_. [(0, RecvOk full)])
            [EMSG_CLIENT_FRIENDS_LIST \<mapsto> enc (one_friend True 999)]
      in ok_and (fst (request_friends_list F E handle)) (\<lambda>l. length l = 1 \<and> fr_steam_id (l ! 0) = OTHER_ID))"

text \<open>The summary request with its notification acknowledged and these messages pushed: the result and when it came.
  No result if the notification is not the expected one.\<close>

definition player_summary_pushed ::
    "persona_wire \<Rightarrow> (bytes \<Rightarrow> string + cmsg_client_request_friend_data) \<Rightarrow> steam_message receiver \<Rightarrow>
     (player_summary result \<times> millis) option" where
  "player_summary_pushed P dec pushes =
     (let (handle, E) = for_test SELF_ID (\<lambda>_. Some (0, Ack (Inr ()))) (\<lambda>_. pushes) Map.empty;
          (r, handle) = request_player_summary P E handle OTHER_ID
      in case (h_sent handle, r) of
           ([Notify emsg body _], Ready summary) \<Rightarrow>
             if emsg = EMSG_CLIENT_REQUEST_FRIEND_DATA \<and>
                ok_and (dec body) (\<lambda>sent. rd_friends sent = [OTHER_ID] \<and>
                  some_and (rd_persona_state_requested sent) (\<lambda>flags. flags AND 1 = 1 \<and> flags AND 2 = 2))
             then Some (summary, h_now handle) else None
         | _ \<Rightarrow> None)"

definition pushed_state :: "(cmsg_client_persona_state \<Rightarrow> bytes) \<Rightarrow> u32 \<Rightarrow> persona_friend \<Rightarrow> steam_message" where
  "pushed_state enc status_flags friend = state_message enc \<lparr>cs_status_flags = Some status_flags, cs_friends = [friend]\<rparr>"

text \<open>The two partial pushes come at once and the full one after the test's 200 milliseconds, when the request is
  still waiting.\<close>

definition request_player_summary_ignores_a_partial_persona_state ::
    "persona_wire \<Rightarrow> (bytes \<Rightarrow> string + cmsg_client_request_friend_data) \<Rightarrow> (cmsg_client_persona_state \<Rightarrow> bytes) \<Rightarrow> bool" where
  "request_player_summary_ignores_a_partial_persona_state P dec enc =
     (let partial = pushed_state enc 1 (default_friend\<lparr>pr_friendid := Some OTHER_ID, pr_persona_state := Some 1\<rparr>);
          other = pushed_state enc 3 (default_friend\<lparr>pr_friendid := Some SELF_ID, pr_player_name := Some ''someone else''\<rparr>);
          full = pushed_state enc 3 (default_friend\<lparr>pr_friendid := Some OTHER_ID, pr_persona_state := Some 1,
            pr_player_name := Some ''roidbot'', pr_avatar_hash := Some [0xDE, 0xAD, 0xBE, 0xEF]\<rparr>)
      in some_and (player_summary_pushed P dec [(0, RecvOk partial), (0, RecvOk other), (201, RecvOk full)])
           (\<lambda>(r, answered_at). 200 < answered_at \<and> ok_and r (\<lambda>summary.
              ps_steam_id summary = OTHER_ID \<and> ps_persona_name summary = ''roidbot'' \<and>
              ps_avatar_hash summary = ''deadbeef'' \<and> ps_current_game summary = None)))"

lemma cached_list_tests:
  assumes "\<And>l. fw_dec_friends_list F (enc l) = Inr l"
  shows "request_friends_list_reads_the_cached_snapshot F enc" "request_friends_list_skips_an_incremental_cached_delta F enc"
  using assms
  by (simp_all add: request_friends_list_reads_the_cached_snapshot_def request_friends_list_skips_an_incremental_cached_delta_def
      one_friend_def request_friends_list_def request_snapshot_def take_snapshot_def subscribe_def cached_snapshot_def
      for_test_def is_full_friends_def friends_from_def relationship_from_raw_def List.map_filter_simps Let_def)

lemma partial_state_test:
  assumes "\<And>st. pw_dec_persona_state P (enc st) = Inr st" "\<And>m. dec (pw_enc_request_friend_data P m) = Inr m"
  shows "request_player_summary_ignores_a_partial_persona_state P dec enc"
proof -
  have hex: "hash_to_hex [0xDE, 0xAD, 0xBE, 0xEF] = ''deadbeef''" by code_simp
  have flags: "PERSONA_FLAGS AND 1 = 1" "PERSONA_FLAGS AND 2 = 2" by code_simp+
  show ?thesis using assms
    by (simp add: request_player_summary_ignores_a_partial_persona_state_def player_summary_pushed_def pushed_state_def
        state_message_def request_player_summary_def subscribe_def take_summary_def summary_from_persona_state_def
        REQUIRED_SUMMARY_FLAGS_def SUMMARY_TIMEOUT_def SELF_ID_def OTHER_ID_def default_friend_def hex flags
        for_test_def notify_def queue_command_def Let_def)
qed

section \<open>proxy\_handshake.rs\<close>

definition TARGET_HOST :: string where "TARGET_HOST = ''cm.steampowered.com''"
definition TARGET_PORT :: u16 where "TARGET_PORT = 27017"
definition EXPECTED_BASIC :: string where "EXPECTED_BASIC = ''Ym90MDE6aHVudGVyMg==''"

definition test_creds :: proxy_credentials where
  "test_creds = \<lparr>pc_username = ''bot01'', pc_password = ''hunter2''\<rparr>"

definition test_proxy :: "proxy_kind \<Rightarrow> u16 \<Rightarrow> proxy_credentials option \<Rightarrow> proxy_config" where
  "test_proxy kind port credentials =
     \<lparr>px_kind = kind, px_host = ''127.0.0.1'', px_port = port, px_credentials = credentials, px_tls_to_proxy = False\<rparr>"

text \<open>A listener on the loopback that answers with these bytes, and base64 as the argument.\<close>

definition loopback :: "(string \<Rightarrow> string) \<Rightarrow> bytes \<Rightarrow> stream_tail \<Rightarrow> net" where
  "loopback base64 reply tail =
     \<lparr>net_socks5 = \<lambda>_ _ _ _. Pending,
      net_tcp = \<lambda>_. Ready (Inr \<lparr>bs_sent = [], bs_incoming = reply, bs_tail = tail\<rparr>),
      net_server_name = Inr, net_webpki_roots = [], net_tls = \<lambda>_ _ s. Ready (Inr s),
      net_write = \<lambda>_ _. Ready (Inr ()), net_base64 = base64\<rparr>"

text \<open>The lines of a request head, without their line ends, up to the blank line.\<close>

lemma take_line_rest: "bs \<noteq> [] \<Longrightarrow> length (snd (take_line bs)) < length bs"
  using length_dropWhile_le [of "\<lambda>b. b \<noteq> 10" bs] by (cases bs) (auto simp: take_line_def less_Suc_eq_le le_diff_conv)

function read_request :: "bytes \<Rightarrow> string list" where
  "read_request bs =
     (let line = fst (take_line bs)
      in if bs = [] \<or> line = [13, 10] then []
         else bytes_str (take (length line - 2) line) # read_request (snd (take_line bs)))"
  by pat_completeness auto
termination by (relation "measure length") (simp_all add: take_line_rest)

declare read_request.simps [simp del]

definition connect_writes_the_request_line_and_host_header :: "(string \<Rightarrow> string) \<Rightarrow> u16 \<Rightarrow> bool" where
  "connect_writes_the_request_line_and_host_header base64 port =
     (let reply = as_bytes (''HTTP/1.1 200 Connection established'' @ crlf @ crlf @ ''TUNNELLED'')
      in ok_and (connect_via_proxy (loopback base64 reply TailEof) (test_proxy PkHttpConnect port None) TARGET_HOST TARGET_PORT)
           (\<lambda>stream.
              let lines = read_request (bs_sent stream)
              in take 9 (bs_incoming stream) = as_bytes ''TUNNELLED'' \<and>
                 lines ! 0 = ''CONNECT cm.steampowered.com:27017 HTTP/1.1'' \<and> lines ! 1 = ''Host: cm.steampowered.com:27017'' \<and>
                 \<not> list_ex (starts_with ''Proxy-Authorization:'') lines))"

definition connect_sends_base64_basic_proxy_authorization :: "(string \<Rightarrow> string) \<Rightarrow> u16 \<Rightarrow> bool" where
  "connect_sends_base64_basic_proxy_authorization base64 port =
     (let reply = as_bytes (''HTTP/1.1 200 OK'' @ crlf @ crlf)
      in ok_and (connect_via_proxy (loopback base64 reply TailEof) (test_proxy PkHttpConnect port (Some test_creds)) TARGET_HOST TARGET_PORT)
           (\<lambda>stream. (''Proxy-Authorization: Basic '' @ EXPECTED_BASIC) \<in> set (read_request (bs_sent stream))))"

definition http_connect_with :: "string \<Rightarrow> error \<Rightarrow> bool" where
  "http_connect_with text e = (case e of HttpConnect t \<Rightarrow> contains t text | _ \<Rightarrow> False)"

definition connect_rejects_a_407_challenge :: "(string \<Rightarrow> string) \<Rightarrow> u16 \<Rightarrow> bool" where
  "connect_rejects_a_407_challenge base64 port =
     (let reply = as_bytes (''HTTP/1.1 407 Proxy Authentication Required'' @ crlf @ ''Proxy-Authenticate: Basic'' @ crlf @ crlf)
      in err_and (connect_via_proxy (loopback base64 reply TailEof) (test_proxy PkHttpConnect port None) TARGET_HOST TARGET_PORT)
           (http_connect_with ''407''))"

definition connect_rejects_an_endless_header_block :: "(string \<Rightarrow> string) \<Rightarrow> u16 \<Rightarrow> bool" where
  "connect_rejects_an_endless_header_block base64 port =
     (let reply = as_bytes (''HTTP/1.1 200 OK'' @ crlf) @ concat (replicate 200 (as_bytes (''X-Pad: 1'' @ crlf)))
      in err_and (connect_via_proxy (loopback base64 reply TailStall) (test_proxy PkHttpConnect port None) TARGET_HOST TARGET_PORT)
           (http_connect_with ''too many''))"

definition connect_times_out_on_a_proxy_that_stalls_mid_headers :: "(string \<Rightarrow> string) \<Rightarrow> u16 \<Rightarrow> bool" where
  "connect_times_out_on_a_proxy_that_stalls_mid_headers base64 port =
     (let reply = as_bytes (''HTTP/1.1 200 OK'' @ crlf)
      in err_and (connect_via_proxy (loopback base64 reply TailStall) (test_proxy PkHttpConnect port None) TARGET_HOST TARGET_PORT)
           (\<lambda>e. e = Timeout ''http connect read headers''))"

text \<open>Nothing listens: the dial is refused.\<close>

definition connect_fails_fast_when_nothing_is_listening :: "(string \<Rightarrow> string) \<Rightarrow> u16 \<Rightarrow> string \<Rightarrow> bool" where
  "connect_fails_fast_when_nothing_is_listening base64 port refused =
     err_and (connect_via_proxy ((loopback base64 [] TailEof)\<lparr>net_tcp := \<lambda>_. Ready (Inl refused)\<rparr>)
       (test_proxy PkHttpConnect port None) TARGET_HOST TARGET_PORT) (\<lambda>e. case e of Io _ \<Rightarrow> True | _ \<Rightarrow> False)"

lemma loopback_connect:
  "connect_via_proxy (loopback base64 reply tail) (test_proxy PkHttpConnect port creds) host p =
     read_connect_reply \<lparr>bs_sent = as_bytes (connect_request (loopback base64 reply tail) (test_proxy PkHttpConnect port creds) host p),
       bs_incoming = reply, bs_tail = tail\<rparr>"
  by (simp add: connect_via_proxy_def connect_http_def proxy_leg_def loopback_def test_proxy_def)

lemma crlf_bytes: "as_bytes crlf = [13, 10]"
  by (simp add: crlf_def as_bytes_def)

lemma ok_line:
  "crlf_line (as_bytes ''HTTP/1.1 200 OK'')" "is_ok_status (trim_end (bytes_str (as_bytes ''HTTP/1.1 200 OK'' @ [13, 10])))"
  "crlf_line (as_bytes ''X-Pad: 1'')"
  by code_simp+

lemma established_line: "crlf_line (as_bytes ''HTTP/1.1 200 Connection established'')"
  by code_simp

lemma established_ok: "is_ok_status (trim_end (bytes_str (as_bytes ''HTTP/1.1 200 Connection established'' @ [13, 10])))"
  by code_simp

lemma challenge_line: "crlf_line (as_bytes ''HTTP/1.1 407 Proxy Authentication Required'')"
  by code_simp

lemma challenge_trimmed:
  "trim_end (bytes_str (as_bytes ''HTTP/1.1 407 Proxy Authentication Required'' @ [13, 10])) =
     ''HTTP/1.1 407 Proxy Authentication Required''"
  by code_simp

lemma challenge_refused: "\<not> is_ok_status ''HTTP/1.1 407 Proxy Authentication Required''"
  by code_simp

lemma reply_tunnel:
  assumes "crlf_line st" "is_ok_status (trim_end (bytes_str (st @ [13, 10])))" "bs_incoming s = st @ [13, 10] @ [13, 10] @ rest"
  shows "read_connect_reply s = Inr (s\<lparr>bs_incoming := rest\<rparr>)"
  using assms read_connect_reply_ok [of st "[]" s rest] by (simp add: header_block_def MAX_CONNECT_HEADERS_def)

lemma request_line:
  assumes "10 \<notin> set l" "l \<noteq> []"
  shows "read_request (l @ [13, 10] @ rest) = bytes_str l # read_request rest"
proof -
  have "take_line (l @ [13, 10] @ rest) = (l @ [13, 10], rest)"
    using assms(1) by (simp add: take_line_def takeWhile_append dropWhile_append)
  with assms(2) show ?thesis by (simp add: read_request.simps [of "l @ 13 # 10 # rest"])
qed

lemma request_end: "read_request [13, 10] = []"
  by (simp add: read_request.simps [of "[13, 10]"] take_line_def)

lemma request_of_test:
  "read_request (as_bytes (connect_request N (test_proxy PkHttpConnect port creds) TARGET_HOST TARGET_PORT)) =
     [''CONNECT cm.steampowered.com:27017 HTTP/1.1'', ''Host: cm.steampowered.com:27017''] @
     (case creds of None \<Rightarrow> [] | Some c \<Rightarrow> [''Proxy-Authorization: Basic '' @ net_base64 N (pc_username c @ '':'' @ pc_password c)])"
  if "\<And>c. creds = Some c \<Longrightarrow> CHR 0x0A \<notin> set (net_base64 N (pc_username c @ '':'' @ pc_password c))"
proof -
  let ?first = "''CONNECT cm.steampowered.com:27017 HTTP/1.1''" and ?second = "''Host: cm.steampowered.com:27017''"
  have target: "authority TARGET_HOST TARGET_PORT = ''cm.steampowered.com:27017''"
    by (simp add: authority_def TARGET_HOST_def TARGET_PORT_def show_word_def show_decimal)
  have lf: "10 \<notin> set (as_bytes t)" if "CHR 0x0A \<notin> set t" for t
  proof
    assume "10 \<in> set (as_bytes t)"
    then have "char_of (unat (10 :: byte)) \<in> set (bytes_str (as_bytes t))" unfolding bytes_str_def by (simp only: set_map) blast
    moreover have "char_of (unat (10 :: byte)) = CHR 0x0A" by code_simp
    ultimately show False using that by simp
  qed
  have line: "read_request (as_bytes t @ [13, 10] @ rest) = t # read_request rest" if "CHR 0x0A \<notin> set t" "t \<noteq> []" for t rest
  proof -
    have "as_bytes t \<noteq> []" using that(2) by (simp add: as_bytes_def)
    with request_line [of "as_bytes t" rest] lf [OF that(1)] show ?thesis by simp
  qed
  have "as_bytes (connect_request N (test_proxy PkHttpConnect port creds) TARGET_HOST TARGET_PORT) =
      as_bytes ?first @ [13, 10] @ as_bytes ?second @ [13, 10] @
      (case creds of None \<Rightarrow> [] | Some c \<Rightarrow>
         as_bytes (''Proxy-Authorization: Basic '' @ net_base64 N (pc_username c @ '':'' @ pc_password c)) @ [13, 10]) @ [13, 10]"
    by (simp add: connect_request_def target test_proxy_def crlf_def as_bytes_def split: option.split)
  then show ?thesis
    using line [of ?first] line [of ?second] that
      line [of "''Proxy-Authorization: Basic '' @ net_base64 N (pc_username c @ '':'' @ pc_password c)" "[13, 10]" for c]
    by (cases creds) (simp_all add: request_end)
qed


lemma tunnel_tests:
  "connect_writes_the_request_line_and_host_header base64 port"
  "base64 ''bot01:hunter2'' = EXPECTED_BASIC \<Longrightarrow> connect_sends_base64_basic_proxy_authorization base64 port"
proof -
  let ?st = "as_bytes ''HTTP/1.1 200 Connection established''"
  have "read_connect_reply \<lparr>bs_sent = sent, bs_incoming = ?st @ [13, 10] @ [13, 10] @ as_bytes ''TUNNELLED'', bs_tail = tail\<rparr> =
      Inr \<lparr>bs_sent = sent, bs_incoming = as_bytes ''TUNNELLED'', bs_tail = tail\<rparr>" for sent tail
    by (subst reply_tunnel [OF established_line established_ok]) simp_all
  moreover have "length (as_bytes ''TUNNELLED'') = 9" by (simp add: as_bytes_def)
  ultimately show "connect_writes_the_request_line_and_host_header base64 port"
    unfolding connect_writes_the_request_line_and_host_header_def Let_def loopback_connect as_bytes_append crlf_bytes
    by (simp add: request_of_test [where creds = None, simplified] starts_with_def)
  let ?ok = "as_bytes ''HTTP/1.1 200 OK''"
  have "read_connect_reply \<lparr>bs_sent = sent, bs_incoming = ?ok @ [13, 10] @ [13, 10], bs_tail = tail\<rparr> =
      Inr \<lparr>bs_sent = sent, bs_incoming = [], bs_tail = tail\<rparr>" for sent tail
    by (subst reply_tunnel [OF ok_line(1, 2)]) simp_all
  note accepted = this
  show "connect_sends_base64_basic_proxy_authorization base64 port" if basic: "base64 ''bot01:hunter2'' = EXPECTED_BASIC"
  proof -
    have "''Proxy-Authorization: Basic '' @ EXPECTED_BASIC \<in> set (read_request (as_bytes
        (connect_request (loopback base64 reply tail) (test_proxy PkHttpConnect port (Some test_creds)) TARGET_HOST TARGET_PORT)))" for reply tail
      using basic by (subst request_of_test) (auto simp: test_creds_def loopback_def EXPECTED_BASIC_def)
    then show ?thesis
      unfolding connect_sends_base64_basic_proxy_authorization_def Let_def loopback_connect as_bytes_append crlf_bytes append_assoc accepted
      by simp
  qed
qed

lemma refusal_tests: "connect_rejects_a_407_challenge base64 port" "connect_fails_fast_when_nothing_is_listening base64 port refused"
proof -
  let ?st = "as_bytes ''HTTP/1.1 407 Proxy Authentication Required''"
  have "read_connect_reply \<lparr>bs_sent = sent, bs_incoming = ?st @ [13, 10] @ rest, bs_tail = tail\<rparr> =
      Inl (HttpConnect ''proxy refused: HTTP/1.1 407 Proxy Authentication Required'')" for sent tail rest
    using challenge_line read_crlf_line [of ?st "\<lparr>bs_sent = sent, bs_incoming = ?st @ [13, 10] @ rest, bs_tail = tail\<rparr>" rest]
    by (simp add: read_connect_reply_def crlf_line_def challenge_trimmed [simplified] challenge_refused)
  then show "connect_rejects_a_407_challenge base64 port"
    unfolding connect_rejects_a_407_challenge_def Let_def loopback_connect as_bytes_append crlf_bytes append_assoc
    by (simp add: http_connect_with_def contains_def starts_with_def)
  show "connect_fails_fast_when_nothing_is_listening base64 port refused"
    by (simp add: connect_fails_fast_when_nothing_is_listening_def connect_via_proxy_def connect_http_def test_proxy_def loopback_def)
qed

lemma bounded_read_tests:
  "connect_rejects_an_endless_header_block base64 port" "connect_times_out_on_a_proxy_that_stalls_mid_headers base64 port"
proof -
  let ?ok = "as_bytes ''HTTP/1.1 200 OK''" and ?pad = "as_bytes ''X-Pad: 1''"
  have pads: "concat (replicate n (?pad @ [13, 10])) = header_block (replicate n ?pad)" for n
    by (simp add: header_block_def)
  have "header_block (replicate 200 ?pad) = header_block (replicate MAX_CONNECT_HEADERS ?pad) @ header_block (replicate 136 ?pad)"
    by (simp add: header_block_def MAX_CONNECT_HEADERS_def flip: concat_append replicate_add map_append)
  then have "read_connect_reply \<lparr>bs_sent = sent, bs_incoming = ?ok @ [13, 10] @ header_block (replicate 200 ?pad), bs_tail = tail\<rparr> =
      Inl (HttpConnect ''proxy sent too many CONNECT response headers'')" for sent tail
    using ok_line by (intro connect_headers_bounded [of ?ok "replicate MAX_CONNECT_HEADERS ?pad" _ "header_block (replicate 136 ?pad)"])
      (simp_all add: list_all_iff)
  then show "connect_rejects_an_endless_header_block base64 port"
    unfolding connect_rejects_an_endless_header_block_def Let_def loopback_connect as_bytes_append crlf_bytes append_assoc pads
    by (simp add: http_connect_with_def contains_def starts_with_def)
  have "read_line \<lparr>bs_sent = sent, bs_incoming = ?ok @ [13, 10], bs_tail = TailStall\<rparr> =
      (Ready (Inr (?ok @ [13, 10])), \<lparr>bs_sent = sent, bs_incoming = [], bs_tail = TailStall\<rparr>)" for sent
    using ok_line(1) read_crlf_line [of ?ok "\<lparr>bs_sent = sent, bs_incoming = ?ok @ [13, 10] @ [], bs_tail = TailStall\<rparr>" "[]"]
    by (simp add: crlf_line_def)
  moreover have "drain_headers MAX_CONNECT_HEADERS \<lparr>bs_sent = sent, bs_incoming = [], bs_tail = TailStall\<rparr> =
      Inl (Timeout ''http connect read headers'')" for sent
    by (simp add: MAX_CONNECT_HEADERS_def numeral_eq_Suc read_line_def take_line_def)
  ultimately show "connect_times_out_on_a_proxy_that_stalls_mid_headers base64 port"
    unfolding connect_times_out_on_a_proxy_that_stalls_mid_headers_def Let_def loopback_connect as_bytes_append crlf_bytes
    using ok_line(2) by (simp add: read_connect_reply_def)
qed


section \<open>smoke.rs\<close>

definition credentials_constructors_work :: bool where
  "credentials_constructors_work \<longleftrightarrow>
     (case credentials_password ''bot01'' ''secret'' (Some ''ABCD'') of Password _ \<Rightarrow> True | _ \<Rightarrow> False) \<and>
     (case credentials_refresh_token ''eyJ...'' of Token _ \<Rightarrow> True | _ \<Rightarrow> False)"

definition proxy_url_parses_with_creds :: "(string \<Rightarrow> string + url) \<Rightarrow> bool" where
  "proxy_url_parses_with_creds url_parse =
     ok_and (parse url_parse ''socks5://u:p@host:1080'') (\<lambda>cfg. px_host cfg = ''host'' \<and> px_credentials cfg \<noteq> None)"

definition session_state_label_is_consistent :: bool where
  "session_state_label_is_consistent \<longleftrightarrow> label Connecting = ''connecting'' \<and> label (LoggedOn 1) = ''logged_on''"

definition totp_produces_steam_alphabet :: "(string \<Rightarrow> string + bytes) \<Rightarrow> (bytes \<Rightarrow> bytes \<Rightarrow> bytes) \<Rightarrow> u64 option \<Rightarrow> bool" where
  "totp_produces_steam_alphabet b64_decode hmac_sha1 clock =
     ok_and (generate_auth_code b64_decode hmac_sha1 clock ''AAAAAAAAAAAAAAAAAAAAAAAAAAA='' (Some 0)) (\<lambda>code. length code = 5)"

lemma smoke_tests:
  "credentials_constructors_work" "session_state_label_is_consistent"
  "url_parse ''socks5://u:p@host:1080'' = Inr (url_of ''socks5'' ''host'' (Some 1080) (Some 1080) ''u'' (Some ''p'')) \<Longrightarrow>
     proxy_url_parses_with_creds url_parse"
  "b64_decode ''AAAAAAAAAAAAAAAAAAAAAAAAAAA='' = Inr secret \<Longrightarrow> totp_produces_steam_alphabet b64_decode hmac_sha1 clock"
proof -
  show "credentials_constructors_work" "session_state_label_is_consistent" by code_simp+
  have "percent_decode ''u'' \<noteq> []" "unbracket ''host'' = ''host''" by code_simp+
  then show "proxy_url_parses_with_creds url_parse"
    if "url_parse ''socks5://u:p@host:1080'' = Inr (url_of ''socks5'' ''host'' (Some 1080) (Some 1080) ''u'' (Some ''p''))"
    using that by (simp add: proxy_url_parses_with_creds_def parse_ported kinds)
  show "totp_produces_steam_alphabet b64_decode hmac_sha1 clock" if "b64_decode ''AAAAAAAAAAAAAAAAAAAAAAAAAAA='' = Inr secret"
    using that trimmed_literals(1) by (simp add: totp_produces_steam_alphabet_def generate_auth_code_def generate_with_step_def ZERO_SECRET_B64_def Let_def)
qed

end
