(* ===== verification/Spec2Isabelle.thy ===== *)
theory Spec2Isabelle
  imports Session_Calls Gc_Run Friends Persona Debug_Output Signin
    Example_Tools Example_Signin Example_Dump Example_Persist Tests_Integration
begin

text \<open>
  \<^bold>\<open>Verification of the crate \<^verbatim>\<open>steamroids\<close>.\<close>

  The crate is a client for Steam.  It signs an account in over Steam's web service and obtains a
  refresh token (\<^verbatim>\<open>auth\<close>); with the token it finds a connection manager (CM), opens a WebSocket to it,
  through a proxy if asked to (\<^verbatim>\<open>transport\<close>, \<^verbatim>\<open>pool\<close>), and logs on (\<^verbatim>\<open>session/connection.rs\<close>); a
  background driver then owns the socket, and any number of cloned handles send it commands and
  subscribe to what it broadcasts (\<^verbatim>\<open>session/driver.rs\<close>).  The modules \<^verbatim>\<open>friends\<close>, \<^verbatim>\<open>persona\<close>, \<^verbatim>\<open>gc\<close> and
  \<^verbatim>\<open>cs2\<close> are clients of a handle, and the programs in \<^verbatim>\<open>examples/\<close> put all of it together.

  \<^bold>\<open>Theories.\<close>  Paths are below \<^verbatim>\<open>src/src\<close>, those of the examples below \<^verbatim>\<open>src\<close>.

  \<^item> \<open>Prelude\<close>: types of the model (words for the fixed-width integers, \<open>bytes\<close>, milliseconds), results
    and options with the combinators of the language, decimal and hexadecimal text, reachability, and the
    locale \<open>invariant\<close>.  \<open>Rust_Str\<close>: the string functions the code uses, on UTF-8 bytes.  \<open>Rust_Fmt\<close>: the
    \<^verbatim>\<open>Debug\<close> output of the standard library.
  \<^item> \<open>Steam_Error\<close> (\<^verbatim>\<open>error.rs\<close>) and \<open>Codec\<close> (\<^verbatim>\<open>codec.rs\<close>): result codes and errors; framing, where decoding
    undoes encoding over the locale \<open>framing\<close>.
  \<^item> \<open>Transport\<close>, \<open>Proxy\<close>, \<open>Websocket\<close> (\<^verbatim>\<open>transport/\<close>), \<open>Http\<close> (\<^verbatim>\<open>http.rs\<close>), \<open>Discovery\<close>
    (\<^verbatim>\<open>session/discovery.rs\<close>): proxy URLs, the SOCKS5 and CONNECT handshakes on a byte stream, the
    dialled connection and its TLS configuration, the HTTP client, the CM directory.  Shown: a proxy
    URL means what is written in it, from the scheme to the escaped credentials, the tunnel starts right
    after the header block and the block is bounded, and with a proxy configured no other connection is opened.
  \<^item> \<open>Pool\<close> (\<^verbatim>\<open>pool.rs\<close>): the rotation of proxies.  \<^verbatim>\<open>acquire\<close> refines a queue discipline, the locale
    \<open>round_robin\<close>; every healthy proxy gets its turn; health is the count of failures since the last success.
  \<^item> \<open>Connection\<close> (\<^verbatim>\<open>session/connection.rs\<close>): reading frames, unpacking compressed and nested batches,
    logon, and the choice of a server.  Shown: batches are delivered whole and in order, for every
    shape of nesting (the trees of the datatype \<open>packed\<close>) up to a depth that is bounded, as decompression is;
    liveness is stamped by every frame; which of the messages the connection delivers decide a logon, and how;
    how \<^verbatim>\<open>establish\<close> ends.
  \<^item> \<open>Session_State\<close> (\<^verbatim>\<open>session/state.rs\<close>), \<open>Driver\<close> (\<^verbatim>\<open>session/driver.rs\<close>, the task): the record \<open>driver\<close>
    is \<^verbatim>\<open>SessionDriver\<close> with its channels; one definition per arm of the connected loop, for the ends of
    the loop, reconnect and the end of the task, and the step relation \<open>driver_step\<close> that interleaves them with
    time, the network and the handles.  Closing the socket is a phase of its own, at most five seconds long, in
    which commands are still queued and the last state still stands.  \<open>Driver_Inv\<close>: its invariants, over the locale \<open>job_table\<close> for the table of
    requests in flight.  \<open>Session\<close>: what holds in every reachable state and of each handler.
  \<^item> \<open>Handle\<close> (\<^verbatim>\<open>session/driver.rs\<close>, \<^verbatim>\<open>SessionHandle\<close>): requests, notifications, subscriptions, over an
    environment that says what is answered and when, and what each look of the handle at the driver finds, a
    subscription or a read of the cache, in the order of the looks; the relation \<open>delivers\<close> is the broadcast
    channel with its capacity; the locale \<open>remote_call\<close> is the contract of every
    operation that is one request.  \<open>Session_Run\<close>: runs of the driver as such an
    environment, and what a run leaves in the cache.
    \<open>Session_Calls\<close>: the life of one call.  The driver refines, through the locale \<open>simulation\<close>, an abstract
    machine on which a call is queued, then in flight, then settled once; from it follow the fates of a request
    that was written, that a caller gets the reply to its own job, and that no request outlives the first
    sweep after its deadline.
  \<^item> \<open>Friends\<close> (\<^verbatim>\<open>friends.rs\<close>), \<open>Persona\<close> (\<^verbatim>\<open>persona.rs\<close>): every call of the two modules, with the exact
    conditions under which it succeeds; the locale \<open>member_calls\<close> covers the loops over group members.
  \<^item> \<open>Gc_Envelope\<close>, \<open>Coordinator\<close> (\<^verbatim>\<open>gc/\<close>), \<open>Cs2\<close> (\<^verbatim>\<open>cs2.rs\<close>): the relay envelope, the pump as a
    function of its inputs, which refines a contract in terms of those inputs alone, hellos that
    are repeated until the welcome and not after it, the announcement of the app after every reconnect, and
    requests to the coordinator.  \<open>Gc_Run\<close>: the driver and the pump as two tasks of one system, with the
    capacities of the channel between them and of the one from the pump to its callers; what the pump passes on is
    what the driver broadcast for its app, and a profile reply reaches its caller through both.
  \<^item> \<open>Credentials\<close> (\<^verbatim>\<open>auth/credentials.rs\<close> and the types of \<^verbatim>\<open>auth/signin.rs\<close>), \<open>Totp\<close>, \<open>Jwt\<close>, \<open>Token_Store\<close>,
    \<open>Webapi\<close> (\<^verbatim>\<open>auth/webapi.rs\<close>, \<^verbatim>\<open>auth/rsa_pw.rs\<close>), \<open>Signin\<close>, \<open>Debug_Output\<close> (the other types that print a secret): secrets never reach a log, guard codes,
    token claims, the store's contract as the locale \<open>saved_tokens\<close>, and the sign-in flows, which end, keep to
    the protocol and keep the store in step with what they return.
  \<^item> \<open>Program\<close>: programs as functions on a world of environment variables, files, printed lines, web traffic and
    sessions, with rules for parts that always go on and for parts that only talk to the session.
    \<open>Example_Tools\<close>, \<open>Example_Signin\<close>, \<open>Example_Session\<close>, \<open>Example_Dump\<close>, \<open>Example_Persist\<close> (\<^verbatim>\<open>examples/\<close>): the ten
    programs from their variables to their exit codes.  Shown: the exit codes and output of the sign-in
    programs, that the account dump completes whatever the services answer, and that a persisted login
    is picked up by the next run.
  \<^item> \<open>Tests\<close>, \<open>Tests_Transport\<close>, \<open>Tests_Auth\<close>, \<open>Tests_Session\<close>, \<open>Tests_Services\<close>, \<open>Tests_Integration\<close>: the crate's own tests,
    those inside the modules and the offline ones of \<^verbatim>\<open>tests/\<close>, as propositions on the model with the names of the
    tests, and the test constructors they use (\<^verbatim>\<open>SessionHandle::for_test\<close>, \<^verbatim>\<open>GameCoordinator::for_test\<close>).  All of them hold,
    so on the inputs the authors chose the definitions behave as the authors expect of the code.

  This theory holds the properties that span components: lists pushed after a logon reach every
  caller, no caller is left waiting by a stopped driver, and a session without handles ends.

  \<^bold>\<open>Conventions.\<close>  Code outside the crate is an argument: prost codecs, the url, reqwest, base64, JSON,
  HMAC, RSA, gzip and WebSocket libraries, sockets and TLS, and the caller's token store.  What a
  theorem needs of such code is a hypothesis of the theorem, and a witness shows that it can hold.
  Asynchronous calls pass a clock along; a future that may never complete is a \<open>poll\<close>, a loop that may
  not end is a partial function into options (the poll loop of a sign-in, which is shown to end after at
  most 120 polls).  \<open>read_message\<close> consumes its input and \<open>multi_loop\<close> carries the crate's own depth bound, so
  no other fuel is needed.  Failing paths are values of \<open>error\<close>.  Log lines have no effect on the model.

  \<^bold>\<open>Not modelled.\<close>  The types generated from the protocol files (\<^verbatim>\<open>proto.rs\<close>, \<^verbatim>\<open>build.rs\<close>): a record has
  the fields the crate sets or reads.  Tracing and its spans, the serde derives, which no code of the crate
  calls, and the re-exports of \<^verbatim>\<open>lib.rs\<close> and the \<^verbatim>\<open>mod.rs\<close> files.  A call of \<open>Handle\<close> is
  shown to behave for every sequence of events, \<open>Lagged\<close> included; where a property spans driver and caller the
  receiver loses messages only beyond the 256 of the session's channel and the 64 of the coordinator's.
  A write is one step and its result comes with it: no other arm of the driver runs meanwhile in the code either,
  but a write that never returns, other than the last one of the socket, has no counterpart.  Opening a
  connection is a function of what the network answers; that no other address is dialled is shown by its
  independence of all other answers, not by a trace of dials.  The accessors that
  return one field (\<^verbatim>\<open>Lease::proxy\<close>, \<^verbatim>\<open>GameCoordinator::appid\<close>, \<^verbatim>\<open>watch_state\<close> and the like) are the selectors of the records.  Of the
  tests: the known-answer vectors of HMAC-SHA1, the handshakes of tokio-socks, the resolver of the operating
  system, serde, and messages that prost encodes and decodes with no code of the crate in between; the tests
  against live servers and the benchmark, which assert nothing that a model without Steam could decide.
\<close>

section \<open>Requests over a run of the session driver\<close>

text \<open>The first list of a kind among some messages, if it decodes.\<close>

definition first_list :: "u32 \<Rightarrow> (bytes \<Rightarrow> string + 'l) \<Rightarrow> steam_message list \<Rightarrow> 'l option" where
  "first_list emsg dec evs =
     (case find (\<lambda>m. sm_emsg m = emsg) evs of
        None \<Rightarrow> None
      | Some m \<Rightarrow> (case dec (sm_body m) of Inl _ \<Rightarrow> None | Inr l \<Rightarrow> Some l))"

lemma first_list_append:
  "first_list emsg dec (xs @ ys) =
     (if find (\<lambda>m. sm_emsg m = emsg) xs = None then first_list emsg dec ys else first_list emsg dec xs)"
  by (auto simp: first_list_def find_append split: option.split)

lemma first_list_decides:
  assumes "first_list emsg dec ms = Some l" "\<not> delta l"
  shows "\<exists>m. find (\<lambda>m. sm_emsg m = emsg \<and> \<not> (\<exists>l. dec (sm_body m) = Inr l \<and> delta l)) ms = Some m \<and> dec (sm_body m) = Inr l"
  using assms
proof (induction ms)
  case (Cons m ms)
  then show ?case
    by (cases "sm_emsg m = emsg"; cases "dec (sm_body m)") (simp_all add: first_list_def)
qed (simp add: first_list_def)

lemma snapshot_race_free:
  fixes look h
  defines "d1 \<equiv> look (h_looks h)" and "c \<equiv> look (Suc (h_looks h))"
  assumes "looks_on W look rx d2" "(steady_step W)\<^sup>*\<^sup>* d0 d1" "d_snapshots d0 = (\<lambda>_. None)"
    and "emsg \<in> set POST_LOGIN_SNAPSHOT_EMSGS" "first_list emsg dec (drop (length (d_events d0)) (d_events d2)) = Some l" "full l"
    and "d_now d2 \<le> h_now h + budget"
    and "d_snapshots c emsg = None \<Longrightarrow> length (d_events d2) \<le> length (d_events d1) + EVENT_CAPACITY"
  shows "fst (request_snapshot emsg what dec full conv late budget (session_env d look rx d2) h) = Inr (conv l)"
proof -
  let ?E = "session_env d look rx d2"
  have runs: "(steady_step W)\<^sup>*\<^sup>* d1 c" "(steady_step W)\<^sup>*\<^sup>* c d2"
    and rx: "receives EVENT_CAPACITY (drop (length (d_events d1)) (d_events d2)) (d_now d2) (rx (h_looks h))"
    using assms(3) unfolding looks_on_def d1_def c_def by blast+
  obtain before between "after" where p: "publishes d0 before d1" "publishes d1 between c" "publishes c after d2"
    using steady_run_publishes [OF assms(4)] steady_run_publishes [OF runs(1)] steady_run_publishes [OF runs(2)] by blast
  have evs: "drop (length (d_events d0)) (d_events d2) = (before @ between) @ after"
    "drop (length (d_events d1)) (d_events d2) = between @ after" using p by (simp_all add: publishes_def)
  have cached: "en_snapshots ?E (Suc (h_looks h)) emsg = map_option sm_body (find (\<lambda>m. sm_emsg m = emsg) (before @ between))"
    using assms(5, 6) publishes_trans [OF p(1, 2)] by (simp add: session_env_def publishes_def c_def)
  have "first_list emsg dec (snapshot_sources ?E h emsg budget) = Some l"
  proof (cases "find (\<lambda>m. sm_emsg m = emsg) (before @ between)")
    case None
    then have none: "find (\<lambda>m. sm_emsg m = emsg) between = None" by (auto simp: find_append split: option.splits)
    have "first_list emsg dec after = Some l" using assms(7) None unfolding evs(1) first_list_append by simp
    then have "first_list emsg dec (between @ after @ later) = Some l" for later
      unfolding first_list_append using none by (auto simp: first_list_def split: option.splits)
    moreover have "d_snapshots c emsg = None" using cached None by (simp add: session_env_def c_def)
    with assms(10) evs(2) p have "length (between @ after) \<le> EVENT_CAPACITY" by (simp add: publishes_def)
    with receives_heard [OF rx _ assms(9)] evs(2) obtain later where
      "heard (h_now h + budget) (rx (h_looks h)) = between @ after @ later" by auto
    ultimately show ?thesis unfolding snapshot_sources_def cached None by (simp add: session_env_def)
  next
    case (Some m)
    then have "sm_emsg m = emsg" by (metis (mono_tags, lifting) find_Some_iff)
    then show ?thesis using assms(7) Some unfolding evs snapshot_sources_def cached
      by (auto simp: first_list_def find_append split: option.splits)
  qed
  from first_list_decides [OF this, of "\<lambda>l. \<not> full l"] assms(8) show ?thesis
    by (auto simp: request_snapshot_outcome list_outcome_def)
qed

text \<open>C8: the lists that Steam pushes once after a logon are not missed.  A list request looks at the
  session twice: it subscribes, then it reads the cache.  Wherever these two looks fall among the steps
  of a logon, before the list, between the two or long after, the request returns that list, if the
  list has come by the end of the ten seconds, and, for a list that is not yet in the cache at the second
  look, no more than 256 messages were broadcast since the first.  Beyond that the channel may drop the
  list before the caller reads it.\<close>

theorem lists_never_missed:
  fixes look h
  defines "d1 \<equiv> look (h_looks h)" and "c \<equiv> look (Suc (h_looks h))"
  assumes "d_snapshots d0 = (\<lambda>_. None)" "(steady_step W)\<^sup>*\<^sup>* d0 d1" "looks_on W look rx d2" "d_now d2 \<le> h_now h + 10000"
  shows "let evs = drop (length (d_events d0)) (d_events d2); E = session_env d look rx d2;
      held = (\<lambda>emsg. d_snapshots c emsg \<noteq> None \<or> length (d_events d2) \<le> length (d_events d1) + 256) in
    (first_list 767 (fw_dec_friends_list F) evs = Some fl \<and> is_full_friends fl \<and> held 767 \<longrightarrow>
       fst (request_friends_list F E h) = Inr (friends_from fl)) \<and>
    (first_list 5587 (fw_dec_nickname_list F) evs = Some nl \<and> is_full_nicknames nl \<and> held 5587 \<longrightarrow>
       fst (request_nicknames F E h) = Inr (nicknames_from nl)) \<and>
    (first_list 5553 (fw_dec_groups_list F) evs = Some gl \<and> is_full_groups gl \<and> held 5553 \<longrightarrow>
       fst (request_friends_groups_list F E h) = Inr (groups_from gl))"
proof -
  note free = snapshot_race_free [OF assms(5) assms(4) [unfolded d1_def] assms(3)]
  show ?thesis
    unfolding Let_def request_friends_list_def request_nicknames_def request_friends_groups_list_def
      emsg_defs timeout_defs d1_def c_def
    using assms(6) by (intro conjI impI; elim conjE; intro free) (auto simp: POST_LOGIN_SNAPSHOT_EMSGS_def EVENT_CAPACITY_def)
qed

text \<open>C10: nobody waits for a driver that has stopped.  For a call whose command the queue took, the stopped
  driver has left exactly one answer, and a notification or a logoff returns with it.\<close>

theorem no_call_left_waiting:
  assumes "reachable (driver_start W) (driver_step W) d" "d_phase d = Ended r" "h_next h < d_next_channel d"
  shows "\<exists>!a. (h_next h, a) \<in> set (d_answers d) \<and>
    fst (notify (session_env d0 look rx d) h emsg body) =
      Ready (case a of Ack res \<Rightarrow> res | _ \<Rightarrow> Inl (WebSocket ''session driver dropped the notification'')) \<and>
    fst (logoff (session_env d0 look rx d) h) = Ready (Inr ())"
proof -
  note answers = ended_answers [OF assms(1, 2)]
  have "h_next h \<in> fst ` set (d_answers d)" using answers(2) assms(3) by simp
  then obtain a where a: "(h_next h, a) \<in> set (d_answers d)" by force
  then have m: "map_of (d_answers d) (h_next h) = Some a" using answers(1) by simp
  have unique: "(h_next h, a') \<in> set (d_answers d) \<Longrightarrow> a' = a" for a'
    using m answers(1) by (metis map_of_is_SomeI option.inject)
  have "fst (notify (session_env d0 look rx d) h emsg body) =
      Ready (case a of Ack res \<Rightarrow> res | _ \<Rightarrow> Inl (WebSocket ''session driver dropped the notification'')) \<and>
    fst (logoff (session_env d0 look rx d) h) = Ready (Inr ())"
    using m assms(3) by (simp add: notify_def logoff_def queue_command_def session_env_def Let_def)
  with a unique show ?thesis by blast
qed

text \<open>C9: a session ends when its last handle is dropped.  From every state that the driver can reach,
  connected, reconnecting or closing, it can serve what is still queued and stop, in no more steps than
  there are queued commands and two, to leave its loop and to close the socket, and then every command ever submitted has exactly one answer.\<close>

theorem session_ends_without_handles:
  assumes "reachable (driver_start W) (driver_step W) d" "\<not> d_handles d" "live_phase (d_phase d)"
  shows "\<exists>n d' r. n \<le> length (d_commands d) + 2 \<and> (driver_step W ^^ n) d d' \<and> d_phase d' = Ended r \<and>
    distinct (map fst (d_answers d')) \<and> set (map fst (d_answers d')) = {..<d_next_channel d}"
proof -
  obtain n d' r where run: "n \<le> length (d_commands d) + 2" "(driver_step W ^^ n) d d'" "d_phase d' = Ended r"
    "d_next_channel d' = d_next_channel d"
    using queue_drained [OF assms(2, 3)] by blast
  then show ?thesis using ended_answers [OF reachable_run [OF assms(1) run(2)] run(3)] by metis
qed

section \<open>Witnesses\<close>

text \<open>The caller subscribes before the list arrives and looks into the cache after it.\<close>

definition listing_looks :: "nat \<Rightarrow> driver" where
  "listing_looks n = (if n = 0 then sample_driver else listed_driver)"

definition listing_rx :: "nat \<Rightarrow> steam_message receiver" where
  "listing_rx n = (if n = 0 then [(9, RecvOk \<lparr>sm_emsg = 767, sm_header = default_header, sm_body = [9]\<rparr>)] else [])"

lemma listing_looks_on: "looks_on sample_wire listing_looks listing_rx listed_driver"
proof -
  let ?m = "\<lparr>sm_emsg = 767, sm_header = default_header, sm_body = [9]\<rparr>"
  have "receives EVENT_CAPACITY [?m] 9 [(9, RecvOk ?m)]" "receives EVENT_CAPACITY [] 9 ([] :: steam_message receiver)"
    unfolding receives_def by (intro exI [of _ "[(9, RecvOk ?m)]"] exI [of _ "[]"], simp add: delivers.intros)
      (simp add: delivers.intros)
  then show ?thesis using listed_run
    by (auto simp: looks_on_def listing_looks_def listing_rx_def listed_driver_simps)
qed

theorem lists_never_missed_witness:
  "fst (request_friends_list sample_friends (session_env sample_driver listing_looks listing_rx listed_driver)
     (sample_handle\<lparr>h_now := 9\<rparr>)) = Inr [\<lparr>fr_steam_id = 9, fr_relationship = IsFriend\<rparr>]"
proof -
  let ?l = "\<lparr>fl_bincremental = Some False, fl_friends = [\<lparr>pf_ulfriendid = Some 9, pf_efriendrelationship = Some 3\<rparr>]\<rparr>"
  let ?h = "sample_handle\<lparr>h_now := 9\<rparr>"
  have "first_list 767 (fw_dec_friends_list sample_friends) (d_events listed_driver) = Some ?l" "is_full_friends ?l"
    by (simp_all add: first_list_def listed_driver_simps sample_friends_def is_full_friends_def)
  moreover have "friends_from ?l = [\<lparr>fr_steam_id = 9, fr_relationship = IsFriend\<rparr>]" by code_simp
  moreover have "h_looks ?h = 0" by (simp add: sample_handle_def)
  ultimately show ?thesis
    using lists_never_missed [of sample_driver sample_wire listing_looks ?h listing_rx listed_driver sample_driver sample_friends ?l,
        OF _ _ listing_looks_on]
    by (simp add: listing_looks_def listed_driver_simps Let_def)
qed

theorem no_call_left_waiting_witness:
  "fst (logoff (session_env sample_driver (\<lambda>_. sample_driver) (\<lambda>_. []) logged_off_driver) (sample_handle\<lparr>h_next := 0\<rparr>)) = Ready (Inr ())"
  using no_call_left_waiting [OF logged_off_reachable(2) logged_off_ended(1), of "sample_handle\<lparr>h_next := 0\<rparr>"
      sample_driver "\<lambda>_. sample_driver" "\<lambda>_. []"]
  by (auto simp: logged_off_ended)

theorem session_ends_without_handles_witness:
  "\<exists>n d' r. n \<le> 2 \<and> (driver_step sample_wire ^^ n) (sample_driver\<lparr>d_handles := False\<rparr>) d' \<and> d_phase d' = Ended r"
proof -
  have "reachable (driver_start sample_wire) (driver_step sample_wire) (sample_driver\<lparr>d_handles := False\<rparr>)"
    using sample_reachable drop_handles by (rule reach_step)
  from session_ends_without_handles [OF this] show ?thesis by (fastforce simp: live_phase_def)
qed

end
